(* ===== verification/Prelude.thy ===== *)
theory Prelude
  imports "HOL-Library.State_Monad"
begin

text \<open>
  Shared vocabulary of the development.

  A handler of the operator is a state-monad program over a cluster state. The cluster itself
  (API server, event recorder, clock, metrics endpoint) is not code of this repository: it is an
  arbitrary \<open>world\<close>, reached only through the functions of the client record that every handler
  takes as an argument. Each call is appended to \<open>trace\<close> together with the response it got, so a
  theorem about the trace holds for every possible behaviour of the cluster: stale reads,
  conflicts, failures and interference by others included.

  The judgement \<open>yields R m\<close> says that every run of \<open>m\<close>, from every state, ends with a result and
  a newly appended trace related by \<open>R\<close>; \<open>emits P m\<close> says that every newly appended entry
  satisfies \<open>P\<close>; \<open>guards G h m\<close> says that every newly appended entry \<open>a\<close> satisfies \<open>G p a\<close>, where
  \<open>p\<close> is \<open>h\<close> followed by the entries of the run before \<open>a\<close>. The collections \<open>yields_intros\<close>,
  \<open>emits_intros\<close> and \<open>guards_intros\<close> are their syntax-directed rules.
\<close>

named_theorems const_defs "the string constants of the program, unfolded only where needed"
named_theorems yields_intros "syntax-directed rules for yields"
named_theorems emits_intros "syntax-directed rules for emits"
named_theorems guards_intros "syntax-directed rules for guards"

section \<open>Programs that log their calls\<close>

record ('w, 'e) sys =
  world :: 'w
  trace :: "'e list"

type_synonym ('w, 'e, 'a) prog = "(('w, 'e) sys, 'a) state"

abbreviation ret :: "'a \<Rightarrow> ('s, 'a) state" where
  "ret \<equiv> State_Monad.return"

text \<open>One call to the cluster, logged with its response.\<close>

definition call :: "('w \<Rightarrow> 'r \<times> 'w) \<Rightarrow> ('r \<Rightarrow> 'e) \<Rightarrow> ('w, 'e, 'r) prog" where
  "call f ev = State (\<lambda>s. case f (world s) of
     (r, w) \<Rightarrow> (r, s\<lparr>world := w, trace := trace s @ [ev r]\<rparr>))"

text \<open>A read of the environment that leaves no entry (the clock).\<close>

definition silent :: "('w \<Rightarrow> 'r \<times> 'w) \<Rightarrow> ('w, 'e, 'r) prog" where
  "silent f = State (\<lambda>s. case f (world s) of (r, w) \<Rightarrow> (r, s\<lparr>world := w\<rparr>))"

lemma run_state_call [simp]:
  "run_state (call f ev) s = (case f (world s) of
     (r, w) \<Rightarrow> (r, s\<lparr>world := w, trace := trace s @ [ev r]\<rparr>))"
  by (simp add: call_def)

lemma run_state_silent [simp]:
  "run_state (silent f) s = (case f (world s) of (r, w) \<Rightarrow> (r, s\<lparr>world := w\<rparr>))"
  by (simp add: silent_def)

section \<open>Judgements for every behaviour of the cluster\<close>

definition yields :: "('a \<Rightarrow> 'e list \<Rightarrow> bool) \<Rightarrow> ('w, 'e, 'a) prog \<Rightarrow> bool" where
  "yields R m \<longleftrightarrow>
     (\<forall>s. \<exists>tr. trace (snd (run_state m s)) = trace s @ tr \<and> R (fst (run_state m s)) tr)"

definition emits :: "('e \<Rightarrow> bool) \<Rightarrow> ('w, 'e, 'a) prog \<Rightarrow> bool" where
  "emits P m \<longleftrightarrow> yields (\<lambda>_ tr. list_all P tr) m"

lemma yieldsD:
  "yields R m \<Longrightarrow> run_state m s = (a, s') \<Longrightarrow> \<exists>tr. trace s' = trace s @ tr \<and> R a tr"
  by (metis fst_conv snd_conv yields_def)

lemma yields_weaken:
  "yields S m \<Longrightarrow> (\<And>a tr. S a tr \<Longrightarrow> R a tr) \<Longrightarrow> yields R m"
  unfolding yields_def by blast

lemma yields_conj:
  assumes "yields R m" "yields S m"
  shows "yields (\<lambda>a tr. R a tr \<and> S a tr) m"
  using assms unfolding yields_def by (metis same_append_eq)

lemma yields_ret [yields_intros]: "R a [] \<Longrightarrow> yields R (ret a)"
  by (simp add: yields_def)

lemma yields_call [yields_intros]: "(\<And>r. R r [ev r]) \<Longrightarrow> yields R (call f ev)"
  by (simp add: yields_def split: prod.splits)

lemma yields_silent [yields_intros]: "(\<And>r. R r []) \<Longrightarrow> yields R (silent f)"
  by (simp add: yields_def split: prod.splits)

lemma yields_bind:
  assumes m: "yields S m"
    and f: "\<And>a tr. S a tr \<Longrightarrow> yields (\<lambda>b tr'. R b (tr @ tr')) (f a)"
  shows "yields R (State_Monad.bind m f)"
  unfolding yields_def
proof (intro allI)
  fix s
  obtain a s1 where 1: "run_state m s = (a, s1)" by fastforce
  then obtain tr where tr: "trace s1 = trace s @ tr" "S a tr"
    using yieldsD [OF m] by blast
  obtain b s2 where 2: "run_state (f a) s1 = (b, s2)" by fastforce
  then obtain tr' where "trace s2 = trace s1 @ tr'" "R b (tr @ tr')"
    using yieldsD [OF f [OF tr(2)]] by blast
  then show "\<exists>tr. trace (snd (run_state (State_Monad.bind m f) s)) = trace s @ tr \<and>
      R (fst (run_state (State_Monad.bind m f) s)) tr"
    using 1 2 tr by simp
qed

lemma yields_call_bind [yields_intros]:
  "(\<And>r. yields (\<lambda>b tr. R b (ev r # tr)) (g r)) \<Longrightarrow> yields R (State_Monad.bind (call f ev) g)"
  by (rule yields_bind [where S = "\<lambda>r tr. tr = [ev r]"]) (auto intro: yields_call)

lemma yields_silent_bind [yields_intros]:
  "(\<And>r. yields R (g r)) \<Longrightarrow> yields R (State_Monad.bind (silent f) g)"
  by (rule yields_bind [where S = "\<lambda>r tr. tr = []"]) (auto intro: yields_silent)

lemma yields_if [yields_intros]:
  "(b \<Longrightarrow> yields R m) \<Longrightarrow> (\<not> b \<Longrightarrow> yields R n) \<Longrightarrow> yields R (if b then m else n)"
  by simp

lemma yields_case_sum [yields_intros]:
  "(\<And>e. x = Inl e \<Longrightarrow> yields R (f e)) \<Longrightarrow> (\<And>a. x = Inr a \<Longrightarrow> yields R (g a)) \<Longrightarrow>
   yields R (case x of Inl e \<Rightarrow> f e | Inr a \<Rightarrow> g a)"
  by (simp split: sum.split)

lemma yields_case_option [yields_intros]:
  "(x = None \<Longrightarrow> yields R m) \<Longrightarrow> (\<And>a. x = Some a \<Longrightarrow> yields R (g a)) \<Longrightarrow>
   yields R (case x of None \<Rightarrow> m | Some a \<Rightarrow> g a)"
  by (simp split: option.split)

lemma yields_case_prod [yields_intros]:
  "(\<And>a b. x = (a, b) \<Longrightarrow> yields R (f a b)) \<Longrightarrow> yields R (case x of (a, b) \<Rightarrow> f a b)"
  by (simp split: prod.split)

lemma yields_case_list [yields_intros]:
  "(x = [] \<Longrightarrow> yields R m) \<Longrightarrow> (\<And>y ys. x = y # ys \<Longrightarrow> yields R (g y ys)) \<Longrightarrow>
   yields R (case x of [] \<Rightarrow> m | y # ys \<Rightarrow> g y ys)"
  by (simp split: list.split)

lemma yields_let [yields_intros]:
  "(\<And>x. x = t \<Longrightarrow> yields R (f x)) \<Longrightarrow> yields R (let x = t in f x)"
  by simp

subsection \<open>A choice in front of a continuation\<close>

lemma yields_bind_ret [yields_intros]: "yields R (g a) \<Longrightarrow> yields R (State_Monad.bind (ret a) g)"
  by simp

lemma yields_bind_bind [yields_intros]:
  "yields R (State_Monad.bind m (\<lambda>a. State_Monad.bind (f a) g)) \<Longrightarrow>
   yields R (State_Monad.bind (State_Monad.bind m f) g)"
  by simp

lemma yields_bind_if [yields_intros]:
  "(b \<Longrightarrow> yields R (State_Monad.bind m g)) \<Longrightarrow> (\<not> b \<Longrightarrow> yields R (State_Monad.bind n g)) \<Longrightarrow>
   yields R (State_Monad.bind (if b then m else n) g)"
  by simp

lemma yields_bind_case_sum [yields_intros]:
  "(\<And>e. x = Inl e \<Longrightarrow> yields R (State_Monad.bind (f e) k)) \<Longrightarrow>
   (\<And>a. x = Inr a \<Longrightarrow> yields R (State_Monad.bind (g a) k)) \<Longrightarrow>
   yields R (State_Monad.bind (case x of Inl e \<Rightarrow> f e | Inr a \<Rightarrow> g a) k)"
  by (simp split: sum.split)

lemma yields_bind_case_option [yields_intros]:
  "(x = None \<Longrightarrow> yields R (State_Monad.bind m k)) \<Longrightarrow>
   (\<And>a. x = Some a \<Longrightarrow> yields R (State_Monad.bind (g a) k)) \<Longrightarrow>
   yields R (State_Monad.bind (case x of None \<Rightarrow> m | Some a \<Rightarrow> g a) k)"
  by (simp split: option.split)

lemma yields_bind_case_prod [yields_intros]:
  "(\<And>a b. x = (a, b) \<Longrightarrow> yields R (State_Monad.bind (f a b) k)) \<Longrightarrow>
   yields R (State_Monad.bind (case x of (a, b) \<Rightarrow> f a b) k)"
  by (simp split: prod.split)

lemma yields_bind_let [yields_intros]:
  "(\<And>x. x = t \<Longrightarrow> yields R (State_Monad.bind (f x) k)) \<Longrightarrow>
   yields R (State_Monad.bind (let x = t in f x) k)"
  by simp

subsection \<open>Every appended entry\<close>

lemma emitsD:
  "emits P m \<Longrightarrow> run_state m s = (a, s') \<Longrightarrow> \<exists>tr. trace s' = trace s @ tr \<and> list_all P tr"
  unfolding emits_def by (rule yieldsD)

lemma emits_weaken: "emits P m \<Longrightarrow> (\<And>e. P e \<Longrightarrow> Q e) \<Longrightarrow> emits Q m"
  unfolding emits_def by (erule yields_weaken) (auto simp: list_all_iff)

lemma emits_ret [emits_intros]: "emits P (ret a)"
  by (simp add: emits_def yields_ret)

lemma emits_call [emits_intros]: "(\<And>r. P (ev r)) \<Longrightarrow> emits P (call f ev)"
  by (simp add: emits_def yields_call)

lemma emits_silent [emits_intros]: "emits P (silent f)"
  by (simp add: emits_def yields_silent)

lemma emits_bind [emits_intros]:
  "emits P m \<Longrightarrow> (\<And>a. emits P (f a)) \<Longrightarrow> emits P (State_Monad.bind m f)"
  unfolding emits_def by (erule yields_bind) (auto elim: yields_weaken)

lemma emits_if [emits_intros]:
  "(b \<Longrightarrow> emits P m) \<Longrightarrow> (\<not> b \<Longrightarrow> emits P n) \<Longrightarrow> emits P (if b then m else n)"
  by simp

lemma emits_case_sum [emits_intros]:
  "(\<And>e. x = Inl e \<Longrightarrow> emits P (f e)) \<Longrightarrow> (\<And>a. x = Inr a \<Longrightarrow> emits P (g a)) \<Longrightarrow>
   emits P (case x of Inl e \<Rightarrow> f e | Inr a \<Rightarrow> g a)"
  by (simp split: sum.split)

lemma emits_case_option [emits_intros]:
  "(x = None \<Longrightarrow> emits P m) \<Longrightarrow> (\<And>a. x = Some a \<Longrightarrow> emits P (g a)) \<Longrightarrow>
   emits P (case x of None \<Rightarrow> m | Some a \<Rightarrow> g a)"
  by (simp split: option.split)

lemma emits_case_prod [emits_intros]:
  "(\<And>a b. x = (a, b) \<Longrightarrow> emits P (f a b)) \<Longrightarrow> emits P (case x of (a, b) \<Rightarrow> f a b)"
  by (simp split: prod.split)

lemma emits_case_list [emits_intros]:
  "(x = [] \<Longrightarrow> emits P m) \<Longrightarrow> (\<And>y ys. x = y # ys \<Longrightarrow> emits P (g y ys)) \<Longrightarrow>
   emits P (case x of [] \<Rightarrow> m | y # ys \<Rightarrow> g y ys)"
  by (simp split: list.split)

lemma emits_let [emits_intros]:
  "(\<And>x. x = t \<Longrightarrow> emits P (f x)) \<Longrightarrow> emits P (let x = t in f x)"
  by simp

subsection \<open>Every entry, given the entries before it\<close>

primrec guarded :: "('e list \<Rightarrow> 'e \<Rightarrow> bool) \<Rightarrow> 'e list \<Rightarrow> 'e list \<Rightarrow> bool" where
  "guarded G h [] \<longleftrightarrow> True"
| "guarded G h (a # as) \<longleftrightarrow> G h a \<and> guarded G (h @ [a]) as"

definition guards :: "('e list \<Rightarrow> 'e \<Rightarrow> bool) \<Rightarrow> 'e list \<Rightarrow> ('w, 'e, 'a) prog \<Rightarrow> bool" where
  "guards G h m \<longleftrightarrow> yields (\<lambda>_ tr. guarded G h tr) m"

lemma guarded_append: "guarded G h (xs @ ys) \<longleftrightarrow> guarded G h xs \<and> guarded G (h @ xs) ys"
  by (induction xs arbitrary: h) auto

lemma guarded_split: "guarded G h tr \<Longrightarrow> tr = pre @ a # post \<Longrightarrow> G (h @ pre) a"
  by (simp add: guarded_append)

lemma guarded_all: "(\<And>h. list_all (G h) tr) \<Longrightarrow> guarded G h tr"
  by (induction tr arbitrary: h) auto

lemma guardsD:
  "guards G h m \<Longrightarrow> run_state m s = (a, s') \<Longrightarrow> \<exists>tr. trace s' = trace s @ tr \<and> guarded G h tr"
  unfolding guards_def by (rule yieldsD)

lemma guards_emits: "emits P m \<Longrightarrow> (\<And>h a. P a \<Longrightarrow> G h a) \<Longrightarrow> guards G h m"
  unfolding guards_def emits_def
  by (erule yields_weaken) (auto intro!: guarded_all simp: list_all_iff)

lemma guards_ret [guards_intros]: "guards G h (ret a)"
  by (simp add: guards_def yields_ret)

lemma guards_call [guards_intros]: "(\<And>r. G h (ev r)) \<Longrightarrow> guards G h (call f ev)"
  by (simp add: guards_def yields_call)

lemma guards_silent [guards_intros]: "guards G h (silent f)"
  by (simp add: guards_def yields_silent)

text \<open>Sequencing, with what the first program is known to yield.\<close>

lemma guards_bind:
  assumes "guards G h m" "yields S m" "\<And>a tr. S a tr \<Longrightarrow> guards G (h @ tr) (f a)"
  shows "guards G h (State_Monad.bind m f)"
  unfolding guards_def
  by (rule yields_bind [OF yields_conj [OF assms(1) [unfolded guards_def] assms(2)]])
     (auto simp: guarded_append intro: yields_weaken [OF assms(3) [unfolded guards_def]])

lemma guards_any:
  assumes "guards G h m" "\<And>a tr. guards G (h @ tr) (f a)"
  shows "guards G h (State_Monad.bind m f)"
  by (rule guards_bind [OF assms(1) assms(1) [unfolded guards_def] assms(2)])

lemma guards_last: "guards G h m \<Longrightarrow> guards G h (State_Monad.bind m (\<lambda>a. ret (f a)))"
  unfolding guards_def by (erule yields_bind) (simp add: yields_ret)

lemma guards_call_bind [guards_intros]:
  "(\<And>r. G h (ev r)) \<Longrightarrow> (\<And>r. guards G (h @ [ev r]) (g r)) \<Longrightarrow>
   guards G h (State_Monad.bind (call f ev) g)"
  by (rule guards_bind [where S = "\<lambda>r tr. tr = [ev r]"]) (auto intro: guards_call yields_call)

lemma guards_silent_bind [guards_intros]:
  "(\<And>r. guards G h (g r)) \<Longrightarrow> guards G h (State_Monad.bind (silent f) g)"
  unfolding guards_def by (rule yields_silent_bind)

lemma guards_if [guards_intros]:
  "(b \<Longrightarrow> guards G h m) \<Longrightarrow> (\<not> b \<Longrightarrow> guards G h n) \<Longrightarrow> guards G h (if b then m else n)"
  by simp

lemma guards_case_sum [guards_intros]:
  "(\<And>e. x = Inl e \<Longrightarrow> guards G h (f e)) \<Longrightarrow> (\<And>a. x = Inr a \<Longrightarrow> guards G h (g a)) \<Longrightarrow>
   guards G h (case x of Inl e \<Rightarrow> f e | Inr a \<Rightarrow> g a)"
  by (simp split: sum.split)

lemma guards_case_option [guards_intros]:
  "(x = None \<Longrightarrow> guards G h m) \<Longrightarrow> (\<And>a. x = Some a \<Longrightarrow> guards G h (g a)) \<Longrightarrow>
   guards G h (case x of None \<Rightarrow> m | Some a \<Rightarrow> g a)"
  by (simp split: option.split)

lemma guards_case_prod [guards_intros]:
  "(\<And>a b. x = (a, b) \<Longrightarrow> guards G h (f a b)) \<Longrightarrow> guards G h (case x of (a, b) \<Rightarrow> f a b)"
  by (simp split: prod.split)

lemma guards_case_list [guards_intros]:
  "(x = [] \<Longrightarrow> guards G h m) \<Longrightarrow> (\<And>y ys. x = y # ys \<Longrightarrow> guards G h (g y ys)) \<Longrightarrow>
   guards G h (case x of [] \<Rightarrow> m | y # ys \<Rightarrow> g y ys)"
  by (simp split: list.split)

lemma guards_let [guards_intros]:
  "(\<And>x. x = t \<Longrightarrow> guards G h (f x)) \<Longrightarrow> guards G h (let x = t in f x)"
  by simp

lemma guards_bind_ret [guards_intros]: "guards G h (g a) \<Longrightarrow> guards G h (State_Monad.bind (ret a) g)"
  by simp

lemma guards_bind_bind [guards_intros]:
  "guards G h (State_Monad.bind m (\<lambda>a. State_Monad.bind (f a) g)) \<Longrightarrow>
   guards G h (State_Monad.bind (State_Monad.bind m f) g)"
  by simp

lemma guards_bind_if [guards_intros]:
  "(b \<Longrightarrow> guards G h (State_Monad.bind m g)) \<Longrightarrow> (\<not> b \<Longrightarrow> guards G h (State_Monad.bind n g)) \<Longrightarrow>
   guards G h (State_Monad.bind (if b then m else n) g)"
  by simp

lemma guards_bind_case_sum [guards_intros]:
  "(\<And>e. x = Inl e \<Longrightarrow> guards G h (State_Monad.bind (f e) k)) \<Longrightarrow>
   (\<And>a. x = Inr a \<Longrightarrow> guards G h (State_Monad.bind (g a) k)) \<Longrightarrow>
   guards G h (State_Monad.bind (case x of Inl e \<Rightarrow> f e | Inr a \<Rightarrow> g a) k)"
  by (simp split: sum.split)

lemma guards_bind_case_option [guards_intros]:
  "(x = None \<Longrightarrow> guards G h (State_Monad.bind m k)) \<Longrightarrow>
   (\<And>a. x = Some a \<Longrightarrow> guards G h (State_Monad.bind (g a) k)) \<Longrightarrow>
   guards G h (State_Monad.bind (case x of None \<Rightarrow> m | Some a \<Rightarrow> g a) k)"
  by (simp split: option.split)

lemma guards_bind_let [guards_intros]:
  "(\<And>x. x = t \<Longrightarrow> guards G h (State_Monad.bind (f x) k)) \<Longrightarrow>
   guards G h (State_Monad.bind (let x = t in f x) k)"
  by simp

section \<open>Go maps and pointers\<close>

text \<open>
  Reading a missing key of a Go \<open>map[string]string\<close> gives the empty string; a nil map reads as an
  empty one. Iterating over a map to copy its entries into another is map addition.
\<close>

type_synonym strmap = "string \<Rightarrow> string option"

definition lookup :: "strmap \<Rightarrow> string \<Rightarrow> string" where
  "lookup m k = (case m k of None \<Rightarrow> '''' | Some v \<Rightarrow> v)"

lemma lookup_simps [simp]:
  "lookup Map.empty k = ''''"
  "lookup (m(k \<mapsto> v)) k' = (if k' = k then v else lookup m k')"
  "lookup (m(k := None)) k' = (if k' = k then '''' else lookup m k')"
  by (auto simp: lookup_def)

lemma lookup_map_add: "lookup (m ++ n) k = (case n k of None \<Rightarrow> lookup m k | Some v \<Rightarrow> v)"
  by (auto simp: lookup_def map_add_def split: option.splits)

end
