(* ===== verification/Go_Strings.thy ===== *)
theory Go_Strings
  imports Prelude
begin

text \<open>
  The part of Go's standard library (\<open>strings\<close>, \<open>fmt\<close>, \<open>strconv\<close>, \<open>path/filepath\<close>)
  that the operator uses, on strings as lists of bytes. Quoting (\<open>%q\<close>) is exact for ASCII; bytes
  from 128 up are kept as they are, which is what Go does for printable UTF-8 text. Paths follow
  the Unix rules of \<open>filepath\<close>.
\<close>

section \<open>strings\<close>

definition HasPrefix :: "string \<Rightarrow> string \<Rightarrow> bool" where
  "HasPrefix s p \<longleftrightarrow> take (length p) s = p"

lemma HasPrefix_iff: "HasPrefix s p \<longleftrightarrow> (\<exists>t. s = p @ t)"
  unfolding HasPrefix_def by (metis append_eq_conv_conj append_take_drop_id)

lemma HasPrefix_append [simp]: "HasPrefix (p @ t) p"
  by (simp add: HasPrefix_def)

fun Contains :: "string \<Rightarrow> string \<Rightarrow> bool" where
  "Contains [] p = (p = [])"
| "Contains (c # s) p = (HasPrefix (c # s) p \<or> Contains s p)"

definition TrimRight :: "string \<Rightarrow> string \<Rightarrow> string" where
  "TrimRight s cutset = rev (dropWhile (\<lambda>c. c \<in> set cutset) (rev s))"

lemma TrimRight_last: "TrimRight s cs = [] \<or> last (TrimRight s cs) \<notin> set cs"
  unfolding TrimRight_def
  by (metis dropWhile_eq_Nil_conv hd_dropWhile last_rev rev_is_Nil_conv)

lemma TrimRight_prefix: "\<exists>t. s = TrimRight s cs @ t \<and> set t \<subseteq> set cs"
proof (intro exI conjI)
  let ?t = "rev (takeWhile (\<lambda>c. c \<in> set cs) (rev s))"
  show "s = TrimRight s cs @ ?t"
    unfolding TrimRight_def by (metis rev_append rev_rev_ident takeWhile_dropWhile_id)
  show "set ?t \<subseteq> set cs"
    by (auto dest: set_takeWhileD)
qed

text \<open>\<open>strings.Cut\<close> at a one-byte separator: the part before, the part after, and whether found.\<close>

fun Cut :: "string \<Rightarrow> char \<Rightarrow> string \<times> string \<times> bool" where
  "Cut [] sep = ([], [], False)"
| "Cut (c # s) sep =
     (if c = sep then ([], s, True)
      else case Cut s sep of (b, a, found) \<Rightarrow> (c # b, a, found))"

lemma Cut_found: "sep \<notin> set b \<Longrightarrow> Cut (b @ sep # a) sep = (b, a, True)"
  by (induction b) auto

lemma Cut_absent: "sep \<notin> set s \<Longrightarrow> Cut s sep = (s, [], False)"
  by (induction s) auto

lemma Cut_cases:
  "Cut s sep = (b, a, found) \<Longrightarrow>
     sep \<notin> set b \<and> (if found then s = b @ sep # a else s = b \<and> a = [])"
  by (induction s arbitrary: b a found) (auto split: if_splits prod.splits)

text \<open>\<open>strings.Split\<close> at a one-byte separator.\<close>

fun Split :: "string \<Rightarrow> char \<Rightarrow> string list" where
  "Split [] sep = [[]]"
| "Split (c # s) sep =
     (if c = sep then [] # Split s sep
      else case Split s sep of [] \<Rightarrow> [[c]] | p # ps \<Rightarrow> (c # p) # ps)"

lemma Split_nonempty [simp]: "Split s sep \<noteq> []"
  by (induction s) (auto split: list.splits)

lemma Split_no_sep: "sep \<notin> set s \<Longrightarrow> Split s sep = [s]"
  by (induction s) auto

lemma Split_append_sep: "sep \<notin> set b \<Longrightarrow> Split (b @ sep # a) sep = b # Split a sep"
  by (induction b) auto

definition is_space :: "char \<Rightarrow> bool" where
  "is_space c \<longleftrightarrow> c \<in> {CHR '' '', CHR 0x09, CHR 0x0A, CHR 0x0B, CHR 0x0C, CHR 0x0D}"

text \<open>\<open>strings.Fields\<close>: the maximal runs of non-space bytes.\<close>

fun Fields_from :: "string \<Rightarrow> string \<Rightarrow> string list" where
  "Fields_from [] acc = (if acc = [] then [] else [rev acc])"
| "Fields_from (c # s) acc =
     (if is_space c then (if acc = [] then Fields_from s [] else rev acc # Fields_from s [])
      else Fields_from s (c # acc))"

definition Fields :: "string \<Rightarrow> string list" where
  "Fields s = Fields_from s []"

fun Join :: "string list \<Rightarrow> string \<Rightarrow> string" where
  "Join [] sep = []"
| "Join [x] sep = x"
| "Join (x # y # ys) sep = x @ sep @ Join (y # ys) sep"

section \<open>fmt and strconv\<close>

definition digit :: "nat \<Rightarrow> char" where
  "digit n = char_of (48 + n)"

fun show_nat :: "nat \<Rightarrow> string" where
  "show_nat n = (if n < 10 then [digit n] else show_nat (n div 10) @ [digit (n mod 10)])"

declare show_nat.simps [simp del]

text \<open>The verb \<open>%d\<close>.\<close>

definition fmt_d :: "int \<Rightarrow> string" where
  "fmt_d i = (if i < 0 then CHR ''-'' # show_nat (nat (- i)) else show_nat (nat i))"

text \<open>A number can be read back from its digits.\<close>

definition digitsValue :: "string \<Rightarrow> nat" where
  "digitsValue s = foldl (\<lambda>v c. 10 * v + (of_char c - 48)) 0 s"

lemma of_char_digit: "n < 10 \<Longrightarrow> of_char (digit n) = 48 + n"
  by (simp add: digit_def)

lemma digitsValue_show_nat: "digitsValue (show_nat n) = n"
proof (induction n rule: show_nat.induct)
  case (1 n)
  then show ?case
    by (cases "n < 10") (simp_all add: show_nat.simps [of n] digitsValue_def of_char_digit)
qed

lemma show_nat_digits: "c \<in> set (show_nat n) \<Longrightarrow> \<exists>d<10. c = digit d"
proof (induction n rule: show_nat.induct)
  case (1 n)
  then show ?case
  proof (cases "n < 10")
    case False
    then have "c \<in> set (show_nat (n div 10)) \<or> c = digit (n mod 10)"
      using "1.prems" by (auto simp: show_nat.simps [of n])
    moreover have "n mod 10 < 10" by simp
    ultimately show ?thesis using "1.IH" [OF False] by blast
  qed (auto simp: show_nat.simps [of n])
qed

lemma show_nat_no_other:
  assumes "of_char c < (48 :: nat)"
  shows "c \<notin> set (show_nat n)"
  using assms of_char_digit by (fastforce dest: show_nat_digits)

lemma show_nat_inj [simp]: "show_nat m = show_nat n \<longleftrightarrow> m = n"
  by (metis digitsValue_show_nat)

lemma fmt_d_inj [simp]: "fmt_d i = fmt_d j \<longleftrightarrow> i = j"
proof -
  have "CHR ''-'' # s \<noteq> show_nat n" for s n
    using show_nat_no_other [of "CHR ''-''" n] by (auto dest!: sym [of "CHR ''-'' # s"])
  then show ?thesis by (auto simp: fmt_d_def dest: sym)
qed

lemma fmt_d_no_newline [simp]: "CHR 0x0A \<notin> set (fmt_d i)"
  using show_nat_no_other [of "CHR 0x0A"] by (auto simp: fmt_d_def)

text \<open>The verb \<open>%t\<close>.\<close>

definition fmt_t :: "bool \<Rightarrow> string" where
  "fmt_t b = (if b then ''true'' else ''false'')"

text \<open>The verb \<open>%v\<close> of a slice of strings.\<close>

definition fmt_v_strings :: "string list \<Rightarrow> string" where
  "fmt_v_strings xs = ''['' @ Join xs '' '' @ '']''"

text \<open>The verb \<open>%q\<close> (\<open>strconv.Quote\<close>): a double-quoted Go string literal.\<close>

definition dquote :: char where
  "dquote = CHR 0x22"

definition backslash :: char where
  "backslash = CHR 0x5C"

definition hexdigit :: "nat \<Rightarrow> char" where
  "hexdigit n = (if n < 10 then char_of (48 + n) else char_of (87 + n))"

definition quote_byte :: "char \<Rightarrow> string" where
  "quote_byte c =
     (if c = dquote \<or> c = backslash then [backslash, c]
      else if c = CHR 0x07 then [backslash, CHR ''a'']
      else if c = CHR 0x08 then [backslash, CHR ''b'']
      else if c = CHR 0x0C then [backslash, CHR ''f'']
      else if c = CHR 0x0A then [backslash, CHR ''n'']
      else if c = CHR 0x0D then [backslash, CHR ''r'']
      else if c = CHR 0x09 then [backslash, CHR ''t'']
      else if c = CHR 0x0B then [backslash, CHR ''v'']
      else let n = of_char c :: nat in
        if n < 32 \<or> n = 127
        then [backslash, CHR ''x'', hexdigit (n div 16), hexdigit (n mod 16)]
        else [c])"

definition fmt_q :: "string \<Rightarrow> string" where
  "fmt_q s = dquote # concat (map quote_byte s) @ [dquote]"

text \<open>The verb \<open>%x\<close> of a byte slice.\<close>

definition fmt_x :: "string \<Rightarrow> string" where
  "fmt_x s = concat (map (\<lambda>c. let n = of_char c :: nat in [hexdigit (n div 16), hexdigit (n mod 16)]) s)"

text \<open>A line break and the em dash (U+2014, three bytes of UTF-8) used in several messages.\<close>

definition newline :: string where
  "newline = [CHR 0x0A]"

definition emdash :: string where
  "emdash = [CHR 0xE2, CHR 0x80, CHR 0x94]"

section \<open>path/filepath\<close>

text \<open>
  \<open>filepath.Clean\<close> works through the slash-separated elements with a stack (kept reversed here):
  empty elements and \<open>.\<close> are dropped, \<open>..\<close> removes the element before it where there is one.
\<close>

fun clean_elems :: "bool \<Rightarrow> string list \<Rightarrow> string list \<Rightarrow> string list" where
  "clean_elems rooted stack [] = rev stack"
| "clean_elems rooted stack (e # es) =
     (if e = [] \<or> e = ''.'' then clean_elems rooted stack es
      else if e = ''..'' then
        (case stack of
           t # ts \<Rightarrow> if t = ''..'' then clean_elems rooted (e # stack) es
                      else clean_elems rooted ts es
         | [] \<Rightarrow> if rooted then clean_elems rooted [] es else clean_elems rooted [e] es)
      else clean_elems rooted (e # stack) es)"

definition Clean :: "string \<Rightarrow> string" where
  "Clean path =
     (if path = [] then ''.''
      else let rooted = (hd path = CHR ''/'');
               es = clean_elems rooted [] (Split path (CHR ''/''))
           in if rooted then CHR ''/'' # Join es ''/''
              else if es = [] then ''.'' else Join es ''/'')"

definition Dir :: "string \<Rightarrow> string" where
  "Dir path = Clean (rev (dropWhile (\<lambda>c. c \<noteq> CHR ''/'') (rev path)))"

text \<open>A file directly below a directory path: \<open>Dir\<close> gives back the cleaned directory.\<close>

lemma Dir_append:
  assumes "CHR ''/'' \<notin> set n"
  shows "Dir (d @ CHR ''/'' # n) = Clean (d @ ''/'')"
proof -
  have "rev (d @ CHR ''/'' # n) = rev n @ CHR ''/'' # rev d" by simp
  moreover have "dropWhile (\<lambda>c. c \<noteq> CHR ''/'') (rev n @ CHR ''/'' # rev d) = CHR ''/'' # rev d"
    using assms by (auto simp: dropWhile_append3)
  ultimately show ?thesis by (simp add: Dir_def)
qed

text \<open>An absolute path written in its canonical form: no empty, \<open>.\<close> or \<open>..\<close> element.\<close>

definition plain_elem :: "string \<Rightarrow> bool" where
  "plain_elem e \<longleftrightarrow> e \<noteq> [] \<and> e \<noteq> ''.'' \<and> e \<noteq> ''..'' \<and> CHR ''/'' \<notin> set e"

definition path_of :: "string list \<Rightarrow> string" where
  "path_of es = concat (map (\<lambda>e. CHR ''/'' # e) es)"

lemma clean_elems_plain:
  "list_all plain_elem es \<Longrightarrow> clean_elems r st (es @ [[]]) = rev st @ es"
  by (induction es arbitrary: st) (auto simp: plain_elem_def)

lemma path_of_Cons: "path_of (e # es) = CHR ''/'' # e @ path_of es"
  by (simp add: path_of_def)

lemma Split_path_of:
  "list_all plain_elem es \<Longrightarrow> Split (e @ path_of es @ ''/'') (CHR ''/'') = e # es @ [[]]"
  if "CHR ''/'' \<notin> set e"
  using that
proof (induction es arbitrary: e)
  case Nil
  then show ?case by (simp add: path_of_def Split_append_sep)
next
  case (Cons f es)
  then have f: "CHR ''/'' \<notin> set f" by (simp add: plain_elem_def)
  have "Split (e @ path_of (f # es) @ ''/'') (CHR ''/'')
      = Split (e @ CHR ''/'' # (f @ path_of es @ ''/'')) (CHR ''/'')"
    by (simp add: path_of_Cons)
  also have "\<dots> = e # f # es @ [[]]"
    using Cons f by (simp add: Split_append_sep del: append_assoc)
  finally show ?case by simp
qed

lemma Join_path_of: "es \<noteq> [] \<Longrightarrow> CHR ''/'' # Join es ''/'' = path_of es"
  by (induction es rule: induct_list012) (auto simp: path_of_def)

lemma Clean_plain:
  assumes "es \<noteq> []" "list_all plain_elem es"
  shows "Clean (path_of es @ ''/'') = path_of es"
proof -
  have "Split ([] @ path_of es @ ''/'') (CHR ''/'') = [] # es @ [[]]"
    using assms by (intro Split_path_of) auto
  moreover have "hd (path_of es @ ''/'') = CHR ''/''"
    using assms(1) by (cases es) (auto simp: path_of_Cons)
  ultimately show ?thesis
    using assms by (simp add: Clean_def Let_def clean_elems_plain Join_path_of)
qed

end
