(* ===== verification/Api_Types.thy ===== *)
theory Api_Types
  imports Go_Strings
begin

text \<open>
  The data of the program: the two custom resources of \<open>api/v1\<close> field by field, and the
  fields of the Kubernetes objects that the operator reads or writes. Every Go struct is a record
  with one short prefix per record; a pointer is an option; a \<open>map[string]string\<close> is a partial
  function. Types that the code declares as strings with a fixed set of values (phases, modes,
  condition statuses) stay strings here, because the code compares them as strings and an object
  may hold any other value. Instants are nanoseconds counted from Go's zero time, and counts and
  identifiers are integers: the program only compares them.
\<close>

type_synonym instant = int

section \<open>Kubernetes metadata and shared structures\<close>

record objectMeta =
  om_Name :: string
  om_Namespace :: string
  om_Labels :: strmap
  om_Annotations :: strmap
  om_Finalizers :: "string list"
  om_DeletionTimestamp :: "instant option"
  om_Generation :: int
  om_OwnerReferences :: "string list"

type_synonym nsname = "string \<times> string"

text \<open>\<open>DeletionTimestamp.IsZero()\<close>: a nil pointer or Go's zero time.\<close>

definition IsZero :: "instant option \<Rightarrow> bool" where
  "IsZero t = (case t of None \<Rightarrow> True | Some i \<Rightarrow> i = 0)"

record condition =
  cd_Type :: string
  cd_Status :: string
  cd_ObservedGeneration :: int
  cd_LastTransitionTime :: instant
  cd_Reason :: string
  cd_Message :: string

definition ConditionTrue :: string where [const_defs]: "ConditionTrue = ''True''"
definition ConditionFalse :: string where [const_defs]: "ConditionFalse = ''False''"

lemma condition_status_distinct [simp]: "ConditionTrue \<noteq> ConditionFalse" "ConditionFalse \<noteq> ConditionTrue"
  by (simp_all add: const_defs)

text \<open>Resource quantities are kept in their textual form.\<close>

record resourceRequirements =
  rr_Limits :: strmap
  rr_Requests :: strmap

section \<open>LitestreamReplica (api/v1/litestreamreplica\_types.go)\<close>

record s3Destination =
  s3_Endpoint :: string
  s3_Bucket :: string
  s3_Path :: string
  s3_Region :: string
  s3_SecretRef :: string

record backupDestination =
  bd_S3 :: "s3Destination option"

record retentionPolicy =
  rp_Duration :: string

record backupSpec =
  bk_Enabled :: bool
  bk_Destination :: backupDestination
  bk_Retention :: retentionPolicy
  bk_SyncInterval :: string
  bk_LogLevel :: string
  bk_Resources :: "resourceRequirements option"
  bk_AutoRecover :: bool

definition RecoveryModeManual :: string where [const_defs]: "RecoveryModeManual = ''manual''"
definition RecoveryModeAutomatic :: string where [const_defs]: "RecoveryModeAutomatic = ''automatic''"

record recoverySpec =
  rc_Mode :: string

record bootstrapSpec =
  bs_SQL :: string
  bs_Image :: string

record healthSpec =
  hs_MaxReplicationLag :: string

record litestreamReplicaSpec =
  sp_DatabaseName :: string
  sp_DatabasePath :: string
  sp_TargetDeployment :: string
  sp_TargetStatefulSet :: string
  sp_Container :: string
  sp_Image :: string
  sp_Backup :: backupSpec
  sp_Recovery :: recoverySpec
  sp_Health :: healthSpec
  sp_Bootstrap :: bootstrapSpec
  sp_RunAsUser :: "int option"
  sp_RunAsGroup :: "int option"

definition AnnotationInject :: string where [const_defs]: "AnnotationInject = ''litestream.io/inject''"
definition AnnotationConfig :: string where [const_defs]: "AnnotationConfig = ''litestream.io/config''"
definition AnnotationPause :: string where [const_defs]: "AnnotationPause = ''litestream.io/pause''"

definition ConditionTargetReady :: string where [const_defs]: "ConditionTargetReady = ''TargetReady''"
definition ConditionSidecarReady :: string where [const_defs]: "ConditionSidecarReady = ''SidecarReady''"
definition ConditionReplicationHealthy :: string where
  [const_defs]: "ConditionReplicationHealthy = ''ReplicationHealthy''"
definition ConditionBootstrapApplied :: string where
  [const_defs]: "ConditionBootstrapApplied = ''BootstrapApplied''"
definition ConditionReplicationPaused :: string where
  [const_defs]: "ConditionReplicationPaused = ''ReplicationPaused''"
definition ConditionReplicaCountExceeded :: string where
  [const_defs]: "ConditionReplicaCountExceeded = ''ReplicaCountExceeded''"
definition ConditionUnsafeRolloutStrategy :: string where
  [const_defs]: "ConditionUnsafeRolloutStrategy = ''UnsafeRolloutStrategy''"
definition ConditionReady :: string where [const_defs]: "ConditionReady = ''Ready''"

definition PhaseConfiguring :: string where [const_defs]: "PhaseConfiguring = ''Configuring''"
definition PhasePending :: string where [const_defs]: "PhasePending = ''Pending''"
definition PhaseReady :: string where [const_defs]: "PhaseReady = ''Ready''"
definition PhasePaused :: string where [const_defs]: "PhasePaused = ''Paused''"
definition PhaseError :: string where [const_defs]: "PhaseError = ''Error''"

lemma replica_phase_distinct [simp]:
  "PhaseReady \<noteq> PhasePending" "PhaseReady \<noteq> PhasePaused" "PhaseReady \<noteq> PhaseError"
  "PhasePending \<noteq> PhaseReady" "PhasePaused \<noteq> PhaseReady" "PhaseError \<noteq> PhaseReady"
  "PhasePending \<noteq> PhasePaused" "PhasePending \<noteq> PhaseError" "PhasePaused \<noteq> PhaseError"
  "PhasePaused \<noteq> PhasePending" "PhaseError \<noteq> PhasePending" "PhaseError \<noteq> PhasePaused"
  by (simp_all add: const_defs)

lemma replica_condition_distinct [simp]:
  "ConditionReady \<noteq> ConditionTargetReady" "ConditionReady \<noteq> ConditionReplicaCountExceeded"
  "ConditionReady \<noteq> ConditionUnsafeRolloutStrategy" "ConditionReady \<noteq> ConditionReplicationPaused"
  "ConditionReady \<noteq> ConditionSidecarReady" "ConditionReady \<noteq> ConditionReplicationHealthy"
  "ConditionReady \<noteq> ConditionBootstrapApplied"
  "ConditionReplicationHealthy \<noteq> ConditionReady" "ConditionReplicationHealthy \<noteq> ConditionSidecarReady"
  "ConditionReplicationPaused \<noteq> ConditionReady"
  "ConditionReplicationPaused \<noteq> ConditionSidecarReady"
  "ConditionReplicationPaused \<noteq> ConditionReplicationHealthy"
  by (simp_all add: const_defs)

record litestreamReplicaStatus =
  rst_Phase :: string
  rst_Ready :: bool
  rst_BackupHealthy :: bool
  rst_LastSuccessfulReplicationTime :: "instant option"
  rst_ReplicationLag :: string
  rst_InjectedSpecHash :: string
  rst_ObservedGeneration :: int
  rst_Conditions :: "condition list"

record litestreamReplica =
  db_Meta :: objectMeta
  db_Spec :: litestreamReplicaSpec
  db_Status :: litestreamReplicaStatus

abbreviation db_Name :: "litestreamReplica \<Rightarrow> string" where
  "db_Name db \<equiv> om_Name (db_Meta db)"
abbreviation db_Namespace :: "litestreamReplica \<Rightarrow> string" where
  "db_Namespace db \<equiv> om_Namespace (db_Meta db)"
abbreviation db_Annotations :: "litestreamReplica \<Rightarrow> strmap" where
  "db_Annotations db \<equiv> om_Annotations (db_Meta db)"
abbreviation db_Backup :: "litestreamReplica \<Rightarrow> backupSpec" where
  "db_Backup db \<equiv> sp_Backup (db_Spec db)"
abbreviation db_S3 :: "litestreamReplica \<Rightarrow> s3Destination option" where
  "db_S3 db \<equiv> bd_S3 (bk_Destination (db_Backup db))"

section \<open>LitestreamRestore (api/v1/litestreamrestore\_types.go)\<close>

definition RestoreModeInPlace :: string where [const_defs]: "RestoreModeInPlace = ''InPlace''"
definition RestoreModeToPVC :: string where [const_defs]: "RestoreModeToPVC = ''ToPVC''"

lemma restore_mode_distinct [simp]:
  "RestoreModeInPlace \<noteq> RestoreModeToPVC" "RestoreModeToPVC \<noteq> RestoreModeInPlace"
  by (simp_all add: const_defs)

record restoreSourceRef =
  sr_Name :: string

record restoreTarget =
  rt_PVC :: string
  rt_Path :: string

definition RestorePhasePending :: string where [const_defs]: "RestorePhasePending = ''Pending''"
definition RestorePhaseAcquiringLock :: string where
  [const_defs]: "RestorePhaseAcquiringLock = ''AcquiringLock''"
definition RestorePhaseFencing :: string where [const_defs]: "RestorePhaseFencing = ''Fencing''"
definition RestorePhaseRestoring :: string where [const_defs]: "RestorePhaseRestoring = ''Restoring''"
definition RestorePhaseValidating :: string where
  [const_defs]: "RestorePhaseValidating = ''Validating''"
definition RestorePhaseResuming :: string where [const_defs]: "RestorePhaseResuming = ''Resuming''"
definition RestorePhaseCompleted :: string where [const_defs]: "RestorePhaseCompleted = ''Completed''"
definition RestorePhaseFailed :: string where [const_defs]: "RestorePhaseFailed = ''Failed''"

lemma restore_phases_distinct:
  "distinct [[], RestorePhasePending, RestorePhaseAcquiringLock, RestorePhaseFencing,
     RestorePhaseRestoring, RestorePhaseValidating, RestorePhaseResuming,
     RestorePhaseCompleted, RestorePhaseFailed]"
  by (simp add: const_defs)

lemma restore_phase_neq [simp]:
  "RestorePhasePending \<noteq> []" "RestorePhaseAcquiringLock \<noteq> []" "RestorePhaseFencing \<noteq> []"
  "RestorePhaseRestoring \<noteq> []" "RestorePhaseValidating \<noteq> []" "RestorePhaseResuming \<noteq> []"
  "RestorePhaseCompleted \<noteq> []" "RestorePhaseFailed \<noteq> []"
  "RestorePhasePending \<noteq> RestorePhaseAcquiringLock" "RestorePhasePending \<noteq> RestorePhaseFencing"
  "RestorePhasePending \<noteq> RestorePhaseRestoring" "RestorePhasePending \<noteq> RestorePhaseValidating"
  "RestorePhasePending \<noteq> RestorePhaseResuming" "RestorePhasePending \<noteq> RestorePhaseCompleted"
  "RestorePhasePending \<noteq> RestorePhaseFailed"
  "RestorePhaseAcquiringLock \<noteq> RestorePhasePending" "RestorePhaseAcquiringLock \<noteq> RestorePhaseFencing"
  "RestorePhaseAcquiringLock \<noteq> RestorePhaseRestoring"
  "RestorePhaseAcquiringLock \<noteq> RestorePhaseValidating"
  "RestorePhaseAcquiringLock \<noteq> RestorePhaseResuming"
  "RestorePhaseAcquiringLock \<noteq> RestorePhaseCompleted" "RestorePhaseAcquiringLock \<noteq> RestorePhaseFailed"
  "RestorePhaseFencing \<noteq> RestorePhasePending" "RestorePhaseFencing \<noteq> RestorePhaseAcquiringLock"
  "RestorePhaseFencing \<noteq> RestorePhaseRestoring" "RestorePhaseFencing \<noteq> RestorePhaseValidating"
  "RestorePhaseFencing \<noteq> RestorePhaseResuming" "RestorePhaseFencing \<noteq> RestorePhaseCompleted"
  "RestorePhaseFencing \<noteq> RestorePhaseFailed"
  "RestorePhaseRestoring \<noteq> RestorePhasePending" "RestorePhaseRestoring \<noteq> RestorePhaseAcquiringLock"
  "RestorePhaseRestoring \<noteq> RestorePhaseFencing" "RestorePhaseRestoring \<noteq> RestorePhaseValidating"
  "RestorePhaseRestoring \<noteq> RestorePhaseResuming" "RestorePhaseRestoring \<noteq> RestorePhaseCompleted"
  "RestorePhaseRestoring \<noteq> RestorePhaseFailed"
  "RestorePhaseValidating \<noteq> RestorePhasePending" "RestorePhaseValidating \<noteq> RestorePhaseAcquiringLock"
  "RestorePhaseValidating \<noteq> RestorePhaseFencing" "RestorePhaseValidating \<noteq> RestorePhaseRestoring"
  "RestorePhaseValidating \<noteq> RestorePhaseResuming" "RestorePhaseValidating \<noteq> RestorePhaseCompleted"
  "RestorePhaseValidating \<noteq> RestorePhaseFailed"
  "RestorePhaseResuming \<noteq> RestorePhasePending" "RestorePhaseResuming \<noteq> RestorePhaseAcquiringLock"
  "RestorePhaseResuming \<noteq> RestorePhaseFencing" "RestorePhaseResuming \<noteq> RestorePhaseRestoring"
  "RestorePhaseResuming \<noteq> RestorePhaseValidating" "RestorePhaseResuming \<noteq> RestorePhaseCompleted"
  "RestorePhaseResuming \<noteq> RestorePhaseFailed"
  "RestorePhaseCompleted \<noteq> RestorePhasePending" "RestorePhaseCompleted \<noteq> RestorePhaseAcquiringLock"
  "RestorePhaseCompleted \<noteq> RestorePhaseFencing" "RestorePhaseCompleted \<noteq> RestorePhaseRestoring"
  "RestorePhaseCompleted \<noteq> RestorePhaseValidating" "RestorePhaseCompleted \<noteq> RestorePhaseResuming"
  "RestorePhaseCompleted \<noteq> RestorePhaseFailed"
  "RestorePhaseFailed \<noteq> RestorePhasePending" "RestorePhaseFailed \<noteq> RestorePhaseAcquiringLock"
  "RestorePhaseFailed \<noteq> RestorePhaseFencing" "RestorePhaseFailed \<noteq> RestorePhaseRestoring"
  "RestorePhaseFailed \<noteq> RestorePhaseValidating" "RestorePhaseFailed \<noteq> RestorePhaseResuming"
  "RestorePhaseFailed \<noteq> RestorePhaseCompleted"
  using restore_phases_distinct by auto

definition RestoreConditionLocked :: string where [const_defs]: "RestoreConditionLocked = ''Locked''"
definition RestoreConditionApplicationFenced :: string where
  [const_defs]: "RestoreConditionApplicationFenced = ''ApplicationFenced''"
definition RestoreConditionRestoreSucceeded :: string where
  [const_defs]: "RestoreConditionRestoreSucceeded = ''RestoreSucceeded''"
definition RestoreConditionApplicationResumed :: string where
  [const_defs]: "RestoreConditionApplicationResumed = ''ApplicationResumed''"

record litestreamRestoreSpec =
  rsp_SourceRef :: restoreSourceRef
  rsp_Mode :: string
  rsp_Target :: "restoreTarget option"
  rsp_Timestamp :: string
  rsp_Image :: string
  rsp_Force :: bool
  rsp_RunAsUser :: "int option"
  rsp_RunAsGroup :: "int option"

record litestreamRestoreStatus =
  st_Phase :: string
  st_JobName :: string
  st_OriginalReplicas :: "int option"
  st_StartTime :: "instant option"
  st_CompletionTime :: "instant option"
  st_Message :: string
  st_ResolvedPVC :: string
  st_ResolvedPath :: string
  st_ResolvedSubPath :: string
  st_Conditions :: "condition list"

record litestreamRestore =
  lr_Meta :: objectMeta
  lr_Spec :: litestreamRestoreSpec
  lr_Status :: litestreamRestoreStatus

abbreviation lr_Name :: "litestreamRestore \<Rightarrow> string" where
  "lr_Name r \<equiv> om_Name (lr_Meta r)"
abbreviation lr_Namespace :: "litestreamRestore \<Rightarrow> string" where
  "lr_Namespace r \<equiv> om_Namespace (lr_Meta r)"
abbreviation lr_Mode :: "litestreamRestore \<Rightarrow> string" where
  "lr_Mode r \<equiv> rsp_Mode (lr_Spec r)"
abbreviation lr_Source :: "litestreamRestore \<Rightarrow> string" where
  "lr_Source r \<equiv> sr_Name (rsp_SourceRef (lr_Spec r))"
abbreviation lr_Phase :: "litestreamRestore \<Rightarrow> string" where
  "lr_Phase r \<equiv> st_Phase (lr_Status r)"

section \<open>Pods and their parts\<close>

record volumeMount =
  vm_Name :: string
  vm_MountPath :: string
  vm_SubPath :: string
  vm_ReadOnly :: bool

text \<open>
  Environment variables carry a literal value or a reference to a key of a Secret. The volume
  sources that matter to the operator are claims (by claim name) and ConfigMaps (by name).
\<close>

record secretKeySelector =
  sk_Name :: string
  sk_Key :: string

record envVar =
  ev_Name :: string
  ev_Value :: string
  ev_SecretKeyRef :: "secretKeySelector option"

record containerPort =
  cp_Name :: string
  cp_ContainerPort :: int
  cp_Protocol :: string

record securityContext =
  sc_RunAsUser :: "int option"
  sc_RunAsGroup :: "int option"

record container =
  ct_Name :: string
  ct_Image :: string
  ct_Command :: "string list"
  ct_Args :: "string list"
  ct_Ports :: "containerPort list"
  ct_Env :: "envVar list"
  ct_Resources :: resourceRequirements
  ct_VolumeMounts :: "volumeMount list"
  ct_SecurityContext :: "securityContext option"

record volume =
  vol_Name :: string
  vol_ClaimName :: "string option"
  vol_ConfigMap :: "string option"

record podSpec =
  ps_Volumes :: "volume list"
  ps_InitContainers :: "container list"
  ps_Containers :: "container list"
  ps_RestartPolicy :: string
  ps_SecurityContext :: "securityContext option"

record containerStatus =
  cs_Name :: string
  cs_Running :: bool
  cs_WaitingReason :: "string option"
  cs_TerminatedExitCode :: "int option"

record pod =
  pod_Meta :: objectMeta
  pod_Spec :: podSpec
  pod_PodIP :: string
  pod_ContainerStatuses :: "containerStatus list"

text \<open>Zero values of the structs that the code builds by naming only some fields.\<close>

definition noResources :: resourceRequirements where
  "noResources = \<lparr>rr_Limits = Map.empty, rr_Requests = Map.empty\<rparr>"

definition emptyContainer :: container where
  "emptyContainer = \<lparr>ct_Name = [], ct_Image = [], ct_Command = [], ct_Args = [], ct_Ports = [],
     ct_Env = [], ct_Resources = noResources, ct_VolumeMounts = [], ct_SecurityContext = None\<rparr>"

definition emptyMeta :: objectMeta where
  "emptyMeta = \<lparr>om_Name = [], om_Namespace = [], om_Labels = Map.empty, om_Annotations = Map.empty,
     om_Finalizers = [], om_DeletionTimestamp = None, om_Generation = 0, om_OwnerReferences = []\<rparr>"

section \<open>Workloads and the objects the operator creates\<close>

record podTemplateSpec =
  pt_Labels :: strmap
  pt_Annotations :: strmap
  pt_Spec :: podSpec

datatype intOrString = IntVal int | StrVal string

record rollingUpdateDeployment =
  ru_MaxSurge :: "intOrString option"

record deploymentStrategy =
  ds_Type :: string
  ds_RollingUpdate :: "rollingUpdateDeployment option"

record deployment =
  dp_Meta :: objectMeta
  dp_Replicas :: "int option"
  dp_Selector :: "strmap option"
  dp_Template :: podTemplateSpec
  dp_Strategy :: deploymentStrategy
  dp_StatusReplicas :: int
  dp_StatusReadyReplicas :: int

record statefulSet =
  ss_Meta :: objectMeta
  ss_Replicas :: "int option"
  ss_Selector :: "strmap option"
  ss_Template :: podTemplateSpec
  ss_StatusReplicas :: int
  ss_StatusReadyReplicas :: int

record configMap =
  cm_Meta :: objectMeta
  cm_Data :: strmap

record jobCondition =
  jc_Type :: string
  jc_Status :: string
  jc_Message :: string

record job =
  jb_Meta :: objectMeta
  jb_BackoffLimit :: "int option"
  jb_Template :: podTemplateSpec
  jb_Conditions :: "jobCondition list"

record lease =
  ls_Meta :: objectMeta
  ls_HolderIdentity :: "string option"
  ls_AcquireTime :: "instant option"
  ls_LeaseDurationSeconds :: "int option"

end
