(* ===== verification/Go_Floats.thy ===== *)
theory Go_Floats
  imports Main
begin

text \<open>
  The part of Go's \<open>float64\<close> that the operator computes with, IEEE 754 binary64 with rounding to
  nearest, ties to even: the conversions from and to \<open>int64\<close>, subtraction and multiplication.
  A finite value is a significand times a power of two. Each operation is exact on such values and
  then rounds once. The two zeros are one value here: nothing below tells them apart.
\<close>

section \<open>Values and rounding\<close>

datatype float64 = Finite int int | Infinite bool | NotANumber

fun bitLength :: "nat \<Rightarrow> nat" where
  "bitLength n = (if n = 0 then 0 else Suc (bitLength (n div 2)))"

declare bitLength.simps [simp del]

text \<open>The quotient by a power of two, to nearest, ties to even.\<close>

definition roundShift :: "nat \<Rightarrow> nat \<Rightarrow> nat" where
  "roundShift a s =
     (let q = a div 2 ^ s; r = a mod 2 ^ s in
      if 2 * r > 2 ^ s \<or> 2 * r = 2 ^ s \<and> odd q then q + 1 else q)"

text \<open>
  \<open>m * 2 ^ e\<close> as a \<open>float64\<close>: at most 53 bits, no exponent below \<open>-1074\<close>, infinite from \<open>2 ^ 1024\<close> on.
\<close>

definition roundFloat :: "int \<Rightarrow> int \<Rightarrow> float64" where
  "roundFloat m e =
     (let a = nat \<bar>m\<bar>;
          s = nat (max 0 (max (int (bitLength a) - 53) (- 1074 - e)));
          q = roundShift a s
      in if q \<noteq> 0 \<and> int (bitLength q) + (e + int s) > 1024 then Infinite (m < 0)
         else Finite (sgn m * int q) (e + int s))"

section \<open>Arithmetic\<close>

text \<open>A common exponent for an exact sum or difference.\<close>

definition alignTo :: "int \<Rightarrow> int \<Rightarrow> int \<Rightarrow> int" where
  "alignTo e' m e = m * 2 ^ nat (e - e')"

fun subFloat :: "float64 \<Rightarrow> float64 \<Rightarrow> float64" where
  "subFloat (Finite m e) (Finite n f) =
     roundFloat (alignTo (min e f) m e - alignTo (min e f) n f) (min e f)"
| "subFloat (Infinite s) (Finite n f) = Infinite s"
| "subFloat (Finite m e) (Infinite t) = Infinite (\<not> t)"
| "subFloat (Infinite s) (Infinite t) = (if s = t then NotANumber else Infinite s)"
| "subFloat NotANumber y = NotANumber"
| "subFloat x NotANumber = NotANumber"

fun mulFloat :: "float64 \<Rightarrow> float64 \<Rightarrow> float64" where
  "mulFloat (Finite m e) (Finite n f) = roundFloat (m * n) (e + f)"
| "mulFloat (Infinite s) (Finite n f) = (if n = 0 then NotANumber else Infinite (s \<noteq> (n < 0)))"
| "mulFloat (Finite m e) (Infinite t) = (if m = 0 then NotANumber else Infinite ((m < 0) \<noteq> t))"
| "mulFloat (Infinite s) (Infinite t) = Infinite (s \<noteq> t)"
| "mulFloat NotANumber y = NotANumber"
| "mulFloat x NotANumber = NotANumber"

section \<open>Conversions\<close>

definition inInt64 :: "int \<Rightarrow> bool" where
  "inInt64 i \<longleftrightarrow> - (2 ^ 63) \<le> i \<and> i < 2 ^ 63"

definition wrapInt64 :: "int \<Rightarrow> int" where
  "wrapInt64 i = (i + 2 ^ 63) mod 2 ^ 64 - 2 ^ 63"

definition ofInt64 :: "int \<Rightarrow> float64" where
  "ofInt64 i = roundFloat i 0"

text \<open>The integer part, rounded towards zero.\<close>

definition truncFloat :: "int \<Rightarrow> int \<Rightarrow> int" where
  "truncFloat m e = sgn m * (if e \<ge> 0 then \<bar>m\<bar> * 2 ^ nat e else \<bar>m\<bar> div 2 ^ nat (- e))"

text \<open>
  \<open>int64(x)\<close>. Go leaves the result to the implementation when the integer part does not fit (and for
  infinities and NaN): it is the argument \<open>other\<close>, of which nothing is assumed.
\<close>

fun toInt64 :: "(float64 \<Rightarrow> int) \<Rightarrow> float64 \<Rightarrow> int" where
  "toInt64 other (Finite m e) =
     (if inInt64 (truncFloat m e) then truncFloat m e else wrapInt64 (other (Finite m e)))"
| "toInt64 other x = wrapInt64 (other x)"

section \<open>Laws\<close>

lemma wrapInt64_in: "inInt64 (wrapInt64 i)"
proof -
  have "0 \<le> (i + 2 ^ 63) mod 2 ^ 64" "(i + 2 ^ 63) mod 2 ^ 64 < (2 ^ 64 :: int)"
    by (rule pos_mod_sign pos_mod_bound; simp)+
  then show ?thesis by (simp add: inInt64_def wrapInt64_def)
qed

lemma wrapInt64_id: "inInt64 i \<Longrightarrow> wrapInt64 i = i"
  by (simp add: inInt64_def wrapInt64_def)

lemma toInt64_in: "inInt64 (toInt64 other x)"
  by (cases x) (simp_all add: wrapInt64_in)

lemma bitLength_less: "n < 2 ^ bitLength n"
proof (induction n rule: bitLength.induct)
  case (1 n)
  then show ?case by (cases "n = 0") (auto simp: bitLength.simps [of n])
qed

lemma bitLength_le: "n < 2 ^ k \<Longrightarrow> bitLength n \<le> k"
proof (induction k arbitrary: n)
  case (Suc k)
  then have "n div 2 < 2 ^ k" by simp
  from Suc.IH [OF this] show ?case by (simp add: bitLength.simps [of n])
qed (simp add: bitLength.simps)

text \<open>A value with at most 53 bits and an exponent in range is not rounded.\<close>

lemma roundFloat_exact:
  assumes "\<bar>m\<bar> < 2 ^ 53" "- 1074 \<le> e" "e \<le> 971"
  shows "roundFloat m e = Finite m e"
proof -
  have "nat \<bar>m\<bar> < 2 ^ 53" using assms(1) by (simp add: nat_less_iff)
  then have bits: "bitLength (nat \<bar>m\<bar>) \<le> 53" by (rule bitLength_le)
  then show ?thesis
    using assms(2,3) by (simp add: roundFloat_def Let_def roundShift_def sgn_mult_abs)
qed

lemma ofInt64_exact: "\<bar>i\<bar> < 2 ^ 53 \<Longrightarrow> ofInt64 i = Finite i 0"
  by (simp add: ofInt64_def roundFloat_exact)

end
