(* ===== verification/Kube.thy ===== *)
theory Kube
  imports Api_Types Go_Floats
begin

text \<open>
  The boundary of the program: what it calls and does not define.

  \<open>'w kube\<close> is the parameter that stands for the cluster and for the libraries of Kubernetes. Its
  first part holds the effects (the typed client, the clientset used for pod logs, the event
  recorder, the clock, the metrics endpoint), each a function of the unknown world \<open>'w\<close>. Its
  second part holds the pure helpers of \<open>controllerutil\<close>, \<open>meta\<close> and of the number and digest
  parsers. Nothing is assumed about any of them here; the documented laws some properties rely on
  are the predicates at the end of this theory, and they appear as hypotheses where they are used.

  \<open>action\<close> is the entry of the trace for each effect, with its arguments and its response. A patch
  carries the object it was computed from (\<open>client.MergeFrom\<close>) and the modified object: the API
  server applies the difference of the two.
\<close>

section \<open>Errors\<close>

text \<open>
  An error of the API server has a reason; \<open>fmt.Errorf\<close> with \<open>%w\<close> wraps one under a prefix, and
  the classification functions look through the wrapping. \<open>Panicked\<close> is a nil pointer
  dereference, which controller-runtime reports as the error of the reconciliation.
\<close>

datatype reason = NotFound | AlreadyExists | OtherReason

datatype goerr = ApiError reason string | Errorf string | Wrapped string goerr | Panicked

fun errText :: "goerr \<Rightarrow> string" where
  "errText (ApiError r t) = t"
| "errText (Errorf t) = t"
| "errText (Wrapped p e) = p @ '': '' @ errText e"
| "errText Panicked = ''panic''"

fun hasReason :: "reason \<Rightarrow> goerr \<Rightarrow> bool" where
  "hasReason r (ApiError r' t) = (r = r')"
| "hasReason r (Wrapped p e) = hasReason r e"
| "hasReason r _ = False"

abbreviation IsNotFound :: "goerr \<Rightarrow> bool" where "IsNotFound \<equiv> hasReason NotFound"
abbreviation IsAlreadyExists :: "goerr \<Rightarrow> bool" where "IsAlreadyExists \<equiv> hasReason AlreadyExists"

section \<open>Results, events and the trace\<close>

record result =
  rq_Requeue :: bool
  rq_RequeueAfter :: int

definition emptyResult :: result where
  "emptyResult = \<lparr>rq_Requeue = False, rq_RequeueAfter = 0\<rparr>"

definition requeue :: result where
  "requeue = \<lparr>rq_Requeue = True, rq_RequeueAfter = 0\<rparr>"

definition requeueAfter :: "int \<Rightarrow> result" where
  "requeueAfter d = \<lparr>rq_Requeue = False, rq_RequeueAfter = d\<rparr>"

text \<open>One second, in the nanoseconds of Go's \<open>time.Duration\<close>.\<close>

definition second :: int where
  "second = 1000000000"

definition EventTypeNormal :: string where [const_defs]: "EventTypeNormal = ''Normal''"
definition EventTypeWarning :: string where [const_defs]: "EventTypeWarning = ''Warning''"

record event =
  e_Object :: nsname
  e_Type :: string
  e_Reason :: string
  e_Message :: string

datatype action =
    GetRestore nsname "goerr + litestreamRestore"
  | UpdateRestore litestreamRestore "goerr + litestreamRestore"
  | PatchRestoreStatus litestreamRestore litestreamRestore "goerr + litestreamRestore"
  | GetReplica nsname "goerr + litestreamReplica"
  | UpdateReplica litestreamReplica "goerr + litestreamReplica"
  | PatchReplica litestreamReplica litestreamReplica "goerr + litestreamReplica"
  | PatchReplicaStatus litestreamReplica litestreamReplica "goerr + litestreamReplica"
  | GetDeployment nsname "goerr + deployment"
  | PatchDeployment deployment deployment "goerr + deployment"
  | GetStatefulSet nsname "goerr + statefulSet"
  | PatchStatefulSet statefulSet statefulSet "goerr + statefulSet"
  | GetConfigMap nsname "goerr + configMap"
  | CreateOrUpdateConfigMap configMap "configMap \<Rightarrow> goerr + configMap" "goerr option"
  | GetJob nsname "goerr + job"
  | CreateJob job "goerr option"
  | GetLease nsname "goerr + lease"
  | CreateLease lease "goerr option"
  | DeleteLease lease "goerr option"
  | ListPods string strmap "goerr + pod list"
  | ListReplicas string "goerr + litestreamReplica list"
  | ListPodsBySelector string string "goerr + pod list"
  | StreamLogs string string bool "goerr + (goerr + string)"
  | HttpGet string "goerr + string"
  | RecordEvent event

section \<open>The client parameter\<close>

record lib =
  l_ContainsFinalizer :: "objectMeta \<Rightarrow> string \<Rightarrow> bool"
  l_AddFinalizer :: "objectMeta \<Rightarrow> string \<Rightarrow> objectMeta"
  l_RemoveFinalizer :: "objectMeta \<Rightarrow> string \<Rightarrow> objectMeta"
  l_SetControllerReference :: "objectMeta \<Rightarrow> objectMeta \<Rightarrow> goerr + objectMeta"
  l_SetStatusCondition :: "condition list \<Rightarrow> condition \<Rightarrow> condition list"
  l_RemoveStatusCondition :: "condition list \<Rightarrow> string \<Rightarrow> condition list"
  l_Sum256 :: "string \<Rightarrow> string"
  l_ParseDuration :: "string \<Rightarrow> int option"
  l_DurationString :: "int \<Rightarrow> string"
  l_ParseFloat :: "string \<Rightarrow> float64 option"
  l_Int64OutOfRange :: "float64 \<Rightarrow> int"

record 'w kube =
  k_GetRestore :: "nsname \<Rightarrow> 'w \<Rightarrow> (goerr + litestreamRestore) \<times> 'w"
  k_UpdateRestore :: "litestreamRestore \<Rightarrow> 'w \<Rightarrow> (goerr + litestreamRestore) \<times> 'w"
  k_PatchRestoreStatus ::
    "litestreamRestore \<Rightarrow> litestreamRestore \<Rightarrow> 'w \<Rightarrow> (goerr + litestreamRestore) \<times> 'w"
  k_GetReplica :: "nsname \<Rightarrow> 'w \<Rightarrow> (goerr + litestreamReplica) \<times> 'w"
  k_UpdateReplica :: "litestreamReplica \<Rightarrow> 'w \<Rightarrow> (goerr + litestreamReplica) \<times> 'w"
  k_PatchReplica ::
    "litestreamReplica \<Rightarrow> litestreamReplica \<Rightarrow> 'w \<Rightarrow> (goerr + litestreamReplica) \<times> 'w"
  k_PatchReplicaStatus ::
    "litestreamReplica \<Rightarrow> litestreamReplica \<Rightarrow> 'w \<Rightarrow> (goerr + litestreamReplica) \<times> 'w"
  k_GetDeployment :: "nsname \<Rightarrow> 'w \<Rightarrow> (goerr + deployment) \<times> 'w"
  k_PatchDeployment :: "deployment \<Rightarrow> deployment \<Rightarrow> 'w \<Rightarrow> (goerr + deployment) \<times> 'w"
  k_GetStatefulSet :: "nsname \<Rightarrow> 'w \<Rightarrow> (goerr + statefulSet) \<times> 'w"
  k_PatchStatefulSet :: "statefulSet \<Rightarrow> statefulSet \<Rightarrow> 'w \<Rightarrow> (goerr + statefulSet) \<times> 'w"
  k_GetConfigMap :: "nsname \<Rightarrow> 'w \<Rightarrow> (goerr + configMap) \<times> 'w"
  k_CreateOrUpdateConfigMap ::
    "configMap \<Rightarrow> (configMap \<Rightarrow> goerr + configMap) \<Rightarrow> 'w \<Rightarrow> goerr option \<times> 'w"
  k_GetJob :: "nsname \<Rightarrow> 'w \<Rightarrow> (goerr + job) \<times> 'w"
  k_CreateJob :: "job \<Rightarrow> 'w \<Rightarrow> goerr option \<times> 'w"
  k_GetLease :: "nsname \<Rightarrow> 'w \<Rightarrow> (goerr + lease) \<times> 'w"
  k_CreateLease :: "lease \<Rightarrow> 'w \<Rightarrow> goerr option \<times> 'w"
  k_DeleteLease :: "lease \<Rightarrow> 'w \<Rightarrow> goerr option \<times> 'w"
  k_ListPods :: "string \<Rightarrow> strmap \<Rightarrow> 'w \<Rightarrow> (goerr + pod list) \<times> 'w"
  k_ListReplicas :: "string \<Rightarrow> 'w \<Rightarrow> (goerr + litestreamReplica list) \<times> 'w"
  k_HasKubeClient :: bool
  k_ListPodsBySelector :: "string \<Rightarrow> string \<Rightarrow> 'w \<Rightarrow> (goerr + pod list) \<times> 'w"
  k_StreamLogs :: "string \<Rightarrow> string \<Rightarrow> bool \<Rightarrow> 'w \<Rightarrow> (goerr + (goerr + string)) \<times> 'w"
  k_HttpGet :: "string \<Rightarrow> 'w \<Rightarrow> (goerr + string) \<times> 'w"
  k_RecordEvent :: "event \<Rightarrow> 'w \<Rightarrow> unit \<times> 'w"
  k_Now :: "'w \<Rightarrow> instant \<times> 'w"
  k_Lib :: lib

type_synonym ('w, 'a) handler = "('w, action, 'a) prog"

section \<open>The calls as programs\<close>

abbreviation getRestore where
  "getRestore K n \<equiv> call (k_GetRestore K n) (GetRestore n)"
abbreviation updateRestore where
  "updateRestore K r \<equiv> call (k_UpdateRestore K r) (UpdateRestore r)"
abbreviation patchRestoreStatus where
  "patchRestoreStatus K b r \<equiv> call (k_PatchRestoreStatus K b r) (PatchRestoreStatus b r)"
abbreviation getReplica where
  "getReplica K n \<equiv> call (k_GetReplica K n) (GetReplica n)"
abbreviation updateReplica where
  "updateReplica K d \<equiv> call (k_UpdateReplica K d) (UpdateReplica d)"
abbreviation patchReplica where
  "patchReplica K b d \<equiv> call (k_PatchReplica K b d) (PatchReplica b d)"
abbreviation patchReplicaStatus where
  "patchReplicaStatus K b d \<equiv> call (k_PatchReplicaStatus K b d) (PatchReplicaStatus b d)"
abbreviation getDeployment where
  "getDeployment K n \<equiv> call (k_GetDeployment K n) (GetDeployment n)"
abbreviation patchDeployment where
  "patchDeployment K b d \<equiv> call (k_PatchDeployment K b d) (PatchDeployment b d)"
abbreviation getStatefulSet where
  "getStatefulSet K n \<equiv> call (k_GetStatefulSet K n) (GetStatefulSet n)"
abbreviation patchStatefulSet where
  "patchStatefulSet K b d \<equiv> call (k_PatchStatefulSet K b d) (PatchStatefulSet b d)"
abbreviation getConfigMap where
  "getConfigMap K n \<equiv> call (k_GetConfigMap K n) (GetConfigMap n)"
abbreviation createOrUpdateConfigMap where
  "createOrUpdateConfigMap K c f \<equiv>
     call (k_CreateOrUpdateConfigMap K c f) (CreateOrUpdateConfigMap c f)"
abbreviation getJob where
  "getJob K n \<equiv> call (k_GetJob K n) (GetJob n)"
abbreviation createJob where
  "createJob K j \<equiv> call (k_CreateJob K j) (CreateJob j)"
abbreviation getLease where
  "getLease K n \<equiv> call (k_GetLease K n) (GetLease n)"
abbreviation createLease where
  "createLease K l \<equiv> call (k_CreateLease K l) (CreateLease l)"
abbreviation deleteLease where
  "deleteLease K l \<equiv> call (k_DeleteLease K l) (DeleteLease l)"
abbreviation listPods where
  "listPods K ns sel \<equiv> call (k_ListPods K ns sel) (ListPods ns sel)"
abbreviation listReplicas where
  "listReplicas K ns \<equiv> call (k_ListReplicas K ns) (ListReplicas ns)"
abbreviation listPodsBySelector where
  "listPodsBySelector K ns sel \<equiv> call (k_ListPodsBySelector K ns sel) (ListPodsBySelector ns sel)"
abbreviation streamLogs where
  "streamLogs K ns p prev \<equiv> call (k_StreamLogs K ns p prev) (StreamLogs ns p prev)"
abbreviation httpGet where
  "httpGet K url \<equiv> call (k_HttpGet K url) (HttpGet url)"
abbreviation recordEvent where
  "recordEvent K e \<equiv> call (k_RecordEvent K e) (\<lambda>_. RecordEvent e)"
abbreviation now :: "'w kube \<Rightarrow> ('w, instant) handler" where
  "now K \<equiv> silent (k_Now K)"

text \<open>The events of the two controllers: about a restore or about a replica.\<close>

definition restoreEvent :: "litestreamRestore \<Rightarrow> string \<Rightarrow> string \<Rightarrow> string \<Rightarrow> event" where
  "restoreEvent r ty rs msg =
     \<lparr>e_Object = (lr_Namespace r, lr_Name r), e_Type = ty, e_Reason = rs, e_Message = msg\<rparr>"

definition replicaEvent :: "litestreamReplica \<Rightarrow> string \<Rightarrow> string \<Rightarrow> string \<Rightarrow> event" where
  "replicaEvent d ty rs msg =
     \<lparr>e_Object = (db_Namespace d, db_Name d), e_Type = ty, e_Reason = rs, e_Message = msg\<rparr>"

section \<open>Events in a trace\<close>

fun tells :: "string \<Rightarrow> action \<Rightarrow> bool" where
  "tells rs (RecordEvent e) \<longleftrightarrow> e_Reason e = rs"
| "tells rs _ \<longleftrightarrow> False"

definition announces :: "string \<Rightarrow> action list \<Rightarrow> bool" where
  "announces rs tr = list_ex (tells rs) tr"

lemma announces_simps [simp]:
  "\<not> announces rs []" "announces rs (xs @ ys) \<longleftrightarrow> announces rs xs \<or> announces rs ys"
  "announces rs (a # tr) \<longleftrightarrow> tells rs a \<or> announces rs tr"
  by (auto simp: announces_def)

section \<open>Documented laws of the helpers\<close>

text \<open>
  \<open>controllerutil\<close>: \<open>ContainsFinalizer\<close> tests membership; adding and removing change the list of
  finalizers only, and make the finalizer present or absent.
\<close>

definition finalizer_laws :: "lib \<Rightarrow> bool" where
  "finalizer_laws L \<longleftrightarrow>
     (\<forall>m f. l_ContainsFinalizer L m f \<longleftrightarrow> f \<in> set (om_Finalizers m)) \<and>
     (\<forall>m f. \<exists>fs. l_AddFinalizer L m f = m\<lparr>om_Finalizers := fs\<rparr> \<and>
            set fs = insert f (set (om_Finalizers m))) \<and>
     (\<forall>m f. \<exists>fs. l_RemoveFinalizer L m f = m\<lparr>om_Finalizers := fs\<rparr> \<and>
            set fs = set (om_Finalizers m) - {f})"

text \<open>\<open>meta.FindStatusCondition\<close>, used to read conditions in statements.\<close>

definition findCondition :: "condition list \<Rightarrow> string \<Rightarrow> condition option" where
  "findCondition cs t = find (\<lambda>c. cd_Type c = t) cs"

definition conditionStatus :: "condition list \<Rightarrow> string \<Rightarrow> string option" where
  "conditionStatus cs t = map_option cd_Status (findCondition cs t)"

text \<open>
  \<open>meta.SetStatusCondition\<close> updates the condition of the given type to the given one, or appends
  it; the transition time changes only when the status does. \<open>meta.RemoveStatusCondition\<close> removes
  the condition of the given type. Conditions of other types are left alone.
\<close>

definition condition_laws :: "lib \<Rightarrow> bool" where
  "condition_laws L \<longleftrightarrow>
     (\<forall>cs c. \<exists>t. findCondition (l_SetStatusCondition L cs c) (cd_Type c)
        = Some (c\<lparr>cd_LastTransitionTime := t\<rparr>)) \<and>
     (\<forall>cs c ty. ty \<noteq> cd_Type c \<longrightarrow>
        findCondition (l_SetStatusCondition L cs c) ty = findCondition cs ty) \<and>
     (\<forall>cs ty. findCondition (l_RemoveStatusCondition L cs ty) ty = None) \<and>
     (\<forall>cs ty ty'. ty' \<noteq> ty \<longrightarrow>
        findCondition (l_RemoveStatusCondition L cs ty) ty' = findCondition cs ty')"

end
