(* ===== verification/Workload.thy ===== *)
theory Workload
  imports Kube
begin

text \<open>
  \<open>internal/controller/workload.go\<close>: the target workload (a Deployment or a StatefulSet) and the
  operations both reconcilers apply to it. The struct with exactly one non-nil pointer is a
  datatype with one constructor per pointer. The pod-template operations of the two kinds, and of
  the target itself, share one interface, the locale \<open>pod_template\<close>.
\<close>

section \<open>The target and its accessors\<close>

datatype workloadTarget = WDeployment deployment | WStatefulSet statefulSet

text \<open>The judgements split on the kind of the target.\<close>

lemma yields_case_target [yields_intros]:
  "(\<And>d. x = WDeployment d \<Longrightarrow> yields R (f d)) \<Longrightarrow> (\<And>s. x = WStatefulSet s \<Longrightarrow> yields R (g s)) \<Longrightarrow>
   yields R (case x of WDeployment d \<Rightarrow> f d | WStatefulSet s \<Rightarrow> g s)"
  by (simp split: workloadTarget.split)

lemma yields_bind_case_target [yields_intros]:
  "(\<And>d. x = WDeployment d \<Longrightarrow> yields R (State_Monad.bind (f d) m)) \<Longrightarrow>
   (\<And>s. x = WStatefulSet s \<Longrightarrow> yields R (State_Monad.bind (g s) m)) \<Longrightarrow>
   yields R (State_Monad.bind (case x of WDeployment d \<Rightarrow> f d | WStatefulSet s \<Rightarrow> g s) m)"
  by (simp split: workloadTarget.split)

lemma emits_case_target [emits_intros]:
  "(\<And>d. x = WDeployment d \<Longrightarrow> emits P (f d)) \<Longrightarrow> (\<And>s. x = WStatefulSet s \<Longrightarrow> emits P (g s)) \<Longrightarrow>
   emits P (case x of WDeployment d \<Rightarrow> f d | WStatefulSet s \<Rightarrow> g s)"
  by (simp split: workloadTarget.split)

lemma guards_case_target [guards_intros]:
  "(\<And>d. x = WDeployment d \<Longrightarrow> guards G h (f d)) \<Longrightarrow> (\<And>s. x = WStatefulSet s \<Longrightarrow> guards G h (g s)) \<Longrightarrow>
   guards G h (case x of WDeployment d \<Rightarrow> f d | WStatefulSet s \<Rightarrow> g s)"
  by (simp split: workloadTarget.split)

lemma guards_bind_case_target [guards_intros]:
  "(\<And>d. x = WDeployment d \<Longrightarrow> guards G h (State_Monad.bind (f d) m)) \<Longrightarrow>
   (\<And>s. x = WStatefulSet s \<Longrightarrow> guards G h (State_Monad.bind (g s) m)) \<Longrightarrow>
   guards G h (State_Monad.bind (case x of WDeployment d \<Rightarrow> f d | WStatefulSet s \<Rightarrow> g s) m)"
  by (simp split: workloadTarget.split)

fun wt_name :: "workloadTarget \<Rightarrow> string" where
  "wt_name (WDeployment d) = om_Name (dp_Meta d)"
| "wt_name (WStatefulSet s) = om_Name (ss_Meta s)"

fun wt_typeName :: "workloadTarget \<Rightarrow> string" where
  "wt_typeName (WDeployment d) = ''Deployment''"
| "wt_typeName (WStatefulSet s) = ''StatefulSet''"

text \<open>\<open>Spec.Selector\<close> is a pointer, dereferenced without a check: \<open>None\<close> is the nil dereference.\<close>

fun selectorLabels :: "workloadTarget \<Rightarrow> strmap option" where
  "selectorLabels (WDeployment d) = dp_Selector d"
| "selectorLabels (WStatefulSet s) = ss_Selector s"

fun podTemplateAnnotations :: "workloadTarget \<Rightarrow> strmap" where
  "podTemplateAnnotations (WDeployment d) = pt_Annotations (dp_Template d)"
| "podTemplateAnnotations (WStatefulSet s) = pt_Annotations (ss_Template s)"

fun podTemplateLabels :: "workloadTarget \<Rightarrow> strmap" where
  "podTemplateLabels (WDeployment d) = pt_Labels (dp_Template d)"
| "podTemplateLabels (WStatefulSet s) = pt_Labels (ss_Template s)"

fun desiredReplicas :: "workloadTarget \<Rightarrow> int" where
  "desiredReplicas (WDeployment d) = (case dp_Replicas d of Some n \<Rightarrow> n | None \<Rightarrow> 1)"
| "desiredReplicas (WStatefulSet s) = (case ss_Replicas s of Some n \<Rightarrow> n | None \<Rightarrow> 1)"

fun runningReplicas :: "workloadTarget \<Rightarrow> int" where
  "runningReplicas (WDeployment d) = dp_StatusReplicas d"
| "runningReplicas (WStatefulSet s) = ss_StatusReplicas s"

fun readyReplicas :: "workloadTarget \<Rightarrow> int" where
  "readyReplicas (WDeployment d) = dp_StatusReadyReplicas d"
| "readyReplicas (WStatefulSet s) = ss_StatusReadyReplicas s"

text \<open>The pod spec of the template, read by the restore controller.\<close>

fun wt_podSpec :: "workloadTarget \<Rightarrow> podSpec" where
  "wt_podSpec (WDeployment d) = pt_Spec (dp_Template d)"
| "wt_podSpec (WStatefulSet s) = pt_Spec (ss_Template s)"

section \<open>Resolving the target\<close>

definition getTargetWorkload ::
  "'w kube \<Rightarrow> litestreamReplica \<Rightarrow> ('w, goerr + workloadTarget) handler" where
  "getTargetWorkload K db =
     (if sp_TargetStatefulSet (db_Spec db) \<noteq> [] then do {
        r \<leftarrow> getStatefulSet K (db_Namespace db, sp_TargetStatefulSet (db_Spec db));
        case r of
          Inl err \<Rightarrow> ret (Inl (Wrapped (''target StatefulSet '' @
                       fmt_q (sp_TargetStatefulSet (db_Spec db))) err))
        | Inr ss \<Rightarrow> ret (Inr (WStatefulSet ss))
      } else do {
        r \<leftarrow> getDeployment K (db_Namespace db, sp_TargetDeployment (db_Spec db));
        case r of
          Inl err \<Rightarrow> ret (Inl (Wrapped (''target Deployment '' @
                       fmt_q (sp_TargetDeployment (db_Spec db))) err))
        | Inr dep \<Rightarrow> ret (Inr (WDeployment dep))
      })"

definition getTargetWorkloadForRestore ::
  "'w kube \<Rightarrow> litestreamReplica \<Rightarrow> ('w, goerr + workloadTarget) handler" where
  "getTargetWorkloadForRestore K db =
     (if sp_TargetStatefulSet (db_Spec db) \<noteq> [] then do {
        r \<leftarrow> getStatefulSet K (db_Namespace db, sp_TargetStatefulSet (db_Spec db));
        case r of
          Inl err \<Rightarrow> ret (Inl err)
        | Inr ss \<Rightarrow> ret (Inr (WStatefulSet ss))
      } else do {
        r \<leftarrow> getDeployment K (db_Namespace db, sp_TargetDeployment (db_Spec db));
        case r of
          Inl err \<Rightarrow> ret (Inl err)
        | Inr dep \<Rightarrow> ret (Inr (WDeployment dep))
      })"

section \<open>Patching the pod template\<close>

definition injectAnnotation :: string where [const_defs]: "injectAnnotation = AnnotationInject"
definition configAnnotation :: string where [const_defs]: "configAnnotation = AnnotationConfig"
definition pauseAnnotation :: string where [const_defs]: "pauseAnnotation = AnnotationPause"
definition injectEnabled :: string where [const_defs]: "injectEnabled = ''true''"
definition injectionSpecHashAnnotation :: string where
  [const_defs]: "injectionSpecHashAnnotation = ''litestream.io/injection-spec-hash''"

lemma annotation_keys_distinct [simp]:
  "injectAnnotation \<noteq> configAnnotation" "configAnnotation \<noteq> injectAnnotation"
  "injectAnnotation \<noteq> injectionSpecHashAnnotation" "injectionSpecHashAnnotation \<noteq> injectAnnotation"
  "configAnnotation \<noteq> injectionSpecHashAnnotation" "injectionSpecHashAnnotation \<noteq> configAnnotation"
  "injectEnabled \<noteq> []" "[] \<noteq> injectEnabled"
  by (simp_all add: const_defs)

definition addToTemplate :: "strmap \<Rightarrow> strmap \<Rightarrow> podTemplateSpec \<Rightarrow> podTemplateSpec" where
  "addToTemplate as ls t =
     t\<lparr>pt_Annotations := pt_Annotations t ++ as, pt_Labels := pt_Labels t ++ ls\<rparr>"

definition removeFromTemplate :: "podTemplateSpec \<Rightarrow> podTemplateSpec" where
  "removeFromTemplate t =
     t\<lparr>pt_Annotations := (pt_Annotations t)(injectAnnotation := None, configAnnotation := None,
         injectionSpecHashAnnotation := None),
       pt_Labels := (pt_Labels t)(injectAnnotation := None)\<rparr>"

fun mapTemplate :: "(podTemplateSpec \<Rightarrow> podTemplateSpec) \<Rightarrow> workloadTarget \<Rightarrow> workloadTarget" where
  "mapTemplate f (WDeployment d) = WDeployment (d\<lparr>dp_Template := f (dp_Template d)\<rparr>)"
| "mapTemplate f (WStatefulSet s) = WStatefulSet (s\<lparr>ss_Template := f (ss_Template s)\<rparr>)"

text \<open>Sending a modified target: the patch is computed from the copy taken before (\<open>MergeFrom\<close>).\<close>

definition patchTarget ::
  "'w kube \<Rightarrow> (podTemplateSpec \<Rightarrow> podTemplateSpec) \<Rightarrow> workloadTarget \<Rightarrow> ('w, goerr option) handler" where
  "patchTarget K f wt =
     (case wt of
        WDeployment dep \<Rightarrow> do {
          r \<leftarrow> patchDeployment K dep (dep\<lparr>dp_Template := f (dp_Template dep)\<rparr>);
          case r of Inl err \<Rightarrow> ret (Some err) | Inr _ \<Rightarrow> ret None
        }
      | WStatefulSet ss \<Rightarrow> do {
          r \<leftarrow> patchStatefulSet K ss (ss\<lparr>ss_Template := f (ss_Template ss)\<rparr>);
          case r of Inl err \<Rightarrow> ret (Some err) | Inr _ \<Rightarrow> ret None
        })"

definition patchWorkloadPodTemplate ::
  "'w kube \<Rightarrow> workloadTarget \<Rightarrow> strmap \<Rightarrow> strmap \<Rightarrow> ('w, goerr option) handler" where
  "patchWorkloadPodTemplate K wt addAnnotations addLabels =
     patchTarget K (addToTemplate addAnnotations addLabels) wt"

definition removeWorkloadAnnotations ::
  "'w kube \<Rightarrow> workloadTarget \<Rightarrow> ('w, goerr option) handler" where
  "removeWorkloadAnnotations K wt = patchTarget K removeFromTemplate wt"

section \<open>Scaling\<close>

text \<open>
  The patch writes the server's answer back into the target, which the caller then inspects;
  without a change the target is left as it was read.
\<close>

definition scaleWorkload ::
  "'w kube \<Rightarrow> workloadTarget \<Rightarrow> int \<Rightarrow> ('w, goerr + workloadTarget) handler" where
  "scaleWorkload K wt replicas =
     (case wt of
        WDeployment dep \<Rightarrow>
          if dp_Replicas dep = Some replicas then ret (Inr wt)
          else do {
            r \<leftarrow> patchDeployment K dep (dep\<lparr>dp_Replicas := Some replicas\<rparr>);
            case r of Inl err \<Rightarrow> ret (Inl err) | Inr dep' \<Rightarrow> ret (Inr (WDeployment dep'))
          }
      | WStatefulSet ss \<Rightarrow>
          if ss_Replicas ss = Some replicas then ret (Inr wt)
          else do {
            r \<leftarrow> patchStatefulSet K ss (ss\<lparr>ss_Replicas := Some replicas\<rparr>);
            case r of Inl err \<Rightarrow> ret (Inl err) | Inr ss' \<Rightarrow> ret (Inr (WStatefulSet ss'))
          })"

section \<open>The interface of pod templates\<close>

text \<open>
  What the replica controller relies on: the annotations and labels it adds are the ones read
  back, removal takes away exactly its own keys, and neither touches the replica count.
\<close>

locale pod_template =
  fixes annots :: "'o \<Rightarrow> strmap" and labels :: "'o \<Rightarrow> strmap" and replicas :: "'o \<Rightarrow> int"
    and add :: "strmap \<Rightarrow> strmap \<Rightarrow> 'o \<Rightarrow> 'o" and remove :: "'o \<Rightarrow> 'o"
  assumes annots_add: "annots (add as ls x) = annots x ++ as"
    and labels_add: "labels (add as ls x) = labels x ++ ls"
    and annots_remove: "annots (remove x) = (annots x)(injectAnnotation := None,
          configAnnotation := None, injectionSpecHashAnnotation := None)"
    and labels_remove: "labels (remove x) = (labels x)(injectAnnotation := None)"
    and replicas_add: "replicas (add as ls x) = replicas x"
    and replicas_remove: "replicas (remove x) = replicas x"
begin

definition instrumented :: "string \<Rightarrow> string \<Rightarrow> 'o \<Rightarrow> bool" where
  "instrumented ref hash x \<longleftrightarrow>
     lookup (annots x) injectAnnotation = injectEnabled \<and>
     lookup (annots x) configAnnotation = ref \<and>
     lookup (annots x) injectionSpecHashAnnotation = hash \<and>
     lookup (labels x) injectAnnotation = injectEnabled"

abbreviation instrument :: "string \<Rightarrow> string \<Rightarrow> 'o \<Rightarrow> 'o" where
  "instrument ref hash \<equiv>
     add [injectAnnotation \<mapsto> injectEnabled, configAnnotation \<mapsto> ref,
          injectionSpecHashAnnotation \<mapsto> hash]
         [injectAnnotation \<mapsto> injectEnabled]"

lemma instrumented_instrument: "instrumented ref hash (instrument ref hash x)"
  by (simp add: instrumented_def annots_add labels_add lookup_map_add)

lemma instrumented_unique:
  "instrumented ref hash x \<Longrightarrow> instrumented ref' hash' x \<Longrightarrow> ref = ref' \<and> hash = hash'"
  by (auto simp: instrumented_def)

lemma not_instrumented_remove: "\<not> instrumented ref hash (remove x)"
  by (simp add: instrumented_def annots_remove labels_remove)

lemma other_annotations_kept:
  "k \<notin> {injectAnnotation, configAnnotation, injectionSpecHashAnnotation} \<Longrightarrow>
     annots (remove (instrument ref hash x)) k = annots x k"
  by (auto simp: annots_add annots_remove map_add_def)

lemma other_labels_kept:
  "k \<noteq> injectAnnotation \<Longrightarrow> labels (remove (instrument ref hash x)) k = labels x k"
  by (auto simp: labels_add labels_remove map_add_def)

lemma remove_instrument:
  "annots x injectAnnotation = None \<Longrightarrow> annots x configAnnotation = None \<Longrightarrow>
   annots x injectionSpecHashAnnotation = None \<Longrightarrow> labels x injectAnnotation = None \<Longrightarrow>
   annots (remove (instrument ref hash x)) = annots x \<and> labels (remove (instrument ref hash x)) = labels x"
  by (auto simp: annots_add annots_remove labels_add labels_remove map_add_def fun_eq_iff)

end

interpretation dep_template: pod_template
  "\<lambda>d. pt_Annotations (dp_Template d)" "\<lambda>d. pt_Labels (dp_Template d)"
  "\<lambda>d. desiredReplicas (WDeployment d)"
  "\<lambda>as ls d. d\<lparr>dp_Template := addToTemplate as ls (dp_Template d)\<rparr>"
  "\<lambda>d. d\<lparr>dp_Template := removeFromTemplate (dp_Template d)\<rparr>"
  by unfold_locales (simp_all add: addToTemplate_def removeFromTemplate_def)

interpretation ss_template: pod_template
  "\<lambda>s. pt_Annotations (ss_Template s)" "\<lambda>s. pt_Labels (ss_Template s)"
  "\<lambda>s. desiredReplicas (WStatefulSet s)"
  "\<lambda>as ls s. s\<lparr>ss_Template := addToTemplate as ls (ss_Template s)\<rparr>"
  "\<lambda>s. s\<lparr>ss_Template := removeFromTemplate (ss_Template s)\<rparr>"
  by unfold_locales (simp_all add: addToTemplate_def removeFromTemplate_def)

lemma desiredReplicas_mapTemplate [simp]: "desiredReplicas (mapTemplate f wt) = desiredReplicas wt"
  by (cases wt) auto

interpretation wt_template: pod_template podTemplateAnnotations podTemplateLabels desiredReplicas
  "\<lambda>as ls. mapTemplate (addToTemplate as ls)" "mapTemplate removeFromTemplate"
proof unfold_locales
  fix as ls x
  show "podTemplateAnnotations (mapTemplate (addToTemplate as ls) x) = podTemplateAnnotations x ++ as"
    by (cases x) (simp_all add: addToTemplate_def)
  show "podTemplateLabels (mapTemplate (addToTemplate as ls) x) = podTemplateLabels x ++ ls"
    by (cases x) (simp_all add: addToTemplate_def)
next
  fix x
  show "podTemplateAnnotations (mapTemplate removeFromTemplate x) = (podTemplateAnnotations x)
      (injectAnnotation := None, configAnnotation := None, injectionSpecHashAnnotation := None)"
    by (cases x) (simp_all add: removeFromTemplate_def)
  show "podTemplateLabels (mapTemplate removeFromTemplate x)
      = (podTemplateLabels x)(injectAnnotation := None)"
    by (cases x) (simp_all add: removeFromTemplate_def)
qed simp_all

section \<open>The target in the trace\<close>

text \<open>What a trace entry tells about the workload: the target read, and the target asked for.\<close>

fun readsTarget :: "action \<Rightarrow> workloadTarget option" where
  "readsTarget (GetDeployment n (Inr d)) = Some (WDeployment d)"
| "readsTarget (GetStatefulSet n (Inr s)) = Some (WStatefulSet s)"
| "readsTarget _ = None"

fun patchesTarget :: "action \<Rightarrow> (workloadTarget \<times> workloadTarget) option" where
  "patchesTarget (PatchDeployment d d' r) = Some (WDeployment d, WDeployment d')"
| "patchesTarget (PatchStatefulSet s s' r) = Some (WStatefulSet s, WStatefulSet s')"
| "patchesTarget _ = None"

text \<open>A read of the workload that the replica names.\<close>

definition asksTarget :: "litestreamReplica \<Rightarrow> action \<Rightarrow> bool" where
  "asksTarget db a \<longleftrightarrow>
     (if sp_TargetStatefulSet (db_Spec db) \<noteq> []
      then \<exists>res. a = GetStatefulSet (db_Namespace db, sp_TargetStatefulSet (db_Spec db)) res
      else \<exists>res. a = GetDeployment (db_Namespace db, sp_TargetDeployment (db_Spec db)) res)"

text \<open>A pod-template patch leaves the replica count alone.\<close>

definition keepsReplicas :: "action \<Rightarrow> bool" where
  "keepsReplicas a \<longleftrightarrow>
     (\<forall>wt wt'. patchesTarget a = Some (wt, wt') \<longrightarrow> desiredReplicas wt' = desiredReplicas wt)"

lemma keepsReplicas_simps [simp]:
  "keepsReplicas (PatchDeployment d d' r) \<longleftrightarrow>
     desiredReplicas (WDeployment d') = desiredReplicas (WDeployment d)"
  "keepsReplicas (PatchStatefulSet s s' r2) \<longleftrightarrow>
     desiredReplicas (WStatefulSet s') = desiredReplicas (WStatefulSet s)"
  "patchesTarget a = None \<Longrightarrow> keepsReplicas a"
  by (simp_all add: keepsReplicas_def)

lemma emits_patchTarget: "emits keepsReplicas (patchTarget K f wt)"
  unfolding patchTarget_def
  by (cases wt) (auto intro!: emits_intros)

end
