(* ===== verification/Samples.thy ===== *)
theory Samples
  imports Kube
begin

text \<open>
  Concrete objects, helpers and a cluster, used only to show that the hypotheses of properties can
  hold: a replica \<open>app-db\<close> of a Deployment \<open>app\<close> in the namespace \<open>ns\<close>, a restore of it, and a
  cluster \<open>emptyCluster\<close> in which every read fails with a not-found error and every write succeeds,
  until a function of it is replaced. \<open>sampleLib\<close> implements the documented helpers.
\<close>

definition sampleMeta :: "string \<Rightarrow> objectMeta" where
  "sampleMeta n = emptyMeta\<lparr>om_Name := n, om_Namespace := ''ns'', om_Generation := 1\<rparr>"

definition sampleS3 :: s3Destination where
  "sampleS3 = \<lparr>s3_Endpoint = ''minio:9000'', s3_Bucket = ''b'', s3_Path = ''app/'', s3_Region = [],
     s3_SecretRef = ''cred''\<rparr>"

definition sampleReplica :: litestreamReplica where
  "sampleReplica =
     \<lparr>db_Meta = sampleMeta ''app-db'',
      db_Spec = \<lparr>sp_DatabaseName = ''app.db'', sp_DatabasePath = ''/data'',
        sp_TargetDeployment = ''app'', sp_TargetStatefulSet = [], sp_Container = [], sp_Image = [],
        sp_Backup = \<lparr>bk_Enabled = True, bk_Destination = \<lparr>bd_S3 = Some sampleS3\<rparr>,
          bk_Retention = \<lparr>rp_Duration = ''720h''\<rparr>, bk_SyncInterval = [], bk_LogLevel = [],
          bk_Resources = None, bk_AutoRecover = False\<rparr>,
        sp_Recovery = \<lparr>rc_Mode = RecoveryModeAutomatic\<rparr>,
        sp_Health = \<lparr>hs_MaxReplicationLag = []\<rparr>,
        sp_Bootstrap = \<lparr>bs_SQL = ''CREATE TABLE t(x);'', bs_Image = []\<rparr>,
        sp_RunAsUser = None, sp_RunAsGroup = None\<rparr>,
      db_Status = \<lparr>rst_Phase = [], rst_Ready = False, rst_BackupHealthy = False,
        rst_LastSuccessfulReplicationTime = None, rst_ReplicationLag = [], rst_InjectedSpecHash = [],
        rst_ObservedGeneration = 0, rst_Conditions = []\<rparr>\<rparr>"

definition sampleContainer :: container where
  "sampleContainer = emptyContainer\<lparr>ct_Name := ''app'', ct_VolumeMounts :=
     [\<lparr>vm_Name = ''data'', vm_MountPath = ''/data'', vm_SubPath = [], vm_ReadOnly = False\<rparr>]\<rparr>"

definition samplePodSpec :: podSpec where
  "samplePodSpec = \<lparr>ps_Volumes = [\<lparr>vol_Name = ''data'', vol_ClaimName = Some ''app-pvc'', vol_ConfigMap = None\<rparr>],
     ps_InitContainers = [], ps_Containers = [sampleContainer], ps_RestartPolicy = [],
     ps_SecurityContext = None\<rparr>"

definition samplePod :: pod where
  "samplePod = \<lparr>pod_Meta = (sampleMeta ''app-1'')\<lparr>om_Annotations :=
       [AnnotationInject \<mapsto> ''true'', AnnotationConfig \<mapsto> ''ns/app-db'']\<rparr>,
     pod_Spec = samplePodSpec, pod_PodIP = ''10.0.0.1'',
     pod_ContainerStatuses = [\<lparr>cs_Name = ''litestream'', cs_Running = True, cs_WaitingReason = None,
       cs_TerminatedExitCode = None\<rparr>]\<rparr>"

definition sampleDeployment :: deployment where
  "sampleDeployment = \<lparr>dp_Meta = sampleMeta ''app'', dp_Replicas = Some 1,
     dp_Selector = Some [''app'' \<mapsto> ''app''],
     dp_Template = \<lparr>pt_Labels = [''app'' \<mapsto> ''app''], pt_Annotations = Map.empty, pt_Spec = samplePodSpec\<rparr>,
     dp_Strategy = \<lparr>ds_Type = ''Recreate'', ds_RollingUpdate = None\<rparr>,
     dp_StatusReplicas = 1, dp_StatusReadyReplicas = 1\<rparr>"

definition sampleRestore :: "string \<Rightarrow> string \<Rightarrow> litestreamRestore" where
  "sampleRestore mode phase =
     \<lparr>lr_Meta = (sampleMeta ''r1'')\<lparr>om_Finalizers := [''litestream.io/restore-finalizer'']\<rparr>,
      lr_Spec = \<lparr>rsp_SourceRef = \<lparr>sr_Name = ''app-db''\<rparr>, rsp_Mode = mode,
        rsp_Target = Some \<lparr>rt_PVC = ''pvc'', rt_Path = ''/data/app.db''\<rparr>, rsp_Timestamp = [], rsp_Image = [],
        rsp_Force = False, rsp_RunAsUser = None, rsp_RunAsGroup = None\<rparr>,
      lr_Status = \<lparr>st_Phase = phase, st_JobName = ''r1-restore'', st_OriginalReplicas = Some 1,
        st_StartTime = Some 1, st_CompletionTime = None, st_Message = [], st_ResolvedPVC = ''app-pvc'',
        st_ResolvedPath = ''/data/app.db'', st_ResolvedSubPath = [], st_Conditions = []\<rparr>\<rparr>"

section \<open>Helpers and the empty cluster\<close>

fun setCond :: "condition list \<Rightarrow> condition \<Rightarrow> condition list" where
  "setCond [] c = [c]"
| "setCond (d # ds) c =
     (if cd_Type d = cd_Type c
      then (if cd_Status d = cd_Status c
            then c\<lparr>cd_LastTransitionTime := cd_LastTransitionTime d\<rparr> else c) # ds
      else d # setCond ds c)"

definition sampleLib :: lib where
  "sampleLib =
     \<lparr>l_ContainsFinalizer = (\<lambda>m f. f \<in> set (om_Finalizers m)),
      l_AddFinalizer = (\<lambda>m f. if f \<in> set (om_Finalizers m) then m
         else m\<lparr>om_Finalizers := om_Finalizers m @ [f]\<rparr>),
      l_RemoveFinalizer = (\<lambda>m f. m\<lparr>om_Finalizers := filter (\<lambda>g. g \<noteq> f) (om_Finalizers m)\<rparr>),
      l_SetControllerReference = (\<lambda>owner m. Inr (m\<lparr>om_OwnerReferences := [om_Name owner]\<rparr>)),
      l_SetStatusCondition = setCond,
      l_RemoveStatusCondition = (\<lambda>cs t. filter (\<lambda>c. cd_Type c \<noteq> t) cs),
      l_Sum256 = (\<lambda>s. s),
      l_ParseDuration = (\<lambda>s. if s = ''5m'' then Some (300 * second) else None),
      l_DurationString = (\<lambda>d. fmt_d d),
      l_ParseFloat = (\<lambda>s. if s = ''100'' then Some (Finite 100 0)
         else if s = ''100.5'' then Some (Finite 201 (- 1)) else None),
      l_Int64OutOfRange = (\<lambda>x. - (2 ^ 63))\<rparr>"

lemma findCondition_setCond:
  "\<exists>t. findCondition (setCond cs c) (cd_Type c) = Some (c\<lparr>cd_LastTransitionTime := t\<rparr>)"
proof (induction cs)
  case Nil
  have "c = c\<lparr>cd_LastTransitionTime := cd_LastTransitionTime c\<rparr>" by simp
  then have "findCondition (setCond [] c) (cd_Type c)
      = Some (c\<lparr>cd_LastTransitionTime := cd_LastTransitionTime c\<rparr>)"
    by (simp add: findCondition_def)
  then show ?case by blast
next
  case (Cons d ds)
  then show ?case
    by (auto simp: findCondition_def intro: exI [of _ "cd_LastTransitionTime c"])
qed

lemma findCondition_setCond_other:
  "ty \<noteq> cd_Type c \<Longrightarrow> findCondition (setCond cs c) ty = findCondition cs ty"
  by (induction cs) (auto simp: findCondition_def)

lemma findCondition_filter:
  "findCondition (filter (\<lambda>c. cd_Type c \<noteq> t) cs) t' = (if t' = t then None else findCondition cs t')"
  by (induction cs) (auto simp: findCondition_def)

lemma condition_laws_sampleLib: "condition_laws sampleLib"
  unfolding condition_laws_def sampleLib_def
  by (simp add: findCondition_setCond findCondition_setCond_other findCondition_filter)

lemma finalizer_laws_sampleLib: "finalizer_laws sampleLib"
  unfolding finalizer_laws_def
proof (intro conjI allI)
  fix m f
  show "l_ContainsFinalizer sampleLib m f \<longleftrightarrow> f \<in> set (om_Finalizers m)"
    by (simp add: sampleLib_def)
  show "\<exists>fs. l_AddFinalizer sampleLib m f = m\<lparr>om_Finalizers := fs\<rparr> \<and>
      set fs = insert f (set (om_Finalizers m))"
    by (cases "f \<in> set (om_Finalizers m)")
       (auto simp: sampleLib_def intro: exI [of _ "om_Finalizers m"]
          exI [of _ "om_Finalizers m @ [f]"])
  show "\<exists>fs. l_RemoveFinalizer sampleLib m f = m\<lparr>om_Finalizers := fs\<rparr> \<and>
      set fs = set (om_Finalizers m) - {f}"
    by (auto simp: sampleLib_def)
qed

abbreviation missing :: "goerr" where "missing \<equiv> ApiError NotFound ''not found''"

definition emptyCluster :: "'w kube" where
  "emptyCluster =
     \<lparr>k_GetRestore = (\<lambda>n w. (Inl missing, w)),
      k_UpdateRestore = (\<lambda>r w. (Inr r, w)),
      k_PatchRestoreStatus = (\<lambda>b r w. (Inr r, w)),
      k_GetReplica = (\<lambda>n w. (Inl missing, w)),
      k_UpdateReplica = (\<lambda>d w. (Inr d, w)),
      k_PatchReplica = (\<lambda>b d w. (Inr d, w)),
      k_PatchReplicaStatus = (\<lambda>b d w. (Inr d, w)),
      k_GetDeployment = (\<lambda>n w. (Inl missing, w)),
      k_PatchDeployment = (\<lambda>b d w. (Inr d, w)),
      k_GetStatefulSet = (\<lambda>n w. (Inl missing, w)),
      k_PatchStatefulSet = (\<lambda>b d w. (Inr d, w)),
      k_GetConfigMap = (\<lambda>n w. (Inl missing, w)),
      k_CreateOrUpdateConfigMap = (\<lambda>c f w. (case f c of Inl e \<Rightarrow> Some e | Inr _ \<Rightarrow> None, w)),
      k_GetJob = (\<lambda>n w. (Inl missing, w)),
      k_CreateJob = (\<lambda>j w. (None, w)),
      k_GetLease = (\<lambda>n w. (Inl missing, w)),
      k_CreateLease = (\<lambda>l w. (None, w)),
      k_DeleteLease = (\<lambda>l w. (None, w)),
      k_ListPods = (\<lambda>ns sel w. (Inr [], w)),
      k_ListReplicas = (\<lambda>ns w. (Inr [], w)),
      k_HasKubeClient = False,
      k_ListPodsBySelector = (\<lambda>ns sel w. (Inr [], w)),
      k_StreamLogs = (\<lambda>ns p prev w. (Inl missing, w)),
      k_HttpGet = (\<lambda>url w. (Inl missing, w)),
      k_RecordEvent = (\<lambda>e w. ((), w)),
      k_Now = (\<lambda>w. (1000 * second, w)),
      k_Lib = sampleLib\<rparr>"

text \<open>A cluster that holds one restore and one replica.\<close>

definition sampleCluster :: "litestreamRestore \<Rightarrow> litestreamReplica \<Rightarrow> 'w kube" where
  "sampleCluster r db = emptyCluster\<lparr>k_GetRestore := (\<lambda>n w. (Inr r, w)),
     k_GetReplica := (\<lambda>n w. (Inr db, w))\<rparr>"

definition start :: "(unit, action) sys" where
  "start = \<lparr>world = (), trace = []\<rparr>"

lemmas sample_defs = sampleMeta_def emptyMeta_def sampleS3_def sampleReplica_def sampleContainer_def
  emptyContainer_def samplePodSpec_def samplePod_def sampleDeployment_def sampleRestore_def

end
