(* ===== verification/Api_Server.thy ===== *)
theory Api_Server
  imports Workload Samples
begin

text \<open>
  The documented behaviour of an API server that nobody else writes to and that does not fail, as
  a hypothesis about the cluster parameter: \<open>serves view K\<close> says what each call answers and what it
  does to the stored objects, which \<open>view\<close> reads off the world. The rest of the world (pods, the
  metrics endpoint, the clock, the recorder) answers anything and leaves the stored objects alone.

  A patch is a merge patch: the fields that the caller changed between the base and the modified
  object get the new value, every other field keeps what the server has stored; a patch of the
  status ignores the rest of the object, and the other way round.
\<close>

section \<open>The stored objects\<close>

record store =
  so_Restores :: "nsname \<Rightarrow> litestreamRestore option"
  so_Replicas :: "nsname \<Rightarrow> litestreamReplica option"
  so_Deployments :: "nsname \<Rightarrow> deployment option"
  so_StatefulSets :: "nsname \<Rightarrow> statefulSet option"
  so_ConfigMaps :: "nsname \<Rightarrow> configMap option"
  so_Jobs :: "nsname \<Rightarrow> job option"
  so_Leases :: "nsname \<Rightarrow> lease option"

definition objectKey :: "objectMeta \<Rightarrow> nsname" where
  "objectKey m = (om_Namespace m, om_Name m)"

section \<open>Merge patches\<close>

definition mergeField :: "'a \<Rightarrow> 'a \<Rightarrow> 'a \<Rightarrow> 'a" where
  "mergeField base new stored = (if new = base then stored else new)"

lemma mergeField_simps [simp]: "mergeField b b s = s" "mergeField b n b = n"
  by (auto simp: mergeField_def)

definition mergeMap :: "('k \<Rightarrow> 'v option) \<Rightarrow> ('k \<Rightarrow> 'v option) \<Rightarrow> ('k \<Rightarrow> 'v option) \<Rightarrow> 'k \<Rightarrow> 'v option" where
  "mergeMap base new stored = (\<lambda>k. mergeField (base k) (new k) (stored k))"

lemma mergeMap_simps [simp]: "mergeMap b b s = s" "mergeMap b n b = n"
  by (simp_all add: mergeMap_def)

definition mergeRestoreStatus ::
  "litestreamRestore \<Rightarrow> litestreamRestore \<Rightarrow> litestreamRestore \<Rightarrow> litestreamRestore" where
  "mergeRestoreStatus base new stored =
     (let b = lr_Status base; n = lr_Status new; s = lr_Status stored in
      stored\<lparr>lr_Status :=
        \<lparr>st_Phase = mergeField (st_Phase b) (st_Phase n) (st_Phase s),
         st_JobName = mergeField (st_JobName b) (st_JobName n) (st_JobName s),
         st_OriginalReplicas = mergeField (st_OriginalReplicas b) (st_OriginalReplicas n) (st_OriginalReplicas s),
         st_StartTime = mergeField (st_StartTime b) (st_StartTime n) (st_StartTime s),
         st_CompletionTime = mergeField (st_CompletionTime b) (st_CompletionTime n) (st_CompletionTime s),
         st_Message = mergeField (st_Message b) (st_Message n) (st_Message s),
         st_ResolvedPVC = mergeField (st_ResolvedPVC b) (st_ResolvedPVC n) (st_ResolvedPVC s),
         st_ResolvedPath = mergeField (st_ResolvedPath b) (st_ResolvedPath n) (st_ResolvedPath s),
         st_ResolvedSubPath = mergeField (st_ResolvedSubPath b) (st_ResolvedSubPath n) (st_ResolvedSubPath s),
         st_Conditions = mergeField (st_Conditions b) (st_Conditions n) (st_Conditions s)\<rparr>\<rparr>)"

definition mergeReplica ::
  "litestreamReplica \<Rightarrow> litestreamReplica \<Rightarrow> litestreamReplica \<Rightarrow> litestreamReplica" where
  "mergeReplica base new stored =
     stored\<lparr>db_Meta := (db_Meta stored)\<lparr>om_Annotations :=
       mergeMap (db_Annotations base) (db_Annotations new) (db_Annotations stored)\<rparr>\<rparr>"

definition mergeReplicaStatus ::
  "litestreamReplica \<Rightarrow> litestreamReplica \<Rightarrow> litestreamReplica \<Rightarrow> litestreamReplica" where
  "mergeReplicaStatus base new stored =
     (let b = db_Status base; n = db_Status new; s = db_Status stored in
      stored\<lparr>db_Status :=
        \<lparr>rst_Phase = mergeField (rst_Phase b) (rst_Phase n) (rst_Phase s),
         rst_Ready = mergeField (rst_Ready b) (rst_Ready n) (rst_Ready s),
         rst_BackupHealthy = mergeField (rst_BackupHealthy b) (rst_BackupHealthy n) (rst_BackupHealthy s),
         rst_LastSuccessfulReplicationTime = mergeField (rst_LastSuccessfulReplicationTime b)
           (rst_LastSuccessfulReplicationTime n) (rst_LastSuccessfulReplicationTime s),
         rst_ReplicationLag = mergeField (rst_ReplicationLag b) (rst_ReplicationLag n) (rst_ReplicationLag s),
         rst_InjectedSpecHash =
           mergeField (rst_InjectedSpecHash b) (rst_InjectedSpecHash n) (rst_InjectedSpecHash s),
         rst_ObservedGeneration =
           mergeField (rst_ObservedGeneration b) (rst_ObservedGeneration n) (rst_ObservedGeneration s),
         rst_Conditions = mergeField (rst_Conditions b) (rst_Conditions n) (rst_Conditions s)\<rparr>\<rparr>)"

text \<open>The operator changes the replica count, the annotations and the labels of a workload.\<close>

definition mergeDeployment :: "deployment \<Rightarrow> deployment \<Rightarrow> deployment \<Rightarrow> deployment" where
  "mergeDeployment base new stored =
     stored\<lparr>dp_Replicas := mergeField (dp_Replicas base) (dp_Replicas new) (dp_Replicas stored),
       dp_Template := (dp_Template stored)
         \<lparr>pt_Annotations := mergeMap (pt_Annotations (dp_Template base)) (pt_Annotations (dp_Template new))
            (pt_Annotations (dp_Template stored)),
          pt_Labels := mergeMap (pt_Labels (dp_Template base)) (pt_Labels (dp_Template new))
            (pt_Labels (dp_Template stored))\<rparr>\<rparr>"

definition mergeStatefulSet :: "statefulSet \<Rightarrow> statefulSet \<Rightarrow> statefulSet \<Rightarrow> statefulSet" where
  "mergeStatefulSet base new stored =
     stored\<lparr>ss_Replicas := mergeField (ss_Replicas base) (ss_Replicas new) (ss_Replicas stored),
       ss_Template := (ss_Template stored)
         \<lparr>pt_Annotations := mergeMap (pt_Annotations (ss_Template base)) (pt_Annotations (ss_Template new))
            (pt_Annotations (ss_Template stored)),
          pt_Labels := mergeMap (pt_Labels (ss_Template base)) (pt_Labels (ss_Template new))
            (pt_Labels (ss_Template stored))\<rparr>\<rparr>"

section \<open>The answers of the server\<close>

definition gets :: "(nsname \<Rightarrow> 'o option) \<Rightarrow> nsname \<Rightarrow> goerr + 'o \<Rightarrow> bool" where
  "gets objs n r \<longleftrightarrow>
     (case objs n of None \<Rightarrow> (\<exists>t. r = Inl (ApiError NotFound t)) | Some x \<Rightarrow> r = Inr x)"

text \<open>A read, and a call that does not touch the stored objects.\<close>

definition reads :: "('w \<Rightarrow> store) \<Rightarrow> (store \<Rightarrow> nsname \<Rightarrow> 'o option) \<Rightarrow>
    (nsname \<Rightarrow> 'w \<Rightarrow> (goerr + 'o) \<times> 'w) \<Rightarrow> bool" where
  "reads view objs f \<longleftrightarrow> (\<forall>n w. gets (objs (view w)) n (fst (f n w)) \<and> view (snd (f n w)) = view w)"

definition quiet :: "('w \<Rightarrow> store) \<Rightarrow> ('w \<Rightarrow> 'r \<times> 'w) \<Rightarrow> bool" where
  "quiet view f \<longleftrightarrow> (\<forall>w. view (snd (f w)) = view w)"

text \<open>A patch of an object of one kind; an object that is not there is not created.\<close>

definition patches :: "('w \<Rightarrow> store) \<Rightarrow> (store \<Rightarrow> nsname \<Rightarrow> 'o option) \<Rightarrow>
    ((nsname \<Rightarrow> 'o option) \<Rightarrow> store \<Rightarrow> store) \<Rightarrow> ('o \<Rightarrow> objectMeta) \<Rightarrow> ('o \<Rightarrow> 'o \<Rightarrow> 'o \<Rightarrow> 'o) \<Rightarrow>
    ('o \<Rightarrow> 'o \<Rightarrow> 'w \<Rightarrow> (goerr + 'o) \<times> 'w) \<Rightarrow> bool" where
  "patches view objs put meta merge f \<longleftrightarrow> (\<forall>b n w. let v = view w; k = objectKey (meta n) in
     case objs v k of
       None \<Rightarrow> (\<exists>t. fst (f b n w) = Inl (ApiError NotFound t)) \<and> view (snd (f b n w)) = v
     | Some s \<Rightarrow> fst (f b n w) = Inr (merge b n s) \<and>
         view (snd (f b n w)) = put ((objs v)(k \<mapsto> merge b n s)) v)"

definition creates :: "('w \<Rightarrow> store) \<Rightarrow> (store \<Rightarrow> nsname \<Rightarrow> 'o option) \<Rightarrow>
    ((nsname \<Rightarrow> 'o option) \<Rightarrow> store \<Rightarrow> store) \<Rightarrow> ('o \<Rightarrow> objectMeta) \<Rightarrow>
    ('o \<Rightarrow> 'w \<Rightarrow> goerr option \<times> 'w) \<Rightarrow> bool" where
  "creates view objs put meta f \<longleftrightarrow> (\<forall>n w. let v = view w; k = objectKey (meta n) in
     case objs v k of
       Some s \<Rightarrow> (\<exists>t. fst (f n w) = Some (ApiError AlreadyExists t)) \<and> view (snd (f n w)) = v
     | None \<Rightarrow> fst (f n w) = None \<and> view (snd (f n w)) = put ((objs v)(k \<mapsto> n)) v)"

text \<open>\<open>CreateOrUpdate\<close> applies the function to the stored object, or to the given one.\<close>

definition upserts :: "('w \<Rightarrow> store) \<Rightarrow>
    (configMap \<Rightarrow> (configMap \<Rightarrow> goerr + configMap) \<Rightarrow> 'w \<Rightarrow> goerr option \<times> 'w) \<Rightarrow> bool" where
  "upserts view f \<longleftrightarrow> (\<forall>c g w. let v = view w; k = objectKey (cm_Meta c) in
     case g (case so_ConfigMaps v k of None \<Rightarrow> c | Some s \<Rightarrow> s) of
       Inl e \<Rightarrow> fst (f c g w) = Some e \<and> view (snd (f c g w)) = v
     | Inr n \<Rightarrow> fst (f c g w) = None \<and>
         view (snd (f c g w)) = v\<lparr>so_ConfigMaps := (so_ConfigMaps v)(k \<mapsto> n)\<rparr>)"

definition deletes :: "('w \<Rightarrow> store) \<Rightarrow> (lease \<Rightarrow> 'w \<Rightarrow> goerr option \<times> 'w) \<Rightarrow> bool" where
  "deletes view f \<longleftrightarrow> (\<forall>l w. let v = view w; k = objectKey (ls_Meta l) in
     view (snd (f l w)) = v\<lparr>so_Leases := (so_Leases v)(k := None)\<rparr>)"

definition serves :: "('w \<Rightarrow> store) \<Rightarrow> 'w kube \<Rightarrow> bool" where
  "serves view K \<longleftrightarrow>
     reads view so_Restores (k_GetRestore K) \<and> reads view so_Replicas (k_GetReplica K) \<and>
     reads view so_Deployments (k_GetDeployment K) \<and> reads view so_ConfigMaps (k_GetConfigMap K) \<and>
     reads view so_Jobs (k_GetJob K) \<and> reads view so_Leases (k_GetLease K) \<and>
     reads view so_StatefulSets (k_GetStatefulSet K) \<and>
     patches view so_Restores (\<lambda>x v. v\<lparr>so_Restores := x\<rparr>) lr_Meta mergeRestoreStatus (k_PatchRestoreStatus K) \<and>
     patches view so_Replicas (\<lambda>x v. v\<lparr>so_Replicas := x\<rparr>) db_Meta mergeReplica (k_PatchReplica K) \<and>
     patches view so_Replicas (\<lambda>x v. v\<lparr>so_Replicas := x\<rparr>) db_Meta mergeReplicaStatus (k_PatchReplicaStatus K) \<and>
     patches view so_Deployments (\<lambda>x v. v\<lparr>so_Deployments := x\<rparr>) dp_Meta mergeDeployment (k_PatchDeployment K) \<and>
     patches view so_StatefulSets (\<lambda>x v. v\<lparr>so_StatefulSets := x\<rparr>) ss_Meta mergeStatefulSet (k_PatchStatefulSet K) \<and>
     upserts view (k_CreateOrUpdateConfigMap K) \<and>
     creates view so_Jobs (\<lambda>x v. v\<lparr>so_Jobs := x\<rparr>) jb_Meta (k_CreateJob K) \<and>
     creates view so_Leases (\<lambda>x v. v\<lparr>so_Leases := x\<rparr>) ls_Meta (k_CreateLease K) \<and>
     deletes view (k_DeleteLease K) \<and>
     (\<forall>ns sel. quiet view (k_ListPods K ns sel)) \<and> (\<forall>ns sel. quiet view (k_ListPodsBySelector K ns sel)) \<and>
     (\<forall>ns p b. quiet view (k_StreamLogs K ns p b)) \<and> (\<forall>url. quiet view (k_HttpGet K url)) \<and>
     (\<forall>e. quiet view (k_RecordEvent K e)) \<and> quiet view (k_Now K)"

text \<open>
  \<open>SetControllerReference\<close> sets the owner of an object that has none, or has this one already.
\<close>

definition controller_law :: "lib \<Rightarrow> bool" where
  "controller_law L \<longleftrightarrow> (\<forall>ow m. set (om_OwnerReferences m) \<subseteq> {om_Name ow} \<longrightarrow>
     l_SetControllerReference L ow m = Inr (m\<lparr>om_OwnerReferences := [om_Name ow]\<rparr>))"

end
