(* ===== verification/Api_Runs.thy ===== *)
theory Api_Runs
  imports Api_Server
begin

text \<open>
  Judgements about runs against a serving cluster. A run is watched through \<open>'w watch\<close>: the stored
  objects, a history of stored objects that the world carries, and the property \<open>wt_Always\<close> that is
  claimed of every entry. \<open>endsIn W v m Q\<close> says that every run of \<open>m\<close> from the stored objects \<open>v\<close>
  ends with a result and stored objects related by \<open>Q\<close>, and that \<open>wt_Always\<close> holds at its end and of
  every state it enters into the history, if it held at first. \<open>keeps W J m\<close> says that every run
  preserves \<open>J\<close> and enters only states with \<open>J\<close>. \<open>after_api\<close> and \<open>keeps_api\<close> have a rule for each call.
\<close>

named_theorems after_intros "syntax-directed rules for endsIn"
named_theorems keeps_intros "syntax-directed rules for keeps"

section \<open>Watching a run\<close>

text \<open>
  A run is watched through the stored objects and a history of stored objects that the world carries.
  A call may enter into the history only the objects as they are after it. A plain world has no
  history; \<open>withLog K\<close> keeps the world after every call, so its history has every state in which the
  operator could have been stopped. \<open>wt_Always\<close> is the property that is claimed of all of them.
\<close>

record 'w watch =
  wt_Stored :: "'w \<Rightarrow> store"
  wt_History :: "'w \<Rightarrow> store list"
  wt_Always :: "store \<Rightarrow> bool"

definition enters :: "'w watch \<Rightarrow> ('w \<Rightarrow> 'r \<times> 'w) \<Rightarrow> bool" where
  "enters W f \<longleftrightarrow> (\<forall>w. \<exists>vs. wt_History W (snd (f w)) = wt_History W w @ vs \<and>
     set vs \<subseteq> {wt_Stored W (snd (f w))})"

definition entersAll :: "'w watch \<Rightarrow> 'w kube \<Rightarrow> bool" where
  "entersAll W K \<longleftrightarrow>
     (\<forall>n. enters W (k_GetRestore K n)) \<and> (\<forall>n. enters W (k_GetReplica K n)) \<and>
     (\<forall>n. enters W (k_GetDeployment K n)) \<and> (\<forall>n. enters W (k_GetConfigMap K n)) \<and>
     (\<forall>n. enters W (k_GetJob K n)) \<and> (\<forall>n. enters W (k_GetLease K n)) \<and>
     (\<forall>b n. enters W (k_PatchRestoreStatus K b n)) \<and> (\<forall>b n. enters W (k_PatchReplica K b n)) \<and>
     (\<forall>b n. enters W (k_PatchReplicaStatus K b n)) \<and> (\<forall>b n. enters W (k_PatchDeployment K b n)) \<and>
     (\<forall>c g. enters W (k_CreateOrUpdateConfigMap K c g)) \<and> (\<forall>j. enters W (k_CreateJob K j)) \<and>
     (\<forall>l. enters W (k_CreateLease K l)) \<and> (\<forall>l. enters W (k_DeleteLease K l)) \<and> enters W (k_Now K) \<and>
     (\<forall>ns sel. enters W (k_ListPods K ns sel)) \<and> (\<forall>ns sel. enters W (k_ListPodsBySelector K ns sel)) \<and>
     (\<forall>ns p b. enters W (k_StreamLogs K ns p b)) \<and> (\<forall>url. enters W (k_HttpGet K url)) \<and>
     (\<forall>n. enters W (k_GetStatefulSet K n)) \<and> (\<forall>b n. enters W (k_PatchStatefulSet K b n)) \<and>
     (\<forall>e. enters W (k_RecordEvent K e))"

definition watches :: "'w watch \<Rightarrow> 'w kube \<Rightarrow> bool" where
  "watches W K \<longleftrightarrow> serves (wt_Stored W) K \<and> entersAll W K"

text \<open>A world without a history.\<close>

definition plainWatch :: "('w \<Rightarrow> store) \<Rightarrow> (store \<Rightarrow> bool) \<Rightarrow> 'w watch" where
  "plainWatch view G = \<lparr>wt_Stored = view, wt_History = (\<lambda>_. []), wt_Always = G\<rparr>"

lemma watches_plain: "serves view K \<Longrightarrow> watches (plainWatch view G) K"
  by (simp add: watches_def plainWatch_def entersAll_def enters_def)

text \<open>A world with the worlds after each call so far.\<close>

definition logCall :: "('w \<Rightarrow> 'r \<times> 'w) \<Rightarrow> 'w \<times> 'w list \<Rightarrow> 'r \<times> 'w \<times> 'w list" where
  "logCall f x = (case f (fst x) of (r, w) \<Rightarrow> (r, w, snd x @ [w]))"

definition withLog :: "'w kube \<Rightarrow> ('w \<times> 'w list) kube" where
  "withLog K = \<lparr>
     k_GetRestore = (\<lambda>n. logCall (k_GetRestore K n)), k_UpdateRestore = (\<lambda>n. logCall (k_UpdateRestore K n)),
     k_PatchRestoreStatus = (\<lambda>b n. logCall (k_PatchRestoreStatus K b n)),
     k_GetReplica = (\<lambda>n. logCall (k_GetReplica K n)), k_UpdateReplica = (\<lambda>n. logCall (k_UpdateReplica K n)),
     k_PatchReplica = (\<lambda>b n. logCall (k_PatchReplica K b n)),
     k_PatchReplicaStatus = (\<lambda>b n. logCall (k_PatchReplicaStatus K b n)),
     k_GetDeployment = (\<lambda>n. logCall (k_GetDeployment K n)),
     k_PatchDeployment = (\<lambda>b n. logCall (k_PatchDeployment K b n)),
     k_GetStatefulSet = (\<lambda>n. logCall (k_GetStatefulSet K n)),
     k_PatchStatefulSet = (\<lambda>b n. logCall (k_PatchStatefulSet K b n)),
     k_GetConfigMap = (\<lambda>n. logCall (k_GetConfigMap K n)),
     k_CreateOrUpdateConfigMap = (\<lambda>c g. logCall (k_CreateOrUpdateConfigMap K c g)),
     k_GetJob = (\<lambda>n. logCall (k_GetJob K n)), k_CreateJob = (\<lambda>j. logCall (k_CreateJob K j)),
     k_GetLease = (\<lambda>n. logCall (k_GetLease K n)), k_CreateLease = (\<lambda>l. logCall (k_CreateLease K l)),
     k_DeleteLease = (\<lambda>l. logCall (k_DeleteLease K l)),
     k_ListPods = (\<lambda>ns sel. logCall (k_ListPods K ns sel)), k_ListReplicas = (\<lambda>ns. logCall (k_ListReplicas K ns)),
     k_HasKubeClient = k_HasKubeClient K,
     k_ListPodsBySelector = (\<lambda>ns sel. logCall (k_ListPodsBySelector K ns sel)),
     k_StreamLogs = (\<lambda>ns p b. logCall (k_StreamLogs K ns p b)), k_HttpGet = (\<lambda>url. logCall (k_HttpGet K url)),
     k_RecordEvent = (\<lambda>e. logCall (k_RecordEvent K e)), k_Now = logCall (k_Now K), k_Lib = k_Lib K\<rparr>"

definition logWatch :: "('w \<Rightarrow> store) \<Rightarrow> (store \<Rightarrow> bool) \<Rightarrow> ('w \<times> 'w list) watch" where
  "logWatch view G = \<lparr>wt_Stored = (\<lambda>x. view (fst x)), wt_History = (\<lambda>x. map view (snd x)), wt_Always = G\<rparr>"

lemma logCall_simps [simp]:
  "fst (logCall f x) = fst (f (fst x))" "fst (snd (logCall f x)) = snd (f (fst x))"
  "snd (snd (logCall f x)) = snd x @ [snd (f (fst x))]"
  by (simp_all add: logCall_def split: prod.splits)

lemma withLog_Lib [simp]: "k_Lib (withLog K) = k_Lib K"
  by (simp add: withLog_def)

lemma withLog_calls:
  "reads view objs f \<Longrightarrow> reads (\<lambda>x. view (fst x)) objs (\<lambda>n. logCall (f n))"
  "quiet view c \<Longrightarrow> quiet (\<lambda>x. view (fst x)) (logCall c)"
  "patches view objs put meta merge u \<Longrightarrow> patches (\<lambda>x. view (fst x)) objs put meta merge (\<lambda>b n. logCall (u b n))"
  "creates view objs put meta a \<Longrightarrow> creates (\<lambda>x. view (fst x)) objs put meta (\<lambda>n. logCall (a n))"
  "upserts view i \<Longrightarrow> upserts (\<lambda>x. view (fst x)) (\<lambda>c g. logCall (i c g))"
  "deletes view e \<Longrightarrow> deletes (\<lambda>x. view (fst x)) (\<lambda>l. logCall (e l))"
  unfolding reads_def quiet_def patches_def creates_def upserts_def deletes_def logCall_simps by blast+

lemma logCall_enters: "enters (logWatch view G) (logCall f)"
  by (simp add: enters_def logWatch_def)

lemma watches_logged:
  assumes "serves view K"
  shows "watches (logWatch view G) (withLog K)"
proof -
  have "serves (\<lambda>x. view (fst x)) (withLog K)"
    using assms unfolding serves_def withLog_def by (simp add: withLog_calls del: split_paired_All)
  moreover have "wt_Stored (logWatch view G) = (\<lambda>x. view (fst x))"
    by (simp add: logWatch_def)
  ultimately show ?thesis
    by (simp add: watches_def entersAll_def withLog_def logCall_enters)
qed

section \<open>Runs from known objects\<close>

definition went :: "'w watch \<Rightarrow> (store \<Rightarrow> bool) \<Rightarrow> 'w \<Rightarrow> 'w \<Rightarrow> bool" where
  "went W G w w' \<longleftrightarrow> (\<exists>vs. wt_History W w' = wt_History W w @ vs \<and> list_all G vs)"

definition endsIn :: "'w watch \<Rightarrow> store \<Rightarrow> ('w, 'e, 'a) prog \<Rightarrow> ('a \<Rightarrow> store \<Rightarrow> bool) \<Rightarrow> bool" where
  "endsIn W v m Q \<longleftrightarrow> (wt_Always W v \<longrightarrow> (\<forall>s. wt_Stored W (world s) = v \<longrightarrow>
     (let (a, s') = run_state m s in Q a (wt_Stored W (world s')) \<and> wt_Always W (wt_Stored W (world s')) \<and>
        went W (wt_Always W) (world s) (world s'))))"

lemma went_refl [simp]: "went W G w w"
  by (simp add: went_def)

lemma went_trans: "went W G w w' \<Longrightarrow> went W G w' w'' \<Longrightarrow> went W G w w''"
  by (auto simp: went_def)

lemma went_call: "enters W f \<Longrightarrow> G (wt_Stored W (snd (f w))) \<Longrightarrow> went W G w (snd (f w))"
  unfolding enters_def went_def by (metis list_all_iff singletonD subsetD)

lemma after_weaken: "endsIn W v m P \<Longrightarrow> (\<And>a v'. P a v' \<Longrightarrow> Q a v') \<Longrightarrow> endsIn W v m Q"
  by (fastforce simp: endsIn_def Let_def split: prod.splits)

text \<open>What holds of every state that is passed may be used.\<close>

lemma after_always: "(wt_Always W v \<Longrightarrow> endsIn W v m Q) \<Longrightarrow> endsIn W v m Q"
  by (auto simp: endsIn_def)

lemma after_ret [after_intros]: "Q a v \<Longrightarrow> endsIn W v (ret a) Q"
  by (simp add: endsIn_def)

lemma endsInD:
  assumes "endsIn W v m Q" "wt_Always W v" "wt_Stored W (world s) = v" "run_state m s = (a, s')"
  shows "Q a (wt_Stored W (world s'))" "wt_Always W (wt_Stored W (world s'))"
    "went W (wt_Always W) (world s) (world s')"
  using assms by (auto simp: endsIn_def dest!: spec [of _ s])

lemma after_bind [after_intros]:
  assumes "endsIn W v m (\<lambda>a v'. endsIn W v' (f a) Q)"
  shows "endsIn W v (State_Monad.bind m f) Q"
proof -
  have "Q b (wt_Stored W (world s2)) \<and> wt_Always W (wt_Stored W (world s2)) \<and>
      went W (wt_Always W) (world s) (world s2)"
    if s: "wt_Always W v" "wt_Stored W (world s) = v" and 1: "run_state m s = (a, s1)"
      and 2: "run_state (f a) s1 = (b, s2)" for s a s1 b s2
  proof -
    note m = endsInD [OF assms s 1]
    note fa = endsInD [OF m(1,2) refl 2]
    show ?thesis by (intro conjI fa(1,2) went_trans [OF m(3) fa(3)])
  qed
  then show ?thesis
    by (simp add: endsIn_def split: prod.split)
qed

lemma after_if [after_intros]:
  "(b \<Longrightarrow> endsIn W v m Q) \<Longrightarrow> (\<not> b \<Longrightarrow> endsIn W v n Q) \<Longrightarrow> endsIn W v (if b then m else n) Q"
  by simp

lemma after_case_sum [after_intros]:
  "(\<And>e. x = Inl e \<Longrightarrow> endsIn W v (f e) Q) \<Longrightarrow> (\<And>a. x = Inr a \<Longrightarrow> endsIn W v (g a) Q) \<Longrightarrow>
   endsIn W v (case x of Inl e \<Rightarrow> f e | Inr a \<Rightarrow> g a) Q"
  by (simp split: sum.split)

lemma after_case_option [after_intros]:
  "(x = None \<Longrightarrow> endsIn W v m Q) \<Longrightarrow> (\<And>a. x = Some a \<Longrightarrow> endsIn W v (g a) Q) \<Longrightarrow>
   endsIn W v (case x of None \<Rightarrow> m | Some a \<Rightarrow> g a) Q"
  by (simp split: option.split)

lemma after_case_prod [after_intros]:
  "(\<And>a b. x = (a, b) \<Longrightarrow> endsIn W v (f a b) Q) \<Longrightarrow> endsIn W v (case x of (a, b) \<Rightarrow> f a b) Q"
  by (simp split: prod.split)

lemma after_case_workload [after_intros]:
  "(\<And>d. x = WDeployment d \<Longrightarrow> endsIn W v (f d) Q) \<Longrightarrow>
   (\<And>s. x = WStatefulSet s \<Longrightarrow> endsIn W v (g s) Q) \<Longrightarrow>
   endsIn W v (case x of WDeployment d \<Rightarrow> f d | WStatefulSet s \<Rightarrow> g s) Q"
  by (cases x) simp_all

lemma after_let [after_intros]:
  "(\<And>x. x = t \<Longrightarrow> endsIn W v (f x) Q) \<Longrightarrow> endsIn W v (let x = t in f x) Q"
  by simp

lemma after_call:
  assumes "enters W f" "\<And>w. wt_Stored W w = v \<Longrightarrow> wt_Always W v \<Longrightarrow>
    Q (fst (f w)) (wt_Stored W (snd (f w))) \<and> wt_Always W (wt_Stored W (snd (f w)))"
  shows "endsIn W v (call f ev) Q"
  using assms(2) went_call [OF assms(1), of "wt_Always W"]
  by (simp add: endsIn_def split: prod.split) (metis fst_conv snd_conv)

lemma after_silent:
  assumes "enters W f" "\<And>w. wt_Stored W w = v \<Longrightarrow> wt_Always W v \<Longrightarrow>
    Q (fst (f w)) (wt_Stored W (snd (f w))) \<and> wt_Always W (wt_Stored W (snd (f w)))"
  shows "endsIn W v (silent f) Q"
  using assms(2) went_call [OF assms(1), of "wt_Always W"]
  by (simp add: endsIn_def split: prod.split) (metis fst_conv snd_conv)

lemma after_quiet:
  "quiet (wt_Stored W) f \<and> enters W f \<Longrightarrow> (\<And>r. Q r v) \<Longrightarrow> endsIn W v (call f ev) Q"
  by (rule after_call) (simp_all add: quiet_def)

lemma after_clock:
  "quiet (wt_Stored W) f \<and> enters W f \<Longrightarrow> (\<And>r. Q r v) \<Longrightarrow> endsIn W v (silent f) Q"
  by (rule after_silent) (simp_all add: quiet_def)

text \<open>A call of each kind, with one premise per answer.\<close>

lemma after_reads:
  assumes "reads (wt_Stored W) objs f \<and> (\<forall>n. enters W (f n))" "\<And>x. objs v n = Some x \<Longrightarrow> Q (Inr x) v"
    and "\<And>t. objs v n = None \<Longrightarrow> Q (Inl (ApiError NotFound t)) v"
  shows "endsIn W v (call (f n) ev) Q"
proof (rule after_call)
  show "enters W (f n)" using assms(1) by blast
next
  fix w
  assume "wt_Stored W w = v" "wt_Always W v"
  then show "Q (fst (f n w)) (wt_Stored W (snd (f n w))) \<and> wt_Always W (wt_Stored W (snd (f n w)))"
    using assms(1) [THEN conjunct1, unfolded reads_def, THEN spec [of _ n], THEN spec [of _ w]] assms(2,3)
    by (auto simp: gets_def split: option.splits)
qed

lemma after_patches:
  assumes "patches (wt_Stored W) objs put meta merge f \<and> (\<forall>b n. enters W (f b n))"
    and "\<And>s. objs v (objectKey (meta n)) = Some s \<Longrightarrow>
      Q (Inr (merge b n s)) (put ((objs v)(objectKey (meta n) \<mapsto> merge b n s)) v) \<and>
      wt_Always W (put ((objs v)(objectKey (meta n) \<mapsto> merge b n s)) v)"
    and "\<And>t. objs v (objectKey (meta n)) = None \<Longrightarrow> Q (Inl (ApiError NotFound t)) v"
  shows "endsIn W v (call (f b n) ev) Q"
proof (rule after_call)
  show "enters W (f b n)" using assms(1) by blast
next
  fix w
  assume "wt_Stored W w = v" "wt_Always W v"
  then show "Q (fst (f b n w)) (wt_Stored W (snd (f b n w))) \<and> wt_Always W (wt_Stored W (snd (f b n w)))"
    using assms(1) [THEN conjunct1, unfolded patches_def, THEN spec [of _ b], THEN spec [of _ n], THEN spec [of _ w]]
      assms(2,3)
    by (auto simp: Let_def split: option.splits)
qed

lemma after_creates:
  assumes "creates (wt_Stored W) objs put meta f \<and> (\<forall>n. enters W (f n))"
    and "objs v (objectKey (meta n)) = None \<Longrightarrow> Q None (put ((objs v)(objectKey (meta n) \<mapsto> n)) v) \<and>
      wt_Always W (put ((objs v)(objectKey (meta n) \<mapsto> n)) v)"
    and "\<And>s t. objs v (objectKey (meta n)) = Some s \<Longrightarrow> Q (Some (ApiError AlreadyExists t)) v"
  shows "endsIn W v (call (f n) ev) Q"
proof (rule after_call)
  show "enters W (f n)" using assms(1) by blast
next
  fix w
  assume "wt_Stored W w = v" "wt_Always W v"
  then show "Q (fst (f n w)) (wt_Stored W (snd (f n w))) \<and> wt_Always W (wt_Stored W (snd (f n w)))"
    using assms(1) [THEN conjunct1, unfolded creates_def, THEN spec [of _ n], THEN spec [of _ w]] assms(2,3)
    by (auto simp: Let_def split: option.splits)
qed

lemma after_upserts:
  assumes "upserts (wt_Stored W) f \<and> (\<forall>c g. enters W (f c g))"
    and "\<And>n. g (case so_ConfigMaps v (objectKey (cm_Meta c)) of None \<Rightarrow> c | Some s \<Rightarrow> s) = Inr n \<Longrightarrow>
      Q None (v\<lparr>so_ConfigMaps := (so_ConfigMaps v)(objectKey (cm_Meta c) \<mapsto> n)\<rparr>) \<and>
      wt_Always W (v\<lparr>so_ConfigMaps := (so_ConfigMaps v)(objectKey (cm_Meta c) \<mapsto> n)\<rparr>)"
    and "\<And>e. g (case so_ConfigMaps v (objectKey (cm_Meta c)) of None \<Rightarrow> c | Some s \<Rightarrow> s) = Inl e \<Longrightarrow>
      Q (Some e) v"
  shows "endsIn W v (call (f c g) ev) Q"
proof (rule after_call)
  show "enters W (f c g)" using assms(1) by blast
next
  fix w
  assume "wt_Stored W w = v" "wt_Always W v"
  then show "Q (fst (f c g w)) (wt_Stored W (snd (f c g w))) \<and> wt_Always W (wt_Stored W (snd (f c g w)))"
    using assms(1) [THEN conjunct1, unfolded upserts_def, THEN spec [of _ c], THEN spec [of _ g], THEN spec [of _ w]]
      assms(2,3)
    by (auto simp: Let_def split: sum.splits)
qed

lemma after_deletes:
  "deletes (wt_Stored W) f \<and> (\<forall>l. enters W (f l)) \<Longrightarrow>
   (\<And>r. Q r (v\<lparr>so_Leases := (so_Leases v)(objectKey (ls_Meta l) := None)\<rparr>) \<and>
     wt_Always W (v\<lparr>so_Leases := (so_Leases v)(objectKey (ls_Meta l) := None)\<rparr>)) \<Longrightarrow>
   endsIn W v (call (f l) ev) Q"
  by (rule after_call) (auto simp: deletes_def Let_def)

text \<open>The parts of the hypothesis, and the calls of the model under it.\<close>

lemma served:
  assumes "watches W K"
  shows "reads (wt_Stored W) so_Restores (k_GetRestore K) \<and> (\<forall>n. enters W (k_GetRestore K n))"
    "reads (wt_Stored W) so_Replicas (k_GetReplica K) \<and> (\<forall>n. enters W (k_GetReplica K n))"
    "reads (wt_Stored W) so_Deployments (k_GetDeployment K) \<and> (\<forall>n. enters W (k_GetDeployment K n))"
    "reads (wt_Stored W) so_ConfigMaps (k_GetConfigMap K) \<and> (\<forall>n. enters W (k_GetConfigMap K n))"
    "reads (wt_Stored W) so_Jobs (k_GetJob K) \<and> (\<forall>n. enters W (k_GetJob K n))"
    "reads (wt_Stored W) so_Leases (k_GetLease K) \<and> (\<forall>n. enters W (k_GetLease K n))"
    "reads (wt_Stored W) so_StatefulSets (k_GetStatefulSet K) \<and> (\<forall>n. enters W (k_GetStatefulSet K n))"
    "patches (wt_Stored W) so_Restores (\<lambda>x v. v\<lparr>so_Restores := x\<rparr>) lr_Meta mergeRestoreStatus
       (k_PatchRestoreStatus K) \<and> (\<forall>b n. enters W (k_PatchRestoreStatus K b n))"
    "patches (wt_Stored W) so_Replicas (\<lambda>x v. v\<lparr>so_Replicas := x\<rparr>) db_Meta mergeReplica
       (k_PatchReplica K) \<and> (\<forall>b n. enters W (k_PatchReplica K b n))"
    "patches (wt_Stored W) so_Replicas (\<lambda>x v. v\<lparr>so_Replicas := x\<rparr>) db_Meta mergeReplicaStatus
       (k_PatchReplicaStatus K) \<and> (\<forall>b n. enters W (k_PatchReplicaStatus K b n))"
    "patches (wt_Stored W) so_Deployments (\<lambda>x v. v\<lparr>so_Deployments := x\<rparr>) dp_Meta mergeDeployment
       (k_PatchDeployment K) \<and> (\<forall>b n. enters W (k_PatchDeployment K b n))"
    "patches (wt_Stored W) so_StatefulSets (\<lambda>x v. v\<lparr>so_StatefulSets := x\<rparr>) ss_Meta mergeStatefulSet
       (k_PatchStatefulSet K) \<and> (\<forall>b n. enters W (k_PatchStatefulSet K b n))"
    "upserts (wt_Stored W) (k_CreateOrUpdateConfigMap K) \<and> (\<forall>c g. enters W (k_CreateOrUpdateConfigMap K c g))"
    "creates (wt_Stored W) so_Jobs (\<lambda>x v. v\<lparr>so_Jobs := x\<rparr>) jb_Meta (k_CreateJob K) \<and>
       (\<forall>n. enters W (k_CreateJob K n))"
    "creates (wt_Stored W) so_Leases (\<lambda>x v. v\<lparr>so_Leases := x\<rparr>) ls_Meta (k_CreateLease K) \<and>
       (\<forall>n. enters W (k_CreateLease K n))"
    "deletes (wt_Stored W) (k_DeleteLease K) \<and> (\<forall>l. enters W (k_DeleteLease K l))"
    "quiet (wt_Stored W) (k_Now K) \<and> enters W (k_Now K)"
    "quiet (wt_Stored W) (k_ListPods K ns sel) \<and> enters W (k_ListPods K ns sel)"
    "quiet (wt_Stored W) (k_ListPodsBySelector K ns lab) \<and> enters W (k_ListPodsBySelector K ns lab)"
    "quiet (wt_Stored W) (k_StreamLogs K ns p prev) \<and> enters W (k_StreamLogs K ns p prev)"
    "quiet (wt_Stored W) (k_HttpGet K url) \<and> enters W (k_HttpGet K url)"
    "quiet (wt_Stored W) (k_RecordEvent K e) \<and> enters W (k_RecordEvent K e)"
  using assms by (simp_all add: watches_def serves_def entersAll_def del: split_paired_All)

lemmas after_api = served(1-7) [THEN after_reads] served(8-12) [THEN after_patches]
  served(13) [THEN after_upserts] served(14,15) [THEN after_creates] served(16) [THEN after_deletes]
  served(17) [THEN after_clock] served(18-22) [THEN after_quiet]

section \<open>Runs that preserve a property\<close>

definition keeps :: "'w watch \<Rightarrow> (store \<Rightarrow> bool) \<Rightarrow> ('w, 'e, 'a) prog \<Rightarrow> bool" where
  "keeps W J m \<longleftrightarrow> (\<forall>s. J (wt_Stored W (world s)) \<longrightarrow>
     (let s' = snd (run_state m s) in J (wt_Stored W (world s')) \<and> went W J (world s) (world s')))"

lemma went_mono: "went W G w w' \<Longrightarrow> (\<And>v. G v \<Longrightarrow> H v) \<Longrightarrow> went W H w w'"
  unfolding went_def list_all_iff by blast

lemma after_keeps:
  assumes "keeps W J m" "J v" "\<And>v. J v \<Longrightarrow> wt_Always W v"
  shows "endsIn W v m (\<lambda>_. J)"
  using assms(1,2) went_mono [of W J _ _ "wt_Always W", OF _ assms(3)] assms(3)
  by (auto simp: keeps_def endsIn_def Let_def split: prod.split)

lemma keeps_ret [keeps_intros]: "keeps W J (ret a)"
  by (simp add: keeps_def)

lemma keeps_bind [keeps_intros]:
  fixes m :: "('w, 'e, 'a) prog"
  assumes "keeps W J m" "\<And>a. keeps W J (f a)"
  shows "keeps W J (State_Monad.bind m f)"
  unfolding keeps_def
proof (intro allI impI)
  fix s :: "('w, 'e) sys"
  assume s: "J (wt_Stored W (world s))"
  obtain a s1 where 1: "run_state m s = (a, s1)" by fastforce
  obtain b s2 where 2: "run_state (f a) s1 = (b, s2)" by fastforce
  have m: "J (wt_Stored W (world s1))" "went W J (world s) (world s1)"
    using assms(1) s 1 by (auto simp: keeps_def Let_def dest!: spec [of _ s])
  then have "J (wt_Stored W (world s2))" "went W J (world s1) (world s2)"
    using assms(2) [of a] 2 by (auto simp: keeps_def Let_def dest!: spec [of _ s1])
  then show "let s' = snd (run_state (State_Monad.bind m f) s) in J (wt_Stored W (world s')) \<and>
      went W J (world s) (world s')"
    using 1 2 went_trans [OF m(2)] by simp
qed

lemma keeps_if [keeps_intros]:
  "(b \<Longrightarrow> keeps W J m) \<Longrightarrow> (\<not> b \<Longrightarrow> keeps W J n) \<Longrightarrow> keeps W J (if b then m else n)"
  by simp

lemma keeps_case_sum [keeps_intros]:
  "(\<And>e. x = Inl e \<Longrightarrow> keeps W J (f e)) \<Longrightarrow> (\<And>a. x = Inr a \<Longrightarrow> keeps W J (g a)) \<Longrightarrow>
   keeps W J (case x of Inl e \<Rightarrow> f e | Inr a \<Rightarrow> g a)"
  by (simp split: sum.split)

lemma keeps_case_option [keeps_intros]:
  "(x = None \<Longrightarrow> keeps W J m) \<Longrightarrow> (\<And>a. x = Some a \<Longrightarrow> keeps W J (g a)) \<Longrightarrow>
   keeps W J (case x of None \<Rightarrow> m | Some a \<Rightarrow> g a)"
  by (simp split: option.split)

lemma keeps_case_prod [keeps_intros]:
  "(\<And>a b. x = (a, b) \<Longrightarrow> keeps W J (f a b)) \<Longrightarrow> keeps W J (case x of (a, b) \<Rightarrow> f a b)"
  by (simp split: prod.split)

lemma keeps_case_workload [keeps_intros]:
  "(\<And>d. x = WDeployment d \<Longrightarrow> keeps W J (f d)) \<Longrightarrow> (\<And>s. x = WStatefulSet s \<Longrightarrow> keeps W J (g s)) \<Longrightarrow>
   keeps W J (case x of WDeployment d \<Rightarrow> f d | WStatefulSet s \<Rightarrow> g s)"
  by (cases x) simp_all

lemma keeps_let [keeps_intros]:
  "(\<And>x. x = t \<Longrightarrow> keeps W J (f x)) \<Longrightarrow> keeps W J (let x = t in f x)"
  by simp

lemma keeps_call:
  assumes "enters W f" "\<And>w. J (wt_Stored W w) \<Longrightarrow> J (wt_Stored W (snd (f w)))"
  shows "keeps W J (call f ev)" "keeps W J (silent f)"
  using assms(2) went_call [OF assms(1), of J]
  by (simp_all add: keeps_def split: prod.split) (metis snd_conv)+

lemma keeps_quiet: "quiet (wt_Stored W) f \<and> enters W f \<Longrightarrow> keeps W J (call f ev)"
  by (rule keeps_call(1)) (simp_all add: quiet_def)

lemma keeps_clock: "quiet (wt_Stored W) f \<and> enters W f \<Longrightarrow> keeps W J (silent f)"
  by (rule keeps_call(2)) (simp_all add: quiet_def)

lemma keeps_reads:
  assumes "reads (wt_Stored W) objs f \<and> (\<forall>n. enters W (f n))"
  shows "keeps W J (call (f n) ev)"
  using assms by (intro keeps_call(1)) (simp_all add: reads_def del: split_paired_All)

lemma keeps_patches:
  assumes "patches (wt_Stored W) objs put meta merge f \<and> (\<forall>b n. enters W (f b n))"
    and "\<And>v s. J v \<Longrightarrow> objs v (objectKey (meta n)) = Some s \<Longrightarrow>
      J (put ((objs v)(objectKey (meta n) \<mapsto> merge b n s)) v)"
  shows "keeps W J (call (f b n) ev)"
proof (rule keeps_call(1))
  show "enters W (f b n)" using assms(1) by blast
next
  fix w
  assume "J (wt_Stored W w)"
  then show "J (wt_Stored W (snd (f b n w)))"
    using assms(2) assms(1) [THEN conjunct1, unfolded patches_def, THEN spec [of _ b], THEN spec [of _ n], THEN spec [of _ w]]
    by (simp add: Let_def split: option.splits)
qed

lemma keeps_upserts:
  assumes "upserts (wt_Stored W) f \<and> (\<forall>c g. enters W (f c g))"
    and "\<And>v x. J v \<Longrightarrow> J (v\<lparr>so_ConfigMaps := (so_ConfigMaps v)(objectKey (cm_Meta c) \<mapsto> x)\<rparr>)"
  shows "keeps W J (call (f c g) ev)"
proof (rule keeps_call(1))
  show "enters W (f c g)" using assms(1) by blast
next
  fix w
  assume "J (wt_Stored W w)"
  then show "J (wt_Stored W (snd (f c g w)))"
    using assms(2) assms(1) [THEN conjunct1, unfolded upserts_def, THEN spec [of _ c], THEN spec [of _ g], THEN spec [of _ w]]
    by (simp add: Let_def split: sum.splits)
qed

lemmas keeps_api = served(1-7) [THEN keeps_reads] served(8-12) [THEN keeps_patches]
  served(13) [THEN keeps_upserts] served(17) [THEN keeps_clock] served(18-22) [THEN keeps_quiet]

end
