(* ===== verification/Litestream_Config.thy ===== *)
theory Litestream_Config
  imports Workload Samples
begin

text \<open>
  The pure parts of \<open>litestreamreplica_controller.go\<close>: the contents of \<open>litestream.yml\<close>, shared by
  both controllers, and the digest of the fields that affect injected containers.
\<close>

definition pausedConfig :: string where [const_defs]: "pausedConfig = ''dbs: []'' @ newline"
definition litestreamSidecar :: string where [const_defs]: "litestreamSidecar = ''litestream''"
definition litestreamConfigKey :: string where [const_defs]: "litestreamConfigKey = ''litestream.yml''"
definition replicaFinalizerName :: string where
  [const_defs]: "replicaFinalizerName = ''litestream.io/replica-finalizer''"

section \<open>litestream.yml\<close>

definition yamlLine :: "string \<Rightarrow> string" where
  "yamlLine s = s @ newline"

definition endpointWithScheme :: "string \<Rightarrow> string" where
  "endpointWithScheme e =
     (if \<not> HasPrefix e ''http://'' \<and> \<not> HasPrefix e ''https://'' then ''http://'' @ e else e)"

definition s3ConfigLines :: "backupSpec \<Rightarrow> s3Destination \<Rightarrow> string list" where
  "s3ConfigLines backup s3 =
     [''    replica:'', ''      type: s3''] @
     (if s3_Endpoint s3 \<noteq> []
      then [''      endpoint: '' @ endpointWithScheme (s3_Endpoint s3), ''      force-path-style: true'']
      else []) @
     (if s3_Region s3 \<noteq> [] then [''      region: '' @ s3_Region s3] else []) @
     [''      bucket: '' @ s3_Bucket s3] @
     (if s3_Path s3 \<noteq> [] then [''      path: '' @ TrimRight (s3_Path s3) ''/''] else []) @
     (if rp_Duration (bk_Retention backup) \<noteq> []
      then [''      retention: '' @ rp_Duration (bk_Retention backup)] else []) @
     (if bk_SyncInterval backup \<noteq> [] then [''      sync-interval: '' @ bk_SyncInterval backup] else []) @
     (if bk_AutoRecover backup then [''      auto-recover: true''] else [])"

definition databaseFile :: "litestreamReplica \<Rightarrow> string" where
  "databaseFile db = sp_DatabasePath (db_Spec db) @ ''/'' @ sp_DatabaseName (db_Spec db)"

definition buildLitestreamConfigYAML :: "litestreamReplica \<Rightarrow> string" where
  "buildLitestreamConfigYAML db =
     concat (map yamlLine
       ([''addr: '' @ [dquote] @ '':9090'' @ [dquote], ''dbs:'', ''  - path: '' @ databaseFile db] @
        (case db_S3 db of
           Some s3 \<Rightarrow> if bk_Enabled (db_Backup db) then s3ConfigLines (db_Backup db) s3 else []
         | None \<Rightarrow> [])))"

definition buildLitestreamConfig :: "litestreamReplica \<Rightarrow> string" where
  "buildLitestreamConfig db = buildLitestreamConfigYAML db"

text \<open>The full configuration starts with its metrics address, so it is never the paused one.\<close>

lemma config_not_paused: "buildLitestreamConfigYAML db \<noteq> pausedConfig"
  by (simp add: buildLitestreamConfigYAML_def pausedConfig_def yamlLine_def)

lemma endpointWithScheme_cases:
  "HasPrefix (endpointWithScheme e) ''http://'' \<or> HasPrefix (endpointWithScheme e) ''https://''"
  by (auto simp: endpointWithScheme_def HasPrefix_def)

lemma endpointWithScheme_idem [simp]:
  "endpointWithScheme (endpointWithScheme e) = endpointWithScheme e"
  using endpointWithScheme_cases [of e] by (auto simp: endpointWithScheme_def [of "endpointWithScheme e"])

section \<open>The injection digest\<close>

definition hashLine :: "string \<Rightarrow> string \<Rightarrow> string" where
  "hashLine key value = key @ ''='' @ value @ newline"

text \<open>What is written to the hash, in order.\<close>

definition injectionSpecInput :: "litestreamReplica \<Rightarrow> string" where
  "injectionSpecInput db =
     hashLine ''image'' (sp_Image (db_Spec db)) @
     hashLine ''recovery.mode'' (rc_Mode (sp_Recovery (db_Spec db))) @
     hashLine ''databaseName'' (sp_DatabaseName (db_Spec db)) @
     hashLine ''databasePath'' (sp_DatabasePath (db_Spec db)) @
     hashLine ''backup.enabled'' (fmt_t (bk_Enabled (db_Backup db))) @
     (case db_S3 db of
        Some s3 \<Rightarrow>
          hashLine ''s3.endpoint'' (s3_Endpoint s3) @ hashLine ''s3.bucket'' (s3_Bucket s3) @
          hashLine ''s3.path'' (s3_Path s3) @ hashLine ''s3.secretRef'' (s3_SecretRef s3)
      | None \<Rightarrow> []) @
     hashLine ''backup.logLevel'' (bk_LogLevel (db_Backup db)) @
     hashLine ''backup.syncInterval'' (bk_SyncInterval (db_Backup db)) @
     hashLine ''bootstrap.sql'' (bs_SQL (sp_Bootstrap (db_Spec db))) @
     (case sp_RunAsUser (db_Spec db) of Some u \<Rightarrow> hashLine ''runAsUser'' (fmt_d u) | None \<Rightarrow> []) @
     (case sp_RunAsGroup (db_Spec db) of Some g \<Rightarrow> hashLine ''runAsGroup'' (fmt_d g) | None \<Rightarrow> [])"

definition injectionSpecHash :: "lib \<Rightarrow> litestreamReplica \<Rightarrow> string" where
  "injectionSpecHash L db = take 16 (fmt_x (l_Sum256 L (injectionSpecInput db)))"

text \<open>Lines without a line break inside them can be read back from the input one at a time.\<close>

lemma line_cancel:
  assumes "CHR 0x0A \<notin> set v" "CHR 0x0A \<notin> set v'"
  shows "hashLine k v @ r = hashLine k v' @ r' \<longleftrightarrow> v = v' \<and> r = r'"
proof
  assume "hashLine k v @ r = hashLine k v' @ r'"
  then have "v @ CHR 0x0A # r = v' @ CHR 0x0A # r'" by (simp add: hashLine_def newline_def)
  then have "Cut (v @ CHR 0x0A # r) (CHR 0x0A) = Cut (v' @ CHR 0x0A # r') (CHR 0x0A)" by simp
  then show "v = v' \<and> r = r'" using assms by (simp add: Cut_found)
qed simp

lemma fmt_t_inj [simp]: "fmt_t a = fmt_t b \<longleftrightarrow> a = b"
  by (auto simp: fmt_t_def)

lemma fmt_t_no_newline [simp]: "CHR 0x0A \<notin> set (fmt_t b)"
  by (simp add: fmt_t_def)

definition oneLine :: "string \<Rightarrow> bool" where
  "oneLine s \<longleftrightarrow> CHR 0x0A \<notin> set s"

text \<open>The fields before the bootstrap script, and the condition that each is a single line.\<close>

definition oneLineFields :: "litestreamReplica \<Rightarrow> bool" where
  "oneLineFields db \<longleftrightarrow>
     oneLine (sp_Image (db_Spec db)) \<and> oneLine (rc_Mode (sp_Recovery (db_Spec db))) \<and>
     oneLine (sp_DatabaseName (db_Spec db)) \<and> oneLine (sp_DatabasePath (db_Spec db)) \<and>
     oneLine (bk_LogLevel (db_Backup db)) \<and> oneLine (bk_SyncInterval (db_Backup db)) \<and>
     (\<forall>s3. db_S3 db = Some s3 \<longrightarrow> oneLine (s3_Endpoint s3) \<and> oneLine (s3_Bucket s3) \<and>
        oneLine (s3_Path s3) \<and> oneLine (s3_SecretRef s3))"

definition s3Key :: "s3Destination \<Rightarrow> string \<times> string \<times> string \<times> string" where
  "s3Key s3 = (s3_Endpoint s3, s3_Bucket s3, s3_Path s3, s3_SecretRef s3)"

definition digestIds :: "litestreamReplica \<Rightarrow> int option \<times> int option" where
  "digestIds db = (sp_RunAsUser (db_Spec db), sp_RunAsGroup (db_Spec db))"

definition digestSQL :: "litestreamReplica \<Rightarrow> string" where
  "digestSQL db = bs_SQL (sp_Bootstrap (db_Spec db))"

text \<open>Every field that the input names: those before the script, the script, and the two identities.\<close>

definition digestFields where
  "digestFields db =
     (sp_Image (db_Spec db), rc_Mode (sp_Recovery (db_Spec db)), sp_DatabaseName (db_Spec db),
      sp_DatabasePath (db_Spec db), bk_Enabled (db_Backup db), map_option s3Key (db_S3 db),
      bk_LogLevel (db_Backup db), bk_SyncInterval (db_Backup db), digestSQL db, digestIds db)"

definition idLines :: "litestreamReplica \<Rightarrow> string" where
  "idLines db =
     (case sp_RunAsUser (db_Spec db) of Some u \<Rightarrow> hashLine ''runAsUser'' (fmt_d u) | None \<Rightarrow> []) @
     (case sp_RunAsGroup (db_Spec db) of Some g \<Rightarrow> hashLine ''runAsGroup'' (fmt_d g) | None \<Rightarrow> [])"

definition scriptLines :: "litestreamReplica \<Rightarrow> string" where
  "scriptLines db = hashLine ''bootstrap.sql'' (digestSQL db) @ idLines db"

lemma idLines_inj: "idLines db = idLines db' \<longleftrightarrow> digestIds db = digestIds db'"
proof -
  have [simp]: "hashLine k v \<noteq> []" "[] \<noteq> hashLine k v" for k v
    by (simp_all add: hashLine_def)
  have [simp]: "hashLine k v = hashLine k v' \<longleftrightarrow> v = v'" for k v v'
    by (simp add: hashLine_def)
  have [simp]: "hashLine ''runAsUser'' v @ r \<noteq> hashLine ''runAsGroup'' v' @ r'"
    "hashLine ''runAsUser'' v @ r \<noteq> hashLine ''runAsGroup'' v'"
    "hashLine ''runAsUser'' v \<noteq> hashLine ''runAsGroup'' v' @ r'"
    "hashLine ''runAsUser'' v \<noteq> hashLine ''runAsGroup'' v'" for v v' r r'
    by (simp_all add: hashLine_def)
  note [simp] = this [symmetric]
  note [simp] = line_cancel line_cancel [of _ _ _ "[]", simplified] line_cancel [of _ _ _ _ "[]", simplified]
  show ?thesis
    by (auto simp: idLines_def digestIds_def split: option.splits)
qed

text \<open>
  The script may have several lines, and then its last ones could be those of an identity. It is
  told apart when it has one line in both resources, or when the identities are the same in both.
\<close>

definition scriptsComparable :: "litestreamReplica \<Rightarrow> litestreamReplica \<Rightarrow> bool" where
  "scriptsComparable db db' \<longleftrightarrow>
     oneLine (digestSQL db) \<and> oneLine (digestSQL db') \<or> digestIds db = digestIds db'"

lemma scriptLines_inj:
  assumes "scriptsComparable db db'" "scriptLines db = scriptLines db'"
  shows "digestSQL db = digestSQL db' \<and> digestIds db = digestIds db'"
proof (cases "digestIds db = digestIds db'")
  case True
  then have "idLines db = idLines db'" by (simp add: idLines_inj)
  then show ?thesis using assms(2) True by (simp add: scriptLines_def hashLine_def)
next
  case False
  then have "oneLine (digestSQL db)" "oneLine (digestSQL db')"
    using assms(1) by (auto simp: scriptsComparable_def)
  then show ?thesis
    using assms(2) idLines_inj line_cancel by (auto simp: scriptLines_def oneLine_def)
qed

text \<open>The boundary of that: a script that ends in the line of an identity.\<close>

lemma scriptLines_collision:
  assumes "digestSQL db = sql @ newline @ ''runAsUser='' @ fmt_d u" "digestIds db = (None, None)"
    and "digestSQL db' = sql" "digestIds db' = (Some u, None)"
  shows "scriptLines db = scriptLines db'"
  using assms
  by (simp add: scriptLines_def idLines_def digestIds_def hashLine_def)

lemma injectionSpecInput_split:
  "injectionSpecInput db =
     hashLine ''image'' (sp_Image (db_Spec db)) @
     hashLine ''recovery.mode'' (rc_Mode (sp_Recovery (db_Spec db))) @
     hashLine ''databaseName'' (sp_DatabaseName (db_Spec db)) @
     hashLine ''databasePath'' (sp_DatabasePath (db_Spec db)) @
     hashLine ''backup.enabled'' (fmt_t (bk_Enabled (db_Backup db))) @
     (case db_S3 db of
        Some s3 \<Rightarrow>
          hashLine ''s3.endpoint'' (s3_Endpoint s3) @ hashLine ''s3.bucket'' (s3_Bucket s3) @
          hashLine ''s3.path'' (s3_Path s3) @ hashLine ''s3.secretRef'' (s3_SecretRef s3)
      | None \<Rightarrow> []) @
     hashLine ''backup.logLevel'' (bk_LogLevel (db_Backup db)) @
     hashLine ''backup.syncInterval'' (bk_SyncInterval (db_Backup db)) @ scriptLines db"
  by (simp add: injectionSpecInput_def scriptLines_def idLines_def digestSQL_def)

lemma different_keys:
  "hashLine ''backup.logLevel'' v @ r \<noteq> hashLine ''s3.endpoint'' v' @ r'"
  by (simp add: hashLine_def)

lemma input_digestFields:
  assumes "oneLineFields db" "oneLineFields db'" "scriptsComparable db db'"
    and eq: "injectionSpecInput db = injectionSpecInput db'"
  shows "digestFields db = digestFields db'"
proof -
  note [simp] = line_cancel different_keys different_keys [symmetric]
  note split = eq [unfolded injectionSpecInput_split] assms(1,2) [unfolded oneLineFields_def oneLine_def]
  have "scriptLines db = scriptLines db' \<and> map_option s3Key (db_S3 db) = map_option s3Key (db_S3 db')"
    using split by (cases "db_S3 db"; cases "db_S3 db'") (simp_all add: s3Key_def)
  moreover have "sp_Image (db_Spec db) = sp_Image (db_Spec db')"
    "rc_Mode (sp_Recovery (db_Spec db)) = rc_Mode (sp_Recovery (db_Spec db'))"
    "sp_DatabaseName (db_Spec db) = sp_DatabaseName (db_Spec db')"
    "sp_DatabasePath (db_Spec db) = sp_DatabasePath (db_Spec db')"
    "bk_Enabled (db_Backup db) = bk_Enabled (db_Backup db')"
    "bk_LogLevel (db_Backup db) = bk_LogLevel (db_Backup db')"
    "bk_SyncInterval (db_Backup db) = bk_SyncInterval (db_Backup db')"
    using split by (cases "db_S3 db"; cases "db_S3 db'"; simp)+
  ultimately show ?thesis
    using scriptLines_inj [OF assms(3)] by (simp add: digestFields_def)
qed

text \<open>The input names neither the container selection, nor the resources, nor the bootstrap image.\<close>

definition outsideDigest ::
  "string \<Rightarrow> resourceRequirements option \<Rightarrow> string \<Rightarrow> litestreamReplica \<Rightarrow> litestreamReplica" where
  "outsideDigest c res img db = db\<lparr>db_Spec := (db_Spec db)\<lparr>
     sp_Container := c,
     sp_Backup := (sp_Backup (db_Spec db))\<lparr>bk_Resources := res\<rparr>,
     sp_Bootstrap := (sp_Bootstrap (db_Spec db))\<lparr>bs_Image := img\<rparr>\<rparr>\<rparr>"

lemma input_outsideDigest: "injectionSpecInput (outsideDigest c res img db) = injectionSpecInput db"
  by (simp add: injectionSpecInput_def outsideDigest_def)

end
