(* ===== verification/Replica_Controller.thy ===== *)
theory Replica_Controller
  imports Litestream_Config
begin

text \<open>
  The LitestreamReplica reconciler (\<open>litestreamreplica_controller.go\<close>): the two ConfigMaps, the
  annotations of the target, the status with its conditions, finalization, and the functions that
  map watched objects to reconcile requests. Go mutates \<open>db\<close> in place; here each step returns the
  updated resource. A status patch is computed against the copy taken at the start of
  \<open>updateStatus\<close>.
\<close>

section \<open>Conditions\<close>

definition setCondition ::
  "lib \<Rightarrow> condition list \<Rightarrow> string \<Rightarrow> string \<Rightarrow> string \<Rightarrow> string \<Rightarrow> int \<Rightarrow> instant \<Rightarrow> condition list" where
  "setCondition L conditions condType status reason message gen t =
     l_SetStatusCondition L conditions
       \<lparr>cd_Type = condType, cd_Status = status, cd_ObservedGeneration = gen,
        cd_LastTransitionTime = t, cd_Reason = reason, cd_Message = message\<rparr>"

text \<open>The call as the reconciler makes it, on the status of the resource.\<close>

definition markReplica ::
  "lib \<Rightarrow> instant \<Rightarrow> string \<Rightarrow> string \<Rightarrow> string \<Rightarrow> string \<Rightarrow> litestreamReplica \<Rightarrow> litestreamReplica" where
  "markReplica L t condType status reason message db =
     db\<lparr>db_Status := (db_Status db)\<lparr>rst_Conditions :=
       setCondition L (rst_Conditions (db_Status db)) condType status reason message
         (om_Generation (db_Meta db)) t\<rparr>\<rparr>"

definition unmarkReplica :: "lib \<Rightarrow> string \<Rightarrow> litestreamReplica \<Rightarrow> litestreamReplica" where
  "unmarkReplica L condType db =
     db\<lparr>db_Status := (db_Status db)\<lparr>rst_Conditions :=
       l_RemoveStatusCondition L (rst_Conditions (db_Status db)) condType\<rparr>\<rparr>"

section \<open>ConfigMaps\<close>

definition ownedConfigMap ::
  "lib \<Rightarrow> objectMeta \<Rightarrow> strmap \<Rightarrow> configMap \<Rightarrow> goerr + configMap" where
  "ownedConfigMap L owner data cm =
     (case l_SetControllerReference L owner (cm_Meta (cm\<lparr>cm_Data := data\<rparr>)) of
        Inl err \<Rightarrow> Inl err
      | Inr m \<Rightarrow> Inr (cm\<lparr>cm_Data := data, cm_Meta := m\<rparr>))"

definition namedConfigMap :: "string \<Rightarrow> string \<Rightarrow> configMap" where
  "namedConfigMap n ns = \<lparr>cm_Meta = emptyMeta\<lparr>om_Name := n, om_Namespace := ns\<rparr>, cm_Data = Map.empty\<rparr>"

definition isPaused :: "litestreamReplica \<Rightarrow> bool" where
  "isPaused db \<longleftrightarrow> lookup (db_Annotations db) pauseAnnotation = injectEnabled"

definition currentConfig :: "litestreamReplica \<Rightarrow> string" where
  "currentConfig db =
     (if lookup (db_Annotations db) pauseAnnotation = injectEnabled then pausedConfig
      else buildLitestreamConfig db)"

definition reconcileLitestreamConfig ::
  "'w kube \<Rightarrow> litestreamReplica \<Rightarrow> ('w, goerr option) handler" where
  "reconcileLitestreamConfig K db =
     createOrUpdateConfigMap K
       (namedConfigMap (db_Name db @ ''-litestream'') (db_Namespace db))
       (ownedConfigMap (k_Lib K) (db_Meta db) [litestreamConfigKey \<mapsto> currentConfig db])"

definition reconcileBootstrapConfig ::
  "'w kube \<Rightarrow> litestreamReplica \<Rightarrow> ('w, goerr + litestreamReplica) handler" where
  "reconcileBootstrapConfig K db =
     (if bs_SQL (sp_Bootstrap (db_Spec db)) = [] then ret (Inr db)
      else do {
        r \<leftarrow> createOrUpdateConfigMap K
          (namedConfigMap (db_Name db @ ''-bootstrap-sql'') (db_Namespace db))
          (ownedConfigMap (k_Lib K) (db_Meta db)
             [''bootstrap.sql'' \<mapsto> bs_SQL (sp_Bootstrap (db_Spec db))]);
        case r of
          Some err \<Rightarrow> ret (Inl err)
        | None \<Rightarrow> do {
            t \<leftarrow> now K;
            ret (Inr (markReplica (k_Lib K) t ConditionBootstrapApplied ConditionTrue
              ''ConfigMapReady'' ''bootstrap SQL ConfigMap ready'' db))
          }
      })"

section \<open>Annotating the target\<close>

definition configRef :: "litestreamReplica \<Rightarrow> string" where
  "configRef db = db_Namespace db @ ''/'' @ db_Name db"

definition tooManyReplicasMessage :: "workloadTarget \<Rightarrow> string" where
  "tooManyReplicasMessage wt =
     ''target '' @ wt_typeName wt @ '' '' @ fmt_q (wt_name wt) @ '' has '' @
     fmt_d (desiredReplicas wt) @ '' replicas; Litestream requires exactly 1 writer''"

definition reconcileTargetAnnotation ::
  "'w kube \<Rightarrow> litestreamReplica \<Rightarrow> ('w, goerr option) handler" where
  "reconcileTargetAnnotation K db = do {
     res \<leftarrow> getTargetWorkload K db;
     case res of
       Inl err \<Rightarrow> ret (Some err)
     | Inr wt \<Rightarrow>
         if desiredReplicas wt > 1 then do {
           _ \<leftarrow> recordEvent K (replicaEvent db EventTypeWarning ''ReplicaCountExceeded''
             (tooManyReplicasMessage wt));
           ret None
         } else
           let ref = configRef db;
               hash = injectionSpecHash (k_Lib K) db;
               tmplAnnotations = podTemplateAnnotations wt;
               tmplLabels = podTemplateLabels wt
           in if lookup tmplAnnotations injectAnnotation = injectEnabled \<and>
                 lookup tmplAnnotations configAnnotation = ref \<and>
                 lookup tmplAnnotations injectionSpecHashAnnotation = hash \<and>
                 lookup tmplLabels injectAnnotation = injectEnabled
              then ret None
              else patchWorkloadPodTemplate K wt
                [injectAnnotation \<mapsto> injectEnabled, configAnnotation \<mapsto> ref,
                 injectionSpecHashAnnotation \<mapsto> hash]
                [injectAnnotation \<mapsto> injectEnabled]
   }"

section \<open>State of the sidecar\<close>

definition isFailureReason :: "string \<Rightarrow> bool" where
  "isFailureReason r \<longleftrightarrow>
     r \<in> {''CrashLoopBackOff'', ''OOMKilled'', ''Error'', ''ImagePullBackOff'', ''ErrImagePull''}"

record sidecarScan =
  sc_runningCount :: int
  sc_failedPods :: "string list"
  sc_noneFound :: bool

definition scanStatus :: "string \<Rightarrow> sidecarScan \<Rightarrow> containerStatus \<Rightarrow> sidecarScan" where
  "scanStatus podName acc cs =
     (if cs_Name cs \<noteq> litestreamSidecar then acc
      else let acc = acc\<lparr>sc_noneFound := False\<rparr>;
               acc = (if cs_Running cs then acc\<lparr>sc_runningCount := sc_runningCount acc + 1\<rparr> else acc);
               acc = (case cs_WaitingReason cs of
                 Some reason \<Rightarrow> if isFailureReason reason
                   then acc\<lparr>sc_failedPods := sc_failedPods acc @ [podName @ '' ('' @ reason @ '')'']\<rparr>
                   else acc
               | None \<Rightarrow> acc)
           in (case cs_TerminatedExitCode cs of
                 Some code \<Rightarrow> if code \<noteq> 0
                   then acc\<lparr>sc_failedPods := sc_failedPods acc @ [podName @ '' (exit '' @ fmt_d code @ '')'']\<rparr>
                   else acc
               | None \<Rightarrow> acc))"

definition scanPod :: "sidecarScan \<Rightarrow> pod \<Rightarrow> sidecarScan" where
  "scanPod acc pod = foldl (scanStatus (om_Name (pod_Meta pod))) acc (pod_ContainerStatuses pod)"

definition scanPods :: "pod list \<Rightarrow> sidecarScan" where
  "scanPods pods =
     foldl scanPod \<lparr>sc_runningCount = 0, sc_failedPods = [], sc_noneFound = True\<rparr> pods"

definition sidecarVerdict :: "sidecarScan \<Rightarrow> bool \<times> string" where
  "sidecarVerdict s =
     (if sc_noneFound s then (False, ''no pods with Litestream sidecar found; waiting for rollout'')
      else if sc_failedPods s \<noteq> [] then
        (False, ''Litestream sidecar unhealthy in pods: '' @ fmt_v_strings (sc_failedPods s))
      else if sc_runningCount s > 0 then
        (True, ''Litestream sidecar running in '' @ fmt_d (sc_runningCount s) @ '' pod(s)'')
      else (False, ''Litestream sidecar not yet running''))"

definition litestreamContainerState ::
  "'w kube \<Rightarrow> litestreamReplica \<Rightarrow> workloadTarget \<Rightarrow> ('w, goerr + bool \<times> string) handler" where
  "litestreamContainerState K db wt =
     (case selectorLabels wt of
        None \<Rightarrow> ret (Inl Panicked)
      | Some sel \<Rightarrow> do {
          r \<leftarrow> listPods K (db_Namespace db) sel;
          case r of
            Inl err \<Rightarrow> ret (Inr (False, ''failed to list pods: '' @ errText err))
          | Inr pods \<Rightarrow> ret (Inr (sidecarVerdict (scanPods pods)))
        })"

section \<open>Replication lag\<close>

definition metricName :: string where
  "metricName = ''litestream_replica_last_sync_seconds''"

text \<open>
  \<open>time.Unix\<close>: the nanoseconds may be any \<open>int64\<close>; the seconds are kept in an \<open>int64\<close> that counts
  from the year 1, and wrap. The sample is a \<open>float64\<close> of seconds: its integer part, and its
  fraction scaled to nanoseconds, both rounded towards zero.
\<close>

definition unixTime :: "int \<Rightarrow> int \<Rightarrow> instant" where
  "unixTime sec nsec =
     (wrapInt64 (sec + nsec div second + 62135596800) - 62135596800) * second + nsec mod second"

definition instantOfSeconds :: "lib \<Rightarrow> float64 \<Rightarrow> instant" where
  "instantOfSeconds L ts =
     (let int64 = toInt64 (l_Int64OutOfRange L) in
      unixTime (int64 ts) (int64 (mulFloat (subFloat ts (ofInt64 (int64 ts))) (Finite 1000000000 0))))"

fun parseMetrics :: "lib \<Rightarrow> string list \<Rightarrow> instant option" where
  "parseMetrics L [] = None"
| "parseMetrics L (line # rest) =
     (if HasPrefix line ''#'' \<or> \<not> Contains line metricName then parseMetrics L rest
      else let parts = Fields line in
        if length parts \<ge> 2 then
          (case l_ParseFloat L (last parts) of
             None \<Rightarrow> parseMetrics L rest
           | Some ts \<Rightarrow> Some (instantOfSeconds L ts))
        else parseMetrics L rest)"

definition fetchLastSyncTime :: "'w kube \<Rightarrow> string \<Rightarrow> ('w, goerr + instant) handler" where
  "fetchLastSyncTime K podIP = do {
     r \<leftarrow> httpGet K (''http://'' @ podIP @ '':9090/metrics'');
     case r of
       Inl err \<Rightarrow> ret (Inl err)
     | Inr body \<Rightarrow>
         (case parseMetrics (k_Lib K) (Split body (CHR 0x0A)) of
            Some t \<Rightarrow> ret (Inr t)
          | None \<Rightarrow> ret (Inl (Errorf (metricName @ '' metric not found''))))
   }"

definition runsSidecar :: "pod \<Rightarrow> bool" where
  "runsSidecar pod \<longleftrightarrow>
     list_ex (\<lambda>cs. cs_Name cs = litestreamSidecar \<and> cs_Running cs) (pod_ContainerStatuses pod)"

definition scrapeReplicationLag ::
  "'w kube \<Rightarrow> litestreamReplica \<Rightarrow> workloadTarget \<Rightarrow> ('w, goerr + instant) handler" where
  "scrapeReplicationLag K db wt =
     (case selectorLabels wt of
        None \<Rightarrow> ret (Inl Panicked)
      | Some sel \<Rightarrow> do {
          r \<leftarrow> listPods K (db_Namespace db) sel;
          case r of
            Inl err \<Rightarrow> ret (Inl (Wrapped ''listing pods'' err))
          | Inr pods \<Rightarrow>
              (case find (\<lambda>pod. pod_PodIP pod \<noteq> [] \<and> runsSidecar pod) pods of
                 Some pod \<Rightarrow> fetchLastSyncTime K (pod_PodIP pod)
               | None \<Rightarrow> ret (Inl (Errorf ''no running pod with Litestream sidecar found'')))
        })"

text \<open>\<open>time.Since\<close> saturates at the limits of \<open>int64\<close>; \<open>Truncate\<close> rounds towards zero.\<close>

definition since :: "instant \<Rightarrow> instant \<Rightarrow> int" where
  "since current t = max (- (2 ^ 63)) (min (2 ^ 63 - 1) (current - t))"

definition truncateToSecond :: "int \<Rightarrow> int" where
  "truncateToSecond d = (if d \<ge> 0 then d - d mod second else - (- d - (- d) mod second))"

section \<open>Rollout strategy\<close>

definition RollingUpdateType :: string where [const_defs]: "RollingUpdateType = ''RollingUpdate''"

definition isRolloutStrategySafe :: "deployment \<Rightarrow> bool" where
  "isRolloutStrategySafe deploy =
     (let strategy = dp_Strategy deploy in
      if ds_Type strategy \<noteq> [] \<and> ds_Type strategy \<noteq> RollingUpdateType then True
      else case ds_RollingUpdate strategy of
        None \<Rightarrow> False
      | Some ru \<Rightarrow>
          (case ru_MaxSurge ru of
             None \<Rightarrow> False
           | Some (IntVal n) \<Rightarrow> n = 0
           | Some (StrVal s) \<Rightarrow> s = ''0''))"

section \<open>updateStatus\<close>

text \<open>The refinement of the health by the scraped lag, where it is configured and healthy so far.\<close>

definition refineByLag ::
  "'w kube \<Rightarrow> litestreamReplica \<Rightarrow> workloadTarget \<Rightarrow> bool \<Rightarrow> string \<Rightarrow> string \<Rightarrow> string \<Rightarrow>
     ('w, goerr + litestreamReplica \<times> string \<times> string \<times> string) handler" where
  "refineByLag K db wt healthy condStatus replicationReason msg =
     (if \<not> healthy \<or> hs_MaxReplicationLag (sp_Health (db_Spec db)) = []
      then ret (Inr (db, condStatus, replicationReason, msg))
      else case l_ParseDuration (k_Lib K) (hs_MaxReplicationLag (sp_Health (db_Spec db))) of
        None \<Rightarrow> ret (Inr (db, condStatus, replicationReason, msg))
      | Some maxLag \<Rightarrow> do {
          r \<leftarrow> scrapeReplicationLag K db wt;
          case r of
            Inl err \<Rightarrow> if err = Panicked then ret (Inl err)
                        else ret (Inr (db, condStatus, replicationReason, msg))
          | Inr lastSync \<Rightarrow> do {
              current \<leftarrow> now K;
              let lag = since current lastSync;
                  shown = l_DurationString (k_Lib K) (truncateToSecond lag);
                  db = db\<lparr>db_Status := (db_Status db)\<lparr>
                    rst_LastSuccessfulReplicationTime := Some lastSync,
                    rst_ReplicationLag := shown\<rparr>\<rparr>
              in if lag > maxLag
                 then ret (Inr (db\<lparr>db_Status := (db_Status db)\<lparr>rst_BackupHealthy := False\<rparr>\<rparr>,
                   ConditionFalse, ''ReplicationLagExceeded'',
                   ''replication lag '' @ shown @ '' exceeds threshold '' @
                     l_DurationString (k_Lib K) maxLag))
                 else ret (Inr (db, condStatus, replicationReason, msg))
            }
        })"

definition updateBackupHealth ::
  "'w kube \<Rightarrow> litestreamReplica \<Rightarrow> workloadTarget \<Rightarrow> instant \<Rightarrow> ('w, goerr + litestreamReplica) handler" where
  "updateBackupHealth K db wt t =
     (let L = k_Lib K; prevHealthy = rst_BackupHealthy (db_Status db) in
      if bk_Enabled (db_Backup db) then do {
        st \<leftarrow> litestreamContainerState K db wt;
        case st of
          Inl err \<Rightarrow> ret (Inl err)
        | Inr (healthy, msg) \<Rightarrow>
            let db = db\<lparr>db_Status := (db_Status db)\<lparr>rst_BackupHealthy := healthy\<rparr>\<rparr>;
                condStatus = (if healthy then ConditionTrue else ConditionFalse);
                sidecarReason = (if healthy then ''SidecarRunning'' else ''SidecarUnhealthy'');
                db = markReplica L t ConditionSidecarReady condStatus sidecarReason msg db
            in do {
              r \<leftarrow> refineByLag K db wt healthy condStatus sidecarReason msg;
              case r of
                Inl err \<Rightarrow> ret (Inl err)
              | Inr (db, condStatus, replicationReason, msg) \<Rightarrow>
                  let db = markReplica L t ConditionReplicationHealthy condStatus replicationReason msg db
                  in if healthy \<and> \<not> prevHealthy then do {
                       _ \<leftarrow> recordEvent K (replicaEvent db EventTypeNormal ''ReplicationHealthy''
                         ''Litestream sidecar is running and replicating'');
                       ret (Inr db)
                     } else if \<not> healthy \<and> prevHealthy then do {
                       _ \<leftarrow> recordEvent K (replicaEvent db EventTypeWarning ''ReplicationUnhealthy'' msg);
                       ret (Inr db)
                     } else ret (Inr db)
            }
      } else
        let db = db\<lparr>db_Status := (db_Status db)\<lparr>rst_BackupHealthy := False\<rparr>\<rparr>;
            db = markReplica L t ConditionSidecarReady ConditionFalse ''BackupDisabled''
                   ''backup is not enabled in spec'' db;
            db = markReplica L t ConditionReplicationHealthy ConditionFalse ''BackupDisabled''
                   ''backup is not enabled in spec'' db
        in ret (Inr db))"

definition setPhase :: "string \<Rightarrow> bool \<Rightarrow> litestreamReplica \<Rightarrow> litestreamReplica" where
  "setPhase phase ready db = db\<lparr>db_Status := (db_Status db)\<lparr>rst_Phase := phase, rst_Ready := ready\<rparr>\<rparr>"

text \<open>The end of \<open>updateStatus\<close>: the paused phase, or the digest and the ready condition.\<close>

definition finishStatus ::
  "lib \<Rightarrow> instant \<Rightarrow> workloadTarget \<Rightarrow> litestreamReplica \<Rightarrow> litestreamReplica" where
  "finishStatus L t wt db =
     (let annotated = (lookup (podTemplateAnnotations wt) injectAnnotation = injectEnabled) in
      if isPaused db then
        markReplica L t ConditionReady ConditionFalse ''ReplicationPaused''
          ''replication is paused; waiting for pause annotation to be removed''
          (setPhase PhasePaused False db)
      else
        let db = db\<lparr>db_Status := (db_Status db)\<lparr>rst_InjectedSpecHash := injectionSpecHash L db\<rparr>\<rparr> in
        if annotated \<and> readyReplicas wt > 0 then
          markReplica L t ConditionReady ConditionTrue ''WorkloadReady''
            (''target '' @ wt_typeName wt @ '' has ready replicas'') (setPhase PhaseReady True db)
        else
          markReplica L t ConditionReady ConditionFalse ''WorkloadNotReady''
            (''waiting for target '' @ wt_typeName wt @ '' to have ready replicas'')
            (setPhase PhasePending False db))"

definition workloadNotFound :: "lib \<Rightarrow> instant \<Rightarrow> goerr \<Rightarrow> litestreamReplica \<Rightarrow> litestreamReplica" where
  "workloadNotFound L t err db =
     (let db = setPhase PhaseError False db;
          db = db\<lparr>db_Status := (db_Status db)\<lparr>rst_BackupHealthy := False\<rparr>\<rparr>;
          reason = ''WorkloadNotFound'';
          msg = ''target workload not found: '' @ errText err
      in markReplica L t ConditionReady ConditionFalse reason msg
          (markReplica L t ConditionReplicationHealthy ConditionFalse reason msg
            (markReplica L t ConditionSidecarReady ConditionFalse reason msg
              (markReplica L t ConditionTargetReady ConditionFalse reason msg db))))"

definition sendStatus ::
  "'w kube \<Rightarrow> litestreamReplica \<Rightarrow> litestreamReplica \<Rightarrow> ('w, goerr option) handler" where
  "sendStatus K base db = do {
     r \<leftarrow> patchReplicaStatus K base db;
     case r of Inl err \<Rightarrow> ret (Some err) | Inr _ \<Rightarrow> ret None
   }"

definition pausedCondition :: "lib \<Rightarrow> instant \<Rightarrow> litestreamReplica \<Rightarrow> litestreamReplica" where
  "pausedCondition L t db =
     (if isPaused db
      then markReplica L t ConditionReplicationPaused ConditionTrue ''PauseAnnotationSet''
             ''replication paused via annotation'' db
      else markReplica L t ConditionReplicationPaused ConditionFalse ''ReplicationActive''
             ''replication is active'' db)"

definition unsafeRolloutMessage :: "workloadTarget \<Rightarrow> string" where
  "unsafeRolloutMessage wt =
     ''target Deployment '' @ fmt_q (wt_name wt) @
     '' uses RollingUpdate strategy which can temporarily run two pods; '' @
     ''use Recreate or RollingUpdate with maxSurge=0 for single-writer SQLite safety''"

fun unsafeRollout :: "workloadTarget \<Rightarrow> bool" where
  "unsafeRollout (WDeployment d) = (\<not> isRolloutStrategySafe d)"
| "unsafeRollout (WStatefulSet s) = False"

fun clearUnsafeRollout :: "lib \<Rightarrow> workloadTarget \<Rightarrow> litestreamReplica \<Rightarrow> litestreamReplica" where
  "clearUnsafeRollout L (WDeployment d) db = unmarkReplica L ConditionUnsafeRolloutStrategy db"
| "clearUnsafeRollout L (WStatefulSet s) db = db"

definition observeGeneration :: "litestreamReplica \<Rightarrow> litestreamReplica" where
  "observeGeneration db =
     db\<lparr>db_Status := (db_Status db)\<lparr>rst_ObservedGeneration := om_Generation (db_Meta db)\<rparr>\<rparr>"

definition updateStatus :: "'w kube \<Rightarrow> litestreamReplica \<Rightarrow> ('w, goerr option) handler" where
  "updateStatus K base = do {
     res \<leftarrow> getTargetWorkload K base;
     t \<leftarrow> now K;
     let L = k_Lib K;
         db = observeGeneration base
     in case res of
       Inl err \<Rightarrow> sendStatus K base (workloadNotFound L t err db)
     | Inr wt \<Rightarrow>
         let db = markReplica L t ConditionTargetReady ConditionTrue ''WorkloadFound''
                    (''target '' @ wt_typeName wt @ '' '' @ fmt_q (wt_name wt) @ '' found'') db
         in if desiredReplicas wt > 1 then
              sendStatus K base
                (markReplica L t ConditionReplicaCountExceeded ConditionTrue ''TooManyReplicas''
                  (tooManyReplicasMessage wt) (setPhase PhaseError False db))
            else let db = unmarkReplica L ConditionReplicaCountExceeded db in
              if unsafeRollout wt then
                let db = markReplica L t ConditionUnsafeRolloutStrategy ConditionTrue
                           ''UnsafeRolloutStrategy'' (unsafeRolloutMessage wt)
                           (setPhase PhaseError False db)
                in do {
                  _ \<leftarrow> recordEvent K (replicaEvent db EventTypeWarning ''UnsafeRolloutStrategy''
                    (''target Deployment '' @ fmt_q (wt_name wt) @
                     '' uses unsafe rollout strategy for single-writer SQLite''));
                  sendStatus K base db
                }
              else let db = pausedCondition L t (clearUnsafeRollout L wt db) in do {
                r \<leftarrow> updateBackupHealth K db wt t;
                case r of
                  Inl err \<Rightarrow> ret (Some err)
                | Inr db \<Rightarrow> sendStatus K base (finishStatus L t wt db)
              }
   }"

section \<open>Finalization\<close>

definition handleReplicaFinalization ::
  "'w kube \<Rightarrow> litestreamReplica \<Rightarrow> ('w, result \<times> goerr option) handler" where
  "handleReplicaFinalization K db =
     (if \<not> l_ContainsFinalizer (k_Lib K) (db_Meta db) replicaFinalizerName
      then ret (emptyResult, None)
      else do {
        res \<leftarrow> getTargetWorkload K db;
        _ \<leftarrow> (case res of
               Inl err \<Rightarrow> ret ()
             | Inr wt \<Rightarrow> do {
                 removed \<leftarrow> removeWorkloadAnnotations K wt;
                 case removed of
                   Some err \<Rightarrow> ret ()
                 | None \<Rightarrow> recordEvent K (replicaEvent db EventTypeNormal ''ReplicaDeinstrumented''
                     (''Removed Litestream annotations from '' @ wt_typeName wt @ '' '' @ wt_name wt))
               });
        r \<leftarrow> updateReplica K (db\<lparr>db_Meta := l_RemoveFinalizer (k_Lib K) (db_Meta db) replicaFinalizerName\<rparr>);
        case r of
          Inl err \<Rightarrow> ret (emptyResult, Some err)
        | Inr _ \<Rightarrow> ret (emptyResult, None)
      })"

section \<open>Reconcile\<close>

definition statusSyncInterval :: int where
  "statusSyncInterval = 120 * second"

definition ReplicaReconcile :: "'w kube \<Rightarrow> nsname \<Rightarrow> ('w, result \<times> goerr option) handler" where
  "ReplicaReconcile K req = do {
     r \<leftarrow> getReplica K req;
     case r of
       Inl err \<Rightarrow> if IsNotFound err then ret (emptyResult, None) else ret (emptyResult, Some err)
     | Inr db \<Rightarrow>
         if \<not> IsZero (om_DeletionTimestamp (db_Meta db)) then handleReplicaFinalization K db
         else if \<not> l_ContainsFinalizer (k_Lib K) (db_Meta db) replicaFinalizerName then do {
           u \<leftarrow> updateReplica K (db\<lparr>db_Meta := l_AddFinalizer (k_Lib K) (db_Meta db) replicaFinalizerName\<rparr>);
           case u of
             Inl err \<Rightarrow> ret (emptyResult, Some err)
           | Inr _ \<Rightarrow> ret (requeue, None)
         } else do {
           c \<leftarrow> reconcileLitestreamConfig K db;
           case c of
             Some err \<Rightarrow> ret (emptyResult, Some err)
           | None \<Rightarrow> do {
               b \<leftarrow> reconcileBootstrapConfig K db;
               case b of
                 Inl err \<Rightarrow> ret (emptyResult, Some err)
               | Inr db \<Rightarrow> do {
                   a \<leftarrow> reconcileTargetAnnotation K db;
                   case a of
                     Some err \<Rightarrow> ret (emptyResult, Some err)
                   | None \<Rightarrow> do {
                       s \<leftarrow> updateStatus K db;
                       case s of
                         Some err \<Rightarrow> ret (emptyResult, Some err)
                       | None \<Rightarrow> ret (requeueAfter statusSyncInterval, None)
                     }
                 }
             }
         }
   }"

section \<open>From watched objects to requests\<close>

text \<open>The loop over the annotation value: split at the first slash, else the whole is the name.\<close>

fun splitRef :: "string \<Rightarrow> string \<Rightarrow> (string \<times> string) option" where
  "splitRef before [] = None"
| "splitRef before (c # rest) =
     (if c = CHR ''/'' then Some (rev before, rest) else splitRef (c # before) rest)"

definition podToLitestreamReplica :: "pod \<Rightarrow> nsname list" where
  "podToLitestreamReplica pod =
     (let ref = lookup (om_Annotations (pod_Meta pod)) configAnnotation in
      if ref = [] then []
      else let (ns, name) = (case splitRef [] ref of Some p \<Rightarrow> p | None \<Rightarrow> ([], ref));
               ns = (if ns = [] then om_Namespace (pod_Meta pod) else ns)
           in [(ns, name)])"

definition deploymentToLitestreamReplica :: "'w kube \<Rightarrow> deployment \<Rightarrow> ('w, nsname list) handler" where
  "deploymentToLitestreamReplica K dep = do {
     r \<leftarrow> listReplicas K (om_Namespace (dp_Meta dep));
     case r of
       Inl err \<Rightarrow> ret []
     | Inr items \<Rightarrow> ret (map (\<lambda>x. (db_Namespace x, db_Name x))
         (filter (\<lambda>x. sp_TargetDeployment (db_Spec x) = om_Name (dp_Meta dep)) items))
   }"

definition statefulSetToLitestreamReplica :: "'w kube \<Rightarrow> statefulSet \<Rightarrow> ('w, nsname list) handler" where
  "statefulSetToLitestreamReplica K ss = do {
     r \<leftarrow> listReplicas K (om_Namespace (ss_Meta ss));
     case r of
       Inl err \<Rightarrow> ret []
     | Inr items \<Rightarrow> ret (map (\<lambda>x. (db_Namespace x, db_Name x))
         (filter (\<lambda>x. sp_TargetStatefulSet (db_Spec x) = om_Name (ss_Meta ss)) items))
   }"

end
