(* ===== verification/Mounts.thy ===== *)
theory Mounts
  imports Workload
begin

text \<open>
  Which volume mount of a container holds the database directory. The webhook and the restore
  controller each search the mounts with a loop of their own; both must choose the longest mount
  path that is the directory or a parent of it. The locale \<open>mount_search\<close> is that contract, and
  inside it the choice is shown to be determined, so that two searches that satisfy it agree.
\<close>

definition covers :: "string \<Rightarrow> volumeMount \<Rightarrow> bool" where
  "covers dbPath vm \<longleftrightarrow> vm_MountPath vm = dbPath \<or> HasPrefix dbPath (vm_MountPath vm @ ''/'')"

lemma covers_prefix: "covers p vm \<Longrightarrow> take (length (vm_MountPath vm)) p = vm_MountPath vm"
  by (auto simp: covers_def HasPrefix_iff)

text \<open>Two covering mounts with paths of one length have the same path.\<close>

lemma covers_same_length:
  "covers p v \<Longrightarrow> covers p w \<Longrightarrow> length (vm_MountPath v) = length (vm_MountPath w) \<Longrightarrow>
     vm_MountPath v = vm_MountPath w"
  by (metis covers_prefix)

text \<open>
  The remainder of the directory below the mount: where the database directory lies inside the
  volume. It is empty exactly when the mount point is the directory itself.
\<close>

definition insideVolume :: "string \<Rightarrow> volumeMount \<Rightarrow> string" where
  "insideVolume dbPath vm = drop (length (vm_MountPath vm)) dbPath"

lemma insideVolume_eq: "covers p vm \<Longrightarrow> p = vm_MountPath vm @ insideVolume p vm"
  by (metis append_take_drop_id covers_prefix insideVolume_def)

lemma insideVolume_empty: "covers p vm \<Longrightarrow> insideVolume p vm = [] \<longleftrightarrow> vm_MountPath vm = p"
  by (metis append_Nil2 insideVolume_eq self_append_conv)

section \<open>The abstract choice\<close>

definition candidates :: "string \<Rightarrow> volumeMount list \<Rightarrow> volumeMount list" where
  "candidates p vms = filter (\<lambda>v. covers p v \<and> vm_MountPath v \<noteq> []) vms"

definition longest :: "volumeMount list \<Rightarrow> nat" where
  "longest vs = Max (set (map (\<lambda>v. length (vm_MountPath v)) vs))"

text \<open>The first candidate of maximal length.\<close>

definition longestMount :: "string \<Rightarrow> volumeMount list \<Rightarrow> volumeMount option" where
  "longestMount p vms =
     (let cs = candidates p vms in find (\<lambda>v. length (vm_MountPath v) = longest cs) cs)"

lemma longest_ge: "v \<in> set vs \<Longrightarrow> length (vm_MountPath v) \<le> longest vs"
  by (simp add: longest_def)

lemma longest_attained: "vs \<noteq> [] \<Longrightarrow> \<exists>v\<in>set vs. length (vm_MountPath v) = longest vs"
proof -
  assume "vs \<noteq> []"
  then have "longest vs \<in> set (map (\<lambda>v. length (vm_MountPath v)) vs)"
    unfolding longest_def by (intro Max_in) auto
  then show ?thesis by auto
qed

lemma longestMount_None: "longestMount p vms = None \<longleftrightarrow> candidates p vms = []"
  using longest_attained [of "candidates p vms"]
  by (auto simp: longestMount_def Let_def find_None_iff)

lemma longestMount_Some:
  "longestMount p vms = Some v \<Longrightarrow> v \<in> set vms \<and> covers p v \<and> vm_MountPath v \<noteq> [] \<and>
     (\<forall>w\<in>set vms. covers p w \<longrightarrow> length (vm_MountPath w) \<le> length (vm_MountPath v))"
proof -
  assume "longestMount p vms = Some v"
  then have v: "v \<in> set (candidates p vms)" "length (vm_MountPath v) = longest (candidates p vms)"
    by (auto simp: longestMount_def Let_def find_Some_iff)
  have "length (vm_MountPath w) \<le> length (vm_MountPath v)" if "w \<in> set vms" "covers p w" for w
  proof (cases "vm_MountPath w = []")
    case False
    with that have "w \<in> set (candidates p vms)" by (simp add: candidates_def)
    then show ?thesis using longest_ge v(2) by metis
  qed simp
  then show ?thesis using v(1) by (auto simp: candidates_def)
qed

section \<open>The loop\<close>

text \<open>
  The body of the loop keeps the best mount so far and the length of its path, and replaces it
  only by a strictly longer one. Both sources have this loop; \<open>keepLonger\<close> is its step.
\<close>

definition keepLonger ::
  "string \<Rightarrow> volumeMount option \<times> nat \<Rightarrow> volumeMount \<Rightarrow> volumeMount option \<times> nat" where
  "keepLonger p acc vm = (case acc of (bestMatch, bestLen) \<Rightarrow>
     if vm_MountPath vm = p \<or> HasPrefix p (vm_MountPath vm @ ''/'')
     then if length (vm_MountPath vm) > bestLen then (Some vm, length (vm_MountPath vm)) else acc
     else acc)"

definition scan_inv :: "string \<Rightarrow> volumeMount list \<Rightarrow> volumeMount option \<times> nat \<Rightarrow> bool" where
  "scan_inv p seen acc \<longleftrightarrow>
     (case acc of (None, n) \<Rightarrow> n = 0 \<and> candidates p seen = []
      | (Some v, n) \<Rightarrow> n = length (vm_MountPath v) \<and> longestMount p seen = Some v)"

lemma candidates_snoc:
  "candidates p (seen @ [vm]) =
     candidates p seen @ (if covers p vm \<and> vm_MountPath vm \<noteq> [] then [vm] else [])"
  by (simp add: candidates_def)

lemma find_append: "find P (xs @ ys) = (case find P xs of None \<Rightarrow> find P ys | Some x \<Rightarrow> Some x)"
  by (induction xs) auto

lemma longest_snoc:
  "vs \<noteq> [] \<Longrightarrow> longest (vs @ [v]) = max (longest vs) (length (vm_MountPath v))"
  by (simp add: longest_def max.commute)

text \<open>How the abstract choice changes when one more mount is seen.\<close>

lemma longestMount_snoc:
  "longestMount p (seen @ [vm]) =
     (if \<not> (covers p vm \<and> vm_MountPath vm \<noteq> []) then longestMount p seen
      else case longestMount p seen of None \<Rightarrow> Some vm
        | Some v \<Rightarrow> if length (vm_MountPath vm) > length (vm_MountPath v) then Some vm else Some v)"
proof (cases "covers p vm \<and> vm_MountPath vm \<noteq> []")
  case False
  then have "candidates p (seen @ [vm]) = candidates p seen" by (auto simp: candidates_snoc)
  with False show ?thesis by (auto simp: longestMount_def)
next
  case True
  let ?cs = "candidates p seen"
  show ?thesis
  proof (cases "longestMount p seen")
    case None
    then have "?cs = []" by (simp add: longestMount_None)
    with True None show ?thesis
      by (simp add: longestMount_def candidates_snoc longest_def)
  next
    case (Some v)
    then have ne: "?cs \<noteq> []" using longestMount_None [of p seen] by auto
    have v: "v \<in> set ?cs" "length (vm_MountPath v) = longest ?cs"
      using Some by (auto simp: longestMount_def Let_def find_Some_iff)
    have fv: "find (\<lambda>w. length (vm_MountPath w) = longest ?cs) ?cs = Some v"
      using Some by (simp add: longestMount_def Let_def)
    show ?thesis
    proof (cases "length (vm_MountPath vm) > length (vm_MountPath v)")
      case longer: True
      then have "find (\<lambda>w. length (vm_MountPath w) = length (vm_MountPath vm)) ?cs = None"
        using v(2) longest_ge [of _ ?cs] by (fastforce simp: find_None_iff)
      with True Some ne v longer show ?thesis
        by (simp add: longestMount_def Let_def candidates_snoc longest_snoc find_append max_def)
    next
      case shorter: False
      with True Some ne v fv show ?thesis
        by (simp add: longestMount_def Let_def candidates_snoc longest_snoc find_append max_def)
    qed
  qed
qed

lemma scan_inv_step: "scan_inv p seen acc \<Longrightarrow> scan_inv p (seen @ [vm]) (keepLonger p acc vm)"
proof (cases acc)
  case (Pair best n)
  assume inv: "scan_inv p seen acc"
  show ?thesis
  proof (cases best)
    case None
    with inv Pair have "n = 0" "longestMount p seen = None" "candidates p seen = []"
      by (auto simp: scan_inv_def longestMount_None)
    with None Pair show ?thesis
      by (auto simp: scan_inv_def keepLonger_def longestMount_snoc candidates_snoc covers_def)
  next
    case (Some v)
    with inv Pair have "n = length (vm_MountPath v)" "longestMount p seen = Some v"
      by (auto simp: scan_inv_def)
    with Some Pair show ?thesis
      by (auto simp: scan_inv_def keepLonger_def longestMount_snoc covers_def)
  qed
qed

lemma scan_inv_foldl:
  "scan_inv p seen acc \<Longrightarrow> scan_inv p (seen @ vms) (foldl (keepLonger p) acc vms)"
proof (induction vms arbitrary: seen acc)
  case (Cons vm vms)
  have "scan_inv p ((seen @ [vm]) @ vms) (foldl (keepLonger p) (keepLonger p acc vm) vms)"
    using Cons.prems by (intro Cons.IH scan_inv_step)
  then show ?case by simp
qed simp

lemma foldl_keepLonger: "fst (foldl (keepLonger p) (None, 0) vms) = longestMount p vms"
proof -
  have "scan_inv p [] (None, 0)" by (simp add: scan_inv_def candidates_def)
  then have "scan_inv p vms (foldl (keepLonger p) (None, 0) vms)"
    using scan_inv_foldl by fastforce
  then show ?thesis
    by (auto simp: scan_inv_def longestMount_None split: prod.splits option.splits)
       (metis longestMount_None)
qed

section \<open>The contract of a mount search\<close>

locale mount_search =
  fixes search :: "string \<Rightarrow> volumeMount list \<Rightarrow> volumeMount option"
  assumes search_covers: "search p vms = Some v \<Longrightarrow> v \<in> set vms \<and> covers p v \<and> vm_MountPath v \<noteq> []"
    and search_longest: "search p vms = Some v \<Longrightarrow> w \<in> set vms \<Longrightarrow> covers p w \<Longrightarrow>
      length (vm_MountPath w) \<le> length (vm_MountPath v)"
    and search_total: "w \<in> set vms \<Longrightarrow> covers p w \<Longrightarrow> vm_MountPath w \<noteq> [] \<Longrightarrow>
      \<exists>v. search p vms = Some v"
begin

text \<open>The chosen mount path depends on the mounts only, not on the search.\<close>

lemma search_path: "map_option vm_MountPath (search p vms) = map_option vm_MountPath (longestMount p vms)"
proof (cases "search p vms")
  case None
  then have "candidates p vms = []"
    using search_total by (fastforce simp: candidates_def filter_empty_conv)
  then show ?thesis using None by (simp add: longestMount_None [THEN iffD2])
next
  case (Some v)
  then have "v \<in> set (candidates p vms)" using search_covers by (simp add: candidates_def)
  then obtain w where w: "longestMount p vms = Some w"
    using longestMount_None [of p vms] by (cases "longestMount p vms") auto
  from longestMount_Some [OF w] search_covers [OF Some] search_longest [OF Some]
  have "length (vm_MountPath w) = length (vm_MountPath v)" by (meson le_antisym)
  then have "vm_MountPath w = vm_MountPath v"
    using covers_same_length longestMount_Some [OF w] search_covers [OF Some] by blast
  then show ?thesis using Some w by simp
qed

text \<open>No covering mount lies strictly between the chosen one and the database directory.\<close>

lemma search_nearest:
  assumes "search p vms = Some v" "w \<in> set vms" "covers p w"
  shows "\<exists>t. vm_MountPath v = vm_MountPath w @ t"
proof -
  have "length (vm_MountPath w) \<le> length (vm_MountPath v)"
    using assms by (rule search_longest)
  then have "take (length (vm_MountPath w)) (vm_MountPath v) = vm_MountPath w"
    using covers_prefix [OF assms(3)] covers_prefix [of p v] search_covers [OF assms(1)]
    by (metis min.absorb1 take_take)
  then show ?thesis by (metis append_take_drop_id)
qed

end

text \<open>With distinct mount paths (the API server rejects duplicates) two searches agree altogether.\<close>

locale two_searches = mount_search search + other: mount_search search'
  for search search' :: "string \<Rightarrow> volumeMount list \<Rightarrow> volumeMount option"
begin

lemma searches_agree_on_path:
  "map_option vm_MountPath (search p vms) = map_option vm_MountPath (search' p vms)"
  by (simp add: search_path other.search_path)

lemma searches_agree:
  assumes "distinct (map vm_MountPath vms)"
  shows "search p vms = search' p vms"
proof (cases "search p vms")
  case None
  then show ?thesis using searches_agree_on_path [of p vms] by simp
next
  case (Some v)
  then obtain w where w: "search' p vms = Some w" "vm_MountPath w = vm_MountPath v"
    using searches_agree_on_path [of p vms] by (metis (no_types) map_option_eq_Some option.simps(9))
  moreover have "v \<in> set vms" "w \<in> set vms"
    using Some w search_covers other.search_covers by blast+
  ultimately have "w = v" using assms by (metis distinct_map inj_onD)
  then show ?thesis using Some w by simp
qed

end

end
