(* ===== verification/Injector.thy ===== *)
theory Injector
  imports Mounts
begin

text \<open>
  \<open>internal/webhook/sidecar_injector.go\<close>: the mutating webhook that adds the Litestream sidecar and
  the init containers to a pod. The pod is updated in place by the code and returned updated here;
  an error stops the injection. The lookup of the custom resource is the only call to the cluster.
\<close>

section \<open>Constants\<close>

definition LitestreamDefaultImage :: string where
  [const_defs]: "LitestreamDefaultImage = ''litestream/litestream:0.5.14''"
definition litestreamContainerName :: string where
  [const_defs]: "litestreamContainerName = ''litestream''"
definition litestreamConfigVolume :: string where
  [const_defs]: "litestreamConfigVolume = ''litestream-config''"
definition litestreamConfigMount :: string where
  [const_defs]: "litestreamConfigMount = ''/etc/litestream''"
definition injectTrue :: string where [const_defs]: "injectTrue = ''true''"
definition dbBootstrapContainerName :: string where
  [const_defs]: "dbBootstrapContainerName = ''db-bootstrap''"
definition dbBootstrapSQLVolume :: string where
  [const_defs]: "dbBootstrapSQLVolume = ''db-bootstrap-sql''"
definition defaultEphemeralStorageLimit :: string where
  [const_defs]: "defaultEphemeralStorageLimit = ''1Gi''"
definition autoRestoreContainerName :: string where
  [const_defs]: "autoRestoreContainerName = ''litestream-restore''"

lemma container_names_distinct [simp]:
  "litestreamContainerName \<noteq> autoRestoreContainerName"
  "autoRestoreContainerName \<noteq> dbBootstrapContainerName"
  "dbBootstrapContainerName \<noteq> autoRestoreContainerName"
  "litestreamConfigVolume \<noteq> dbBootstrapSQLVolume"
  by (simp_all add: const_defs)

section \<open>The mount of the database directory\<close>

record resolvedMount =
  mt_volumeName :: string
  mt_mountPath :: string
  mt_subPath :: string

text \<open>One iteration of the loop of \<open>findVolumeForPath\<close>, over (\<open>bestMatch\<close>, \<open>bestLen\<close>).\<close>

fun findVolume_step ::
  "string \<Rightarrow> volumeMount option \<times> nat \<Rightarrow> volumeMount \<Rightarrow> volumeMount option \<times> nat" where
  "findVolume_step dbPath (bestMatch, bestLen) vm =
     (if vm_MountPath vm = dbPath \<or> HasPrefix dbPath (vm_MountPath vm @ ''/'') then
        if length (vm_MountPath vm) > bestLen then (Some vm, length (vm_MountPath vm))
        else (bestMatch, bestLen)
      else (bestMatch, bestLen))"

definition findVolume_scan :: "string \<Rightarrow> volumeMount list \<Rightarrow> volumeMount option" where
  "findVolume_scan dbPath vms = fst (foldl (findVolume_step dbPath) (None, 0) vms)"

text \<open>The container that is searched: the named one, or the first.\<close>

definition findTargetContainer :: "container list \<Rightarrow> string \<Rightarrow> container option" where
  "findTargetContainer cs containerName =
     (if containerName \<noteq> [] then find (\<lambda>c. ct_Name c = containerName) cs
      else case cs of [] \<Rightarrow> None | c # _ \<Rightarrow> Some c)"

definition findVolumeForPath :: "pod \<Rightarrow> string \<Rightarrow> string \<Rightarrow> goerr + resolvedMount" where
  "findVolumeForPath pod dbPath containerName =
     (if ps_Containers (pod_Spec pod) = [] then Inl (Errorf ''pod has no containers'')
      else case findTargetContainer (ps_Containers (pod_Spec pod)) containerName of
        None \<Rightarrow> Inl (Errorf (''container '' @ fmt_q containerName @ '' not found in pod spec''))
      | Some targetContainer \<Rightarrow>
          (case findVolume_scan dbPath (ct_VolumeMounts targetContainer) of
             None \<Rightarrow> Inl (Errorf (''no volume mount in container '' @ fmt_q (ct_Name targetContainer) @
               '' covers database path '' @ fmt_q dbPath @
               ''; ensure the application mounts a volume at '' @ fmt_q dbPath))
           | Some bestMatch \<Rightarrow> Inr \<lparr>mt_volumeName = vm_Name bestMatch,
               mt_mountPath = vm_MountPath bestMatch, mt_subPath = vm_SubPath bestMatch\<rparr>))"

lemma findVolume_step_eq: "findVolume_step p acc vm = keepLonger p acc vm"
  by (cases acc) (simp add: keepLonger_def)

lemma findVolume_scan_eq: "findVolume_scan p vms = longestMount p vms"
proof -
  have "findVolume_step p = keepLonger p" by (intro ext) (rule findVolume_step_eq)
  then show ?thesis by (simp add: findVolume_scan_def foldl_keepLonger)
qed

interpretation webhook_search: mount_search findVolume_scan
proof unfold_locales
  fix p vms v w
  show "findVolume_scan p vms = Some v \<Longrightarrow> v \<in> set vms \<and> covers p v \<and> vm_MountPath v \<noteq> []"
    using longestMount_Some by (auto simp: findVolume_scan_eq)
  show "findVolume_scan p vms = Some v \<Longrightarrow> w \<in> set vms \<Longrightarrow> covers p w \<Longrightarrow>
      length (vm_MountPath w) \<le> length (vm_MountPath v)"
    using longestMount_Some by (auto simp: findVolume_scan_eq)
  show "w \<in> set vms \<Longrightarrow> covers p w \<Longrightarrow> vm_MountPath w \<noteq> [] \<Longrightarrow> \<exists>v. findVolume_scan p vms = Some v"
    using longestMount_None [of p vms]
    by (cases "longestMount p vms") (auto simp: findVolume_scan_eq candidates_def filter_empty_conv)
qed

section \<open>Containers to inject\<close>

definition s3CredsEnvVars :: "string \<Rightarrow> envVar list" where
  "s3CredsEnvVars secretRef =
     [\<lparr>ev_Name = ''LITESTREAM_ACCESS_KEY_ID'', ev_Value = [],
       ev_SecretKeyRef = Some \<lparr>sk_Name = secretRef, sk_Key = ''ACCESS_KEY_ID''\<rparr>\<rparr>,
      \<lparr>ev_Name = ''LITESTREAM_SECRET_ACCESS_KEY'', ev_Value = [],
       ev_SecretKeyRef = Some \<lparr>sk_Name = secretRef, sk_Key = ''SECRET_ACCESS_KEY''\<rparr>\<rparr>]"

definition litestreamResources :: "litestreamReplica \<Rightarrow> resourceRequirements" where
  "litestreamResources db =
     (case bk_Resources (db_Backup db) of
        Some r \<Rightarrow> r
      | None \<Rightarrow> \<lparr>rr_Limits = [''ephemeral-storage'' \<mapsto> defaultEphemeralStorageLimit],
                 rr_Requests = Map.empty\<rparr>)"

text \<open>The mount of the data volume, with the sub-path of the application's mount when it has one.\<close>

definition dataMount :: "resolvedMount \<Rightarrow> volumeMount" where
  "dataMount mount =
     (let m = \<lparr>vm_Name = mt_volumeName mount, vm_MountPath = mt_mountPath mount, vm_SubPath = [],
               vm_ReadOnly = False\<rparr>
      in if mt_subPath mount \<noteq> [] then m\<lparr>vm_SubPath := mt_subPath mount\<rparr> else m)"

lemma dataMount_simps [simp]:
  "vm_Name (dataMount m) = mt_volumeName m" "vm_MountPath (dataMount m) = mt_mountPath m"
  "vm_SubPath (dataMount m) = mt_subPath m" "vm_ReadOnly (dataMount m) = False"
  by (simp_all add: dataMount_def Let_def)

definition configMountRO :: volumeMount where
  "configMountRO = \<lparr>vm_Name = litestreamConfigVolume, vm_MountPath = litestreamConfigMount,
     vm_SubPath = [], vm_ReadOnly = True\<rparr>"

definition imageOrDefault :: "litestreamReplica \<Rightarrow> string" where
  "imageOrDefault db =
     (if sp_Image (db_Spec db) = [] then LitestreamDefaultImage else sp_Image (db_Spec db))"

definition buildSidecar :: "litestreamReplica \<Rightarrow> resolvedMount \<Rightarrow> container" where
  "buildSidecar db mount =
     (let sidecar = emptyContainer\<lparr>
            ct_Name := litestreamContainerName,
            ct_Image := imageOrDefault db,
            ct_Args := [''replicate'', ''-config'', ''/etc/litestream/litestream.yml''],
            ct_Ports := [\<lparr>cp_Name = ''metrics'', cp_ContainerPort = 9090, cp_Protocol = ''TCP''\<rparr>],
            ct_VolumeMounts := [dataMount mount, configMountRO],
            ct_Resources := litestreamResources db\<rparr>;
          sidecar = (case db_S3 db of
            Some s3 \<Rightarrow> if bk_Enabled (db_Backup db)
                       then sidecar\<lparr>ct_Env := s3CredsEnvVars (s3_SecretRef s3)\<rparr> else sidecar
          | None \<Rightarrow> sidecar)
      in if bk_LogLevel (db_Backup db) \<noteq> []
         then sidecar\<lparr>ct_Env := ct_Env sidecar @
                [\<lparr>ev_Name = ''LITESTREAM_LOG_LEVEL'', ev_Value = bk_LogLevel (db_Backup db),
                  ev_SecretKeyRef = None\<rparr>]\<rparr>
         else sidecar)"

definition securityContextOf :: "int option \<Rightarrow> int option \<Rightarrow> securityContext option" where
  "securityContextOf runAsUser runAsGroup =
     (if runAsUser \<noteq> None \<or> runAsGroup \<noteq> None
      then Some \<lparr>sc_RunAsUser = runAsUser, sc_RunAsGroup = runAsGroup\<rparr> else None)"

definition buildLitestreamInitContainer ::
  "string \<Rightarrow> string \<Rightarrow> string \<Rightarrow> resolvedMount \<Rightarrow> envVar list \<Rightarrow> int option \<Rightarrow> int option \<Rightarrow> container" where
  "buildLitestreamInitContainer name script img mount envVars runAsUser runAsGroup =
     emptyContainer\<lparr>ct_Name := name, ct_Image := img, ct_Command := [''sh'', ''-c'', script],
       ct_Env := envVars, ct_VolumeMounts := [dataMount mount, configMountRO],
       ct_SecurityContext := securityContextOf runAsUser runAsGroup\<rparr>"

subsection \<open>Scripts\<close>

text \<open>A script is its lines, each ended by a line break; \<open>qq\<close> puts text between double quotes.\<close>

definition unlines :: "string list \<Rightarrow> string" where
  "unlines ls = concat (map (\<lambda>l. l @ newline) ls)"

definition qq :: "string \<Rightarrow> string" where
  "qq s = dquote # s @ [dquote]"

definition dbFullPath :: "litestreamReplica \<Rightarrow> string" where
  "dbFullPath db = sp_DatabasePath (db_Spec db) @ ''/'' @ sp_DatabaseName (db_Spec db)"

definition autoRestoreScript :: "string \<Rightarrow> string" where
  "autoRestoreScript p = newline @ unlines [
     ''DB_PATH='' @ qq p,
     ''if [ -f '' @ qq ''${DB_PATH}'' @ '' ]; then'',
     ''  echo '' @ qq ''litestream-restore: database exists, skipping restore'',
     ''  exit 0'',
     ''fi'',
     ''echo '' @ qq ''litestream-restore: database missing, attempting restore from backup...'',
     ''litestream restore '' @ [backslash],
     ''  -if-db-not-exists '' @ [backslash],
     ''  -if-replica-exists '' @ [backslash],
     ''  -integrity-check quick '' @ [backslash],
     ''  -config /etc/litestream/litestream.yml '' @ [backslash],
     ''  '' @ qq ''${DB_PATH}'',
     ''RESTORE_EXIT=$?'',
     ''if [ $RESTORE_EXIT -ne 0 ]; then'',
     ''  echo '' @ qq (''litestream-restore: FAILED '' @ emdash @
        '' litestream restore exited with code ${RESTORE_EXIT}''),
     ''  echo '' @ qq ''litestream-restore: the application will NOT start against unverified data.'',
     ''  echo '' @ qq ''Options:'',
     ''  echo '' @ qq ''  1. Check S3 credentials and connectivity.'',
     ''  echo '' @ qq ''  2. Use a LitestreamRestore CR with a different -timestamp.'',
     ''  echo '' @ qq ''  3. Set annotation litestream.io/skip-archive-check=true to start fresh.'',
     ''  exit 1'',
     ''fi'',
     ''echo '' @ qq ''litestream-restore: restore and integrity check passed'',
     ''exit 0'']"

definition bootstrapScript :: "string \<Rightarrow> string" where
  "bootstrapScript p = newline @ unlines [
     ''DB_PATH='' @ qq p,
     ''if [ -f '' @ qq ''${DB_PATH}'' @ '' ]; then'',
     ''  echo '' @ qq ''db-bootstrap: database already exists, skipping bootstrap'',
     ''  exit 0'',
     ''fi'',
     ''echo '' @ qq ''db-bootstrap: database is genuinely new, applying bootstrap SQL'',
     ''sqlite3 '' @ qq ''${DB_PATH}'' @ '' < /bootstrap/bootstrap.sql'',
     ''chmod 666 '' @ qq ''${DB_PATH}'',
     ''echo '' @ qq ''db-bootstrap: bootstrap SQL applied'']"

subsection \<open>The two init containers\<close>

definition autoRestoreContainer :: "litestreamReplica \<Rightarrow> resolvedMount \<Rightarrow> container" where
  "autoRestoreContainer db mount =
     buildLitestreamInitContainer autoRestoreContainerName (autoRestoreScript (dbFullPath db))
       (imageOrDefault db) mount
       (case db_S3 db of Some s3 \<Rightarrow> s3CredsEnvVars (s3_SecretRef s3) | None \<Rightarrow> [])
       (sp_RunAsUser (db_Spec db)) (sp_RunAsGroup (db_Spec db))"

definition injectAutoRestoreContainer ::
  "pod \<Rightarrow> litestreamReplica \<Rightarrow> resolvedMount \<Rightarrow> pod" where
  "injectAutoRestoreContainer pod db mount =
     pod\<lparr>pod_Spec := (pod_Spec pod)\<lparr>ps_InitContainers :=
       autoRestoreContainer db mount # ps_InitContainers (pod_Spec pod)\<rparr>\<rparr>"

definition bootstrapContainer :: "litestreamReplica \<Rightarrow> resolvedMount \<Rightarrow> container" where
  "bootstrapContainer db mount =
     emptyContainer\<lparr>ct_Name := dbBootstrapContainerName,
       ct_Image := (if bs_Image (sp_Bootstrap (db_Spec db)) = [] then ''keinos/sqlite3:latest''
                    else bs_Image (sp_Bootstrap (db_Spec db))),
       ct_Command := [''sh'', ''-c'', bootstrapScript (dbFullPath db)],
       ct_VolumeMounts := [dataMount mount,
         \<lparr>vm_Name = dbBootstrapSQLVolume, vm_MountPath = ''/bootstrap'', vm_SubPath = [],
          vm_ReadOnly = True\<rparr>],
       ct_SecurityContext :=
         securityContextOf (sp_RunAsUser (db_Spec db)) (sp_RunAsGroup (db_Spec db))\<rparr>"

definition configMapVolume :: "string \<Rightarrow> string \<Rightarrow> volume" where
  "configMapVolume n cm = \<lparr>vol_Name = n, vol_ClaimName = None, vol_ConfigMap = Some cm\<rparr>"

definition injectBootstrapContainer :: "pod \<Rightarrow> litestreamReplica \<Rightarrow> resolvedMount \<Rightarrow> pod" where
  "injectBootstrapContainer pod db mount =
     pod\<lparr>pod_Spec := (pod_Spec pod)\<lparr>
       ps_InitContainers := ps_InitContainers (pod_Spec pod) @ [bootstrapContainer db mount],
       ps_Volumes := ps_Volumes (pod_Spec pod) @
         [configMapVolume dbBootstrapSQLVolume (db_Name db @ ''-bootstrap-sql'')]\<rparr>\<rparr>"

section \<open>inject\<close>

text \<open>An annotation is set only when it reads as empty.\<close>

definition setIfEmpty :: "string \<Rightarrow> string \<Rightarrow> strmap \<Rightarrow> strmap" where
  "setIfEmpty k v m = (if lookup m k = [] then m(k \<mapsto> v) else m)"

definition prometheusAnnotations :: "strmap \<Rightarrow> strmap" where
  "prometheusAnnotations m =
     setIfEmpty ''prometheus.io/path'' ''/metrics''
       (setIfEmpty ''prometheus.io/port'' ''9090''
         (setIfEmpty ''prometheus.io/scrape'' ''true'' m))"

definition inject :: "pod \<Rightarrow> litestreamReplica \<Rightarrow> goerr + pod" where
  "inject pod db =
     (case findVolumeForPath pod (sp_DatabasePath (db_Spec db)) (sp_Container (db_Spec db)) of
        Inl err \<Rightarrow> Inl err
      | Inr mount \<Rightarrow>
          let sidecar = buildSidecar db mount;
              pod = pod\<lparr>pod_Spec := (pod_Spec pod)\<lparr>
                ps_Containers := ps_Containers (pod_Spec pod) @ [sidecar],
                ps_Volumes := ps_Volumes (pod_Spec pod) @
                  [configMapVolume litestreamConfigVolume (db_Name db @ ''-litestream'')]\<rparr>\<rparr>;
              pod = pod\<lparr>pod_Meta := (pod_Meta pod)\<lparr>om_Annotations :=
                prometheusAnnotations (om_Annotations (pod_Meta pod))\<rparr>\<rparr>;
              pod = (if bk_Enabled (db_Backup db) \<and>
                        rc_Mode (sp_Recovery (db_Spec db)) = RecoveryModeAutomatic
                     then injectAutoRestoreContainer pod db mount else pod);
              pod = (if bs_SQL (sp_Bootstrap (db_Spec db)) \<noteq> []
                     then injectBootstrapContainer pod db mount else pod)
          in Inr pod)"

section \<open>Handle\<close>

definition alreadyInjected :: "pod \<Rightarrow> bool" where
  "alreadyInjected pod = list_ex (\<lambda>c. ct_Name c = litestreamContainerName) (ps_Containers (pod_Spec pod))"

definition resolveLitestreamReplica ::
  "'w kube \<Rightarrow> pod \<Rightarrow> string \<Rightarrow> ('w, goerr + litestreamReplica option) handler" where
  "resolveLitestreamReplica K pod podNamespace =
     (let ref = lookup (om_Annotations (pod_Meta pod)) AnnotationConfig in
      if ref = [] then ret (Inr None)
      else case Cut ref (CHR ''/'') of (ns, name, found) \<Rightarrow>
        if \<not> found then ret (Inl (Errorf (''malformed '' @ AnnotationConfig @ '' annotation '' @
               fmt_q ref @ '': expected namespace/name'')))
        else let ns = (if ns = [] then podNamespace else ns) in do {
          r \<leftarrow> getReplica K (ns, name);
          case r of
            Inl err \<Rightarrow> ret (Inl (Wrapped (''getting LitestreamReplica '' @ ns @ ''/'' @ name) err))
          | Inr db \<Rightarrow> ret (Inr (Some db))
        })"

text \<open>
  The raw object of the request, and its decoding and encoding (\<open>admission.Decoder\<close>,
  \<open>encoding/json\<close>), are parameters. A response is an error with its HTTP status, an admission
  without change, or the JSON patch between the raw object and its replacement.
\<close>

record 'r codec =
  c_DecodeRaw :: "'r \<Rightarrow> goerr + pod"
  c_Marshal :: "pod \<Rightarrow> goerr + 'r"

datatype 'r response = Errored int goerr | Allowed string | PatchResponseFromRaw 'r 'r

definition Handle ::
  "'w kube \<Rightarrow> 'r codec \<Rightarrow> 'r \<Rightarrow> string \<Rightarrow> ('w, 'r response) handler" where
  "Handle K J object namespace =
     (case c_DecodeRaw J object of
        Inl err \<Rightarrow> ret (Errored 400 (Wrapped ''decoding pod'' err))
      | Inr pod \<Rightarrow>
          if lookup (om_Annotations (pod_Meta pod)) AnnotationInject \<noteq> injectTrue
          then ret (Allowed ''no injection annotation'')
          else if alreadyInjected pod then ret (Allowed ''sidecar already present'')
          else do {
            res \<leftarrow> resolveLitestreamReplica K pod namespace;
            case res of
              Inl err \<Rightarrow> ret (Errored 500 err)
            | Inr None \<Rightarrow> ret (Allowed ''no LitestreamReplica config reference found'')
            | Inr (Some db) \<Rightarrow>
                (case inject pod db of
                   Inl err \<Rightarrow> ret (Errored 500 (Wrapped ''injecting sidecar'' err))
                 | Inr pod' \<Rightarrow>
                     (case c_Marshal J pod' of
                        Inl err \<Rightarrow> ret (Errored 500 (Wrapped ''marshalling patched pod'' err))
                      | Inr marshalled \<Rightarrow> ret (PatchResponseFromRaw object marshalled)))
          })"

section \<open>What injection does to a pod\<close>

lemma prometheusAnnotations_other:
  "k \<notin> {''prometheus.io/path'', ''prometheus.io/port'', ''prometheus.io/scrape''} \<Longrightarrow>
     prometheusAnnotations m k = m k"
  by (auto simp: prometheusAnnotations_def setIfEmpty_def)

lemma prometheusAnnotations_kept: "lookup m k \<noteq> [] \<Longrightarrow> prometheusAnnotations m k = m k"
  by (auto simp: prometheusAnnotations_def setIfEmpty_def)

lemma prometheusAnnotations_set:
  "k \<in> {''prometheus.io/path'', ''prometheus.io/port'', ''prometheus.io/scrape''} \<Longrightarrow>
     lookup (prometheusAnnotations m) k \<noteq> []"
  by (auto simp: prometheusAnnotations_def setIfEmpty_def)

definition restoreInjected :: "litestreamReplica \<Rightarrow> bool" where
  "restoreInjected db \<longleftrightarrow>
     bk_Enabled (db_Backup db) \<and> rc_Mode (sp_Recovery (db_Spec db)) = RecoveryModeAutomatic"

definition bootstrapInjected :: "litestreamReplica \<Rightarrow> bool" where
  "bootstrapInjected db \<longleftrightarrow> bs_SQL (sp_Bootstrap (db_Spec db)) \<noteq> []"

text \<open>The parts of the injected pod, one by one.\<close>

lemma inject_parts:
  assumes "inject pod db = Inr pod'"
  obtains mount where
    "findVolumeForPath pod (sp_DatabasePath (db_Spec db)) (sp_Container (db_Spec db)) = Inr mount"
    "ps_Containers (pod_Spec pod') = ps_Containers (pod_Spec pod) @ [buildSidecar db mount]"
    "ps_InitContainers (pod_Spec pod') =
       (if restoreInjected db then [autoRestoreContainer db mount] else []) @
       ps_InitContainers (pod_Spec pod) @
       (if bootstrapInjected db then [bootstrapContainer db mount] else [])"
    "ps_Volumes (pod_Spec pod') = ps_Volumes (pod_Spec pod) @
       configMapVolume litestreamConfigVolume (db_Name db @ ''-litestream'') #
       (if bootstrapInjected db
        then [configMapVolume dbBootstrapSQLVolume (db_Name db @ ''-bootstrap-sql'')] else [])"
    "om_Annotations (pod_Meta pod') = prometheusAnnotations (om_Annotations (pod_Meta pod))"
  using assms
  by (auto simp: inject_def Let_def restoreInjected_def bootstrapInjected_def
      injectAutoRestoreContainer_def injectBootstrapContainer_def split: sum.splits)

lemma buildSidecar_simps [simp]:
  "ct_Name (buildSidecar db m) = litestreamContainerName"
  "ct_VolumeMounts (buildSidecar db m) = [dataMount m, configMountRO]"
  by (auto simp: buildSidecar_def Let_def split: option.splits)

lemma initContainer_simps [simp]:
  "ct_Name (autoRestoreContainer db m) = autoRestoreContainerName"
  "ct_Name (bootstrapContainer db m) = dbBootstrapContainerName"
  "hd (ct_VolumeMounts (autoRestoreContainer db m)) = dataMount m"
  "hd (ct_VolumeMounts (bootstrapContainer db m)) = dataMount m"
  by (simp_all add: autoRestoreContainer_def bootstrapContainer_def buildLitestreamInitContainer_def)

lemma alreadyInjected_inject: "inject pod db = Inr pod' \<Longrightarrow> alreadyInjected pod'"
  by (erule inject_parts) (simp add: alreadyInjected_def)

lemma findTargetContainer_in: "findTargetContainer cs n = Some c \<Longrightarrow> c \<in> set cs"
  by (auto simp: findTargetContainer_def find_Some_iff split: if_splits list.splits)

lemma findVolumeForPath_Inr:
  assumes "findVolumeForPath pod p n = Inr mount"
  obtains c v where "findTargetContainer (ps_Containers (pod_Spec pod)) n = Some c"
    "findVolume_scan p (ct_VolumeMounts c) = Some v"
    "mount = \<lparr>mt_volumeName = vm_Name v, mt_mountPath = vm_MountPath v, mt_subPath = vm_SubPath v\<rparr>"
  using assms by (auto simp: findVolumeForPath_def split: if_splits option.splits)

text \<open>The data mount that every injected container gets is the one of the application.\<close>

definition mountsLike :: "volumeMount \<Rightarrow> container \<Rightarrow> bool" where
  "mountsLike v c \<longleftrightarrow> (case ct_VolumeMounts c of [] \<Rightarrow> False
     | m # _ \<Rightarrow> vm_Name m = vm_Name v \<and> vm_MountPath m = vm_MountPath v \<and>
                vm_SubPath m = vm_SubPath v \<and> \<not> vm_ReadOnly m)"

lemma mountsLike_injected:
  assumes "mount = \<lparr>mt_volumeName = vm_Name v, mt_mountPath = vm_MountPath v, mt_subPath = vm_SubPath v\<rparr>"
  shows "mountsLike v (buildSidecar db mount)" "mountsLike v (autoRestoreContainer db mount)"
    "mountsLike v (bootstrapContainer db mount)"
  using assms by (simp_all add: mountsLike_def autoRestoreContainer_def bootstrapContainer_def
      buildLitestreamInitContainer_def)

end
