(* ===== verification/Restore_Job.thy ===== *)
theory Restore_Job
  imports Litestream_Config Injector
begin

text \<open>
  The pure parts of \<open>litestreamrestore_controller.go\<close>: where the database of a workload lies
  (\<open>resolveRestoreTarget\<close>) and the Job that restores it (\<open>buildRestoreJob\<close>). The restore controller
  has a mount search of its own; it is shown to satisfy the contract of \<open>mount_search\<close>, and with
  the one of the webhook the contract \<open>two_searches\<close>: both pick the same mount.
\<close>

section \<open>Constants\<close>

definition defaultLitestreamImage :: string where
  [const_defs]: "defaultLitestreamImage = LitestreamDefaultImage"
definition restoreRequeueInterval :: int where "restoreRequeueInterval = 5 * second"
definition restoreLabelKey :: string where [const_defs]: "restoreLabelKey = ''litestream.io/restore''"
definition restoreTargetVolumeName :: string where [const_defs]: "restoreTargetVolumeName = ''target''"
definition restoreFinalizerName :: string where
  [const_defs]: "restoreFinalizerName = ''litestream.io/restore-finalizer''"

section \<open>Where the database is\<close>

text \<open>One iteration of the loop over the volume mounts, over (\<open>bestMatch\<close>, \<open>bestLen\<close>).\<close>

fun restoreMount_step ::
  "string \<Rightarrow> volumeMount option \<times> nat \<Rightarrow> volumeMount \<Rightarrow> volumeMount option \<times> nat" where
  "restoreMount_step dbPath (bestMatch, bestLen) vm =
     (if vm_MountPath vm = dbPath \<or> HasPrefix dbPath (vm_MountPath vm @ ''/'') then
        if length (vm_MountPath vm) > bestLen then (Some vm, length (vm_MountPath vm))
        else (bestMatch, bestLen)
      else (bestMatch, bestLen))"

definition restoreMount_scan :: "string \<Rightarrow> volumeMount list \<Rightarrow> volumeMount option" where
  "restoreMount_scan dbPath vms = fst (foldl (restoreMount_step dbPath) (None, 0) vms)"

lemma restoreMount_scan_eq: "restoreMount_scan p vms = longestMount p vms"
proof -
  have "restoreMount_step p = keepLonger p"
    by (intro ext) (auto simp: keepLonger_def split: prod.split)
  then show ?thesis by (simp add: restoreMount_scan_def foldl_keepLonger)
qed

text \<open>The two loops are one function, so the laws proved for the webhook hold here as well.\<close>

lemma same_scan: "restoreMount_scan = findVolume_scan"
  by (intro ext) (simp add: restoreMount_scan_eq findVolume_scan_eq)

interpretation restore_search: mount_search restoreMount_scan
  unfolding same_scan by (rule webhook_search.mount_search_axioms)

interpretation both_searches: two_searches findVolume_scan restoreMount_scan ..

text \<open>The explicit container, or the first one.\<close>

definition restoreContainer :: "litestreamReplica \<Rightarrow> container list \<Rightarrow> goerr + container" where
  "restoreContainer sourceDB cs =
     (case cs of
        [] \<Rightarrow> Inl (Errorf ''target workload has no containers'')
      | first # _ \<Rightarrow>
          if sp_Container (db_Spec sourceDB) \<noteq> [] then
            (case find (\<lambda>c. ct_Name c = sp_Container (db_Spec sourceDB)) cs of
               None \<Rightarrow> Inl (Errorf (''container '' @ fmt_q (sp_Container (db_Spec sourceDB)) @
                 '' not found in workload pod spec''))
             | Some c \<Rightarrow> Inr c)
          else Inr first)"

text \<open>The claim, the path of the file and the sub-path of the mount, from the pod spec.\<close>

definition locateDatabase ::
  "litestreamReplica \<Rightarrow> podSpec \<Rightarrow> goerr + string \<times> string \<times> string" where
  "locateDatabase sourceDB podSpec =
     (let dbPath = sp_DatabasePath (db_Spec sourceDB);
          dbFull = dbPath @ ''/'' @ sp_DatabaseName (db_Spec sourceDB)
      in case restoreContainer sourceDB (ps_Containers podSpec) of
           Inl err \<Rightarrow> Inl err
         | Inr targetContainer \<Rightarrow>
             (case restoreMount_scan dbPath (ct_VolumeMounts targetContainer) of
                None \<Rightarrow> Inl (Errorf (''no volume mount in container '' @
                  fmt_q (ct_Name targetContainer) @ '' covers database path '' @ fmt_q dbPath))
              | Some bestMatch \<Rightarrow>
                  (case find (\<lambda>vol. vol_Name vol = vm_Name bestMatch \<and> vol_ClaimName vol \<noteq> None)
                          (ps_Volumes podSpec) of
                     Some vol \<Rightarrow> Inr (the (vol_ClaimName vol), dbFull, vm_SubPath bestMatch)
                   | None \<Rightarrow> Inl (Errorf (''volume '' @ fmt_q (vm_Name bestMatch) @
                       '' backing database path '' @ fmt_q dbPath @
                       '' is not a PersistentVolumeClaim'')))))"

section \<open>The Job\<close>

definition s3EnvVars :: "string \<Rightarrow> envVar list" where
  "s3EnvVars secretRef =
     [\<lparr>ev_Name = ''LITESTREAM_ACCESS_KEY_ID'', ev_Value = [],
       ev_SecretKeyRef = Some \<lparr>sk_Name = secretRef, sk_Key = ''ACCESS_KEY_ID''\<rparr>\<rparr>,
      \<lparr>ev_Name = ''LITESTREAM_SECRET_ACCESS_KEY'', ev_Value = [],
       ev_SecretKeyRef = Some \<lparr>sk_Name = secretRef, sk_Key = ''SECRET_ACCESS_KEY''\<rparr>\<rparr>]"

definition restoreImage :: "litestreamRestore \<Rightarrow> litestreamReplica \<Rightarrow> string" where
  "restoreImage restore sourceDB =
     (let image = rsp_Image (lr_Spec restore);
          image = (if image = [] then sp_Image (db_Spec sourceDB) else image)
      in if image = [] then defaultLitestreamImage else image)"

definition restoreCmd :: "litestreamRestore \<Rightarrow> litestreamReplica \<Rightarrow> string \<Rightarrow> string" where
  "restoreCmd restore sourceDB targetPath =
     ''litestream restore -config /etc/litestream/litestream.yml -integrity-check quick -o '' @
     fmt_q targetPath @
     (if rsp_Force (lr_Spec restore) then '' -force'' else []) @
     (if rsp_Timestamp (lr_Spec restore) \<noteq> []
      then '' -timestamp '' @ fmt_q (rsp_Timestamp (lr_Spec restore)) else []) @
     '' '' @ fmt_q (sp_DatabasePath (db_Spec sourceDB) @ ''/'' @ sp_DatabaseName (db_Spec sourceDB))"

definition forceGuard :: "litestreamRestore \<Rightarrow> string \<Rightarrow> string" where
  "forceGuard restore targetPath =
     (if rsp_Force (lr_Spec restore) then []
      else unlines [
        ''TARGET_PATH='' @ fmt_q targetPath,
        ''if [ -f '' @ qq ''${TARGET_PATH}'' @ '' ]; then'',
        ''  echo '' @ qq (''litestream-restore: REFUSED '' @ emdash @
           '' output file ${TARGET_PATH} already exists''),
        ''  echo '' @ qq ''litestream-restore: set spec.force=true to overwrite, or delete the file first'',
        ''  exit 1'',
        ''fi''])"

definition restoreScript :: "litestreamRestore \<Rightarrow> litestreamReplica \<Rightarrow> string \<Rightarrow> string" where
  "restoreScript restore sourceDB targetPath =
     (let cmd = restoreCmd restore sourceDB targetPath in
      forceGuard restore targetPath @ unlines [
        ''echo '' @ qq (''litestream-restore: running: '' @ cmd),
        cmd,
        ''RESTORE_EXIT=$?'',
        ''if [ $RESTORE_EXIT -ne 0 ]; then'',
        ''  echo '' @ qq (''litestream-restore: FAILED (exit code ${RESTORE_EXIT}) '' @ emdash @
           '' cleaning up partial output''),
        ''  rm -f '' @ fmt_q targetPath,
        ''  exit $RESTORE_EXIT'',
        ''fi'',
        ''echo '' @ qq ''litestream-restore: restore completed successfully''])"

definition restoreTargetMount :: "string \<Rightarrow> string \<Rightarrow> volumeMount" where
  "restoreTargetMount targetPath subPath =
     (let m = \<lparr>vm_Name = restoreTargetVolumeName, vm_MountPath = Dir targetPath, vm_SubPath = [],
               vm_ReadOnly = False\<rparr>
      in if subPath \<noteq> [] then m\<lparr>vm_SubPath := subPath\<rparr> else m)"

definition restoreJobLabels :: "litestreamRestore \<Rightarrow> strmap" where
  "restoreJobLabels restore =
     [''app.kubernetes.io/managed-by'' \<mapsto> ''litestream-operator'', restoreLabelKey \<mapsto> lr_Name restore]"

definition restorePodSpec ::
  "litestreamRestore \<Rightarrow> litestreamReplica \<Rightarrow> s3Destination \<Rightarrow> string \<Rightarrow> string \<Rightarrow> string \<Rightarrow> podSpec" where
  "restorePodSpec restore sourceDB s3 targetPVC targetPath subPath =
     \<lparr>ps_Volumes =
        [\<lparr>vol_Name = ''target'', vol_ClaimName = Some targetPVC, vol_ConfigMap = None\<rparr>,
         \<lparr>vol_Name = ''litestream-config'', vol_ClaimName = None,
          vol_ConfigMap = Some (lr_Name restore @ ''-litestream'')\<rparr>],
      ps_InitContainers = [],
      ps_Containers =
        [emptyContainer\<lparr>ct_Name := ''litestream-restore'', ct_Image := restoreImage restore sourceDB,
           ct_Command := [''sh'', ''-c'', restoreScript restore sourceDB targetPath],
           ct_Env := s3EnvVars (s3_SecretRef s3),
           ct_VolumeMounts := [restoreTargetMount targetPath subPath,
             \<lparr>vm_Name = ''litestream-config'', vm_MountPath = ''/etc/litestream'', vm_SubPath = [],
              vm_ReadOnly = True\<rparr>]\<rparr>],
      ps_RestartPolicy = ''OnFailure'',
      ps_SecurityContext =
        securityContextOf (rsp_RunAsUser (lr_Spec restore)) (rsp_RunAsGroup (lr_Spec restore))\<rparr>"

text \<open>\<open>s3.SecretRef\<close> dereferences the destination without a check: \<open>None\<close> is the nil dereference.\<close>

definition buildRestoreJob ::
  "litestreamRestore \<Rightarrow> litestreamReplica \<Rightarrow> string \<Rightarrow> string \<Rightarrow> string \<Rightarrow> string \<Rightarrow> job option" where
  "buildRestoreJob restore sourceDB jobName targetPVC targetPath subPath =
     (case db_S3 sourceDB of
        None \<Rightarrow> None
      | Some s3 \<Rightarrow> Some
          \<lparr>jb_Meta = emptyMeta\<lparr>om_Name := jobName, om_Namespace := lr_Namespace restore,
             om_Labels := restoreJobLabels restore\<rparr>,
           jb_BackoffLimit = Some 3,
           jb_Template = \<lparr>pt_Labels = restoreJobLabels restore, pt_Annotations = Map.empty,
             pt_Spec = restorePodSpec restore sourceDB s3 targetPVC targetPath subPath\<rparr>,
           jb_Conditions = []\<rparr>)"

end
