(* ===== verification/Restore_Controller.thy ===== *)
theory Restore_Controller
  imports Replica_Controller Restore_Job
begin

text \<open>
  The LitestreamRestore reconciler (\<open>litestreamrestore_controller.go\<close>): one handler per phase, the
  lock, the pause annotation, the failure paths and the finalization. Go mutates \<open>restore\<close> in
  place; here each step returns the updated resource. In particular \<open>setCondition\<close> is called on the
  resource before \<open>setStatus\<close> takes the copy that its patch is computed from, and a successful
  patch or update overwrites the object with the answer of the server.
\<close>

section \<open>Status\<close>

text \<open>The object that \<open>setStatus\<close> sends: some fields change only when given, two only once.\<close>

definition withStatus ::
  "string \<Rightarrow> string \<Rightarrow> string \<Rightarrow> int option \<Rightarrow> instant option \<Rightarrow> instant option \<Rightarrow>
     litestreamRestore \<Rightarrow> litestreamRestore" where
  "withStatus phase jobName message originalReplicas startTime completionTime restore =
     (let st = lr_Status restore;
          st = st\<lparr>st_Phase := phase\<rparr>;
          st = (if jobName \<noteq> [] then st\<lparr>st_JobName := jobName\<rparr> else st);
          st = st\<lparr>st_Message := message\<rparr>;
          st = (if originalReplicas \<noteq> None \<and> st_OriginalReplicas st = None
                then st\<lparr>st_OriginalReplicas := originalReplicas\<rparr> else st);
          st = (if startTime \<noteq> None \<and> st_StartTime st = None
                then st\<lparr>st_StartTime := startTime\<rparr> else st);
          st = (if completionTime \<noteq> None then st\<lparr>st_CompletionTime := completionTime\<rparr> else st)
      in restore\<lparr>lr_Status := st\<rparr>)"

definition setStatus ::
  "'w kube \<Rightarrow> litestreamRestore \<Rightarrow> string \<Rightarrow> string \<Rightarrow> string \<Rightarrow> int option \<Rightarrow> instant option \<Rightarrow>
     instant option \<Rightarrow> ('w, goerr option) handler" where
  "setStatus K restore phase jobName message originalReplicas startTime completionTime = do {
     r \<leftarrow> patchRestoreStatus K restore
       (withStatus phase jobName message originalReplicas startTime completionTime restore);
     case r of Inl err \<Rightarrow> ret (Some err) | Inr _ \<Rightarrow> ret None
   }"

text \<open>\<open>setCondition(&restore.Status.Conditions, ..., restore.Generation, metav1.Now())\<close>.\<close>

definition markRestore ::
  "lib \<Rightarrow> instant \<Rightarrow> string \<Rightarrow> string \<Rightarrow> string \<Rightarrow> string \<Rightarrow> litestreamRestore \<Rightarrow> litestreamRestore" where
  "markRestore L t condType status reason message restore =
     restore\<lparr>lr_Status := (lr_Status restore)\<lparr>st_Conditions :=
       setCondition L (st_Conditions (lr_Status restore)) condType status reason message
         (om_Generation (lr_Meta restore)) t\<rparr>\<rparr>"

definition failRestore :: "'w kube \<Rightarrow> litestreamRestore \<Rightarrow> string \<Rightarrow> ('w, goerr option) handler" where
  "failRestore K restore msg = do {
     _ \<leftarrow> recordEvent K (restoreEvent restore EventTypeWarning ''RestoreFailed'' msg);
     t \<leftarrow> now K;
     setStatus K restore RestorePhaseFailed [] msg None (Some t) (Some t)
   }"

text \<open>A result returned together with the error of the last step.\<close>

definition withResult ::
  "result \<Rightarrow> ('w, goerr option) handler \<Rightarrow> ('w, result \<times> goerr option) handler" where
  "withResult res m = do { e \<leftarrow> m; ret (res, e) }"

section \<open>Pausing, resuming and the lock\<close>

definition setPause :: "litestreamReplica \<Rightarrow> litestreamReplica" where
  "setPause db = db\<lparr>db_Meta := (db_Meta db)\<lparr>om_Annotations :=
     (db_Annotations db)(pauseAnnotation \<mapsto> injectEnabled)\<rparr>\<rparr>"

definition clearPause :: "litestreamReplica \<Rightarrow> litestreamReplica" where
  "clearPause db = db\<lparr>db_Meta := (db_Meta db)\<lparr>om_Annotations :=
     (db_Annotations db)(pauseAnnotation := None)\<rparr>\<rparr>"

text \<open>The patch overwrites the caller's object, which is therefore part of the answer.\<close>

definition pauseReplication ::
  "'w kube \<Rightarrow> litestreamReplica \<Rightarrow> ('w, goerr + litestreamReplica) handler" where
  "pauseReplication K db =
     (if lookup (db_Annotations db) pauseAnnotation = injectEnabled then ret (Inr db)
      else patchReplica K db (setPause db))"

definition resumeReplication :: "'w kube \<Rightarrow> litestreamReplica \<Rightarrow> ('w, goerr option) handler" where
  "resumeReplication K db =
     (if lookup (db_Annotations db) pauseAnnotation \<noteq> injectEnabled then ret None
      else do {
        r \<leftarrow> getReplica K (db_Namespace db, db_Name db);
        case r of
          Inl err \<Rightarrow> ret (Some err)
        | Inr latest \<Rightarrow> do {
            p \<leftarrow> patchReplica K latest (clearPause latest);
            case p of Inl err \<Rightarrow> ret (Some err) | Inr _ \<Rightarrow> ret None
          }
      })"

definition leaseName :: "litestreamRestore \<Rightarrow> string" where
  "leaseName restore = ''litestream-restore-'' @ lr_Source restore"

definition releaseRestoreLock :: "'w kube \<Rightarrow> litestreamRestore \<Rightarrow> ('w, unit) handler" where
  "releaseRestoreLock K restore = do {
     r \<leftarrow> getLease K (lr_Namespace restore, leaseName restore);
     case r of
       Inl err \<Rightarrow> ret ()
     | Inr lease \<Rightarrow>
         if ls_HolderIdentity lease = Some (lr_Name restore)
         then do { _ \<leftarrow> deleteLease K lease; ret () } else ret ()
   }"

definition fencedSuffix :: string where
  "fencedSuffix = ''; APPLICATION IS FENCED (replicas=0) '' @ emdash @
     '' manual intervention required to resume''"

definition failRestoreWithCleanup ::
  "'w kube \<Rightarrow> litestreamRestore \<Rightarrow> litestreamReplica \<Rightarrow> string \<Rightarrow> ('w, goerr option) handler" where
  "failRestoreWithCleanup K restore sourceDB msg = do {
     msg \<leftarrow> (if lr_Mode restore \<noteq> RestoreModeToPVC then do {
          _ \<leftarrow> releaseRestoreLock K restore;
          _ \<leftarrow> resumeReplication K sourceDB;
          ret (msg @ fencedSuffix)
        } else ret msg);
     _ \<leftarrow> recordEvent K (restoreEvent restore EventTypeWarning ''RestoreFailed'' msg);
     t \<leftarrow> now K;
     setStatus K restore RestorePhaseFailed (st_JobName (lr_Status restore)) msg
       (st_OriginalReplicas (lr_Status restore)) (st_StartTime (lr_Status restore)) (Some t)
   }"

section \<open>Resolving the target\<close>

definition resolveRestoreTarget ::
  "'w kube \<Rightarrow> litestreamRestore \<Rightarrow> litestreamReplica \<Rightarrow>
     ('w, goerr + string \<times> string \<times> string) handler" where
  "resolveRestoreTarget K restore sourceDB =
     (if lr_Mode restore = RestoreModeToPVC then
        (case rsp_Target (lr_Spec restore) of
           None \<Rightarrow> ret (Inl (Errorf ''mode is ToPVC but target is not specified''))
         | Some target \<Rightarrow> ret (Inr (rt_PVC target, rt_Path target, [])))
      else do {
        res \<leftarrow> getTargetWorkloadForRestore K sourceDB;
        case res of
          Inl err \<Rightarrow> ret (Inl (Wrapped
            (''resolving InPlace target: cannot find workload for LitestreamReplica '' @
             fmt_q (db_Name sourceDB)) err))
        | Inr wt \<Rightarrow> ret (locateDatabase sourceDB (wt_podSpec wt))
      })"

section \<open>Creating the Job\<close>

definition reconcileRestoreConfig ::
  "'w kube \<Rightarrow> litestreamRestore \<Rightarrow> litestreamReplica \<Rightarrow> ('w, goerr option) handler" where
  "reconcileRestoreConfig K restore sourceDB =
     createOrUpdateConfigMap K
       (namedConfigMap (lr_Name restore @ ''-litestream'') (lr_Namespace restore))
       (ownedConfigMap (k_Lib K) (lr_Meta restore)
          [litestreamConfigKey \<mapsto> buildLitestreamConfigYAML sourceDB])"

text \<open>
  The steps that \<open>reconcilePending\<close> (ToPVC) and \<open>reconcileFencing\<close> share: the ConfigMap of the Job,
  the owned Job, its creation (an existing Job is taken over), the event and the new phase.
\<close>

definition restoreJobName :: "litestreamRestore \<Rightarrow> string" where
  "restoreJobName restore = lr_Name restore @ ''-restore''"

definition jobLaunched ::
  "'w kube \<Rightarrow> litestreamRestore \<Rightarrow> string \<Rightarrow> int option \<Rightarrow> ('w, result \<times> goerr option) handler" where
  "jobLaunched K restore note originalReplicas = do {
     _ \<leftarrow> recordEvent K (restoreEvent restore EventTypeNormal ''RestoreStarted''
       (''Created restore Job '' @ restoreJobName restore @ note));
     t \<leftarrow> now K;
     withResult (requeueAfter restoreRequeueInterval)
       (setStatus K restore RestorePhaseRestoring (restoreJobName restore)
         ''restore Job running'' originalReplicas (Some t) None)
   }"

definition launchRestoreJob ::
  "'w kube \<Rightarrow> litestreamRestore \<Rightarrow> litestreamReplica \<Rightarrow> string \<Rightarrow> string \<Rightarrow> string \<Rightarrow> string \<Rightarrow>
     int option \<Rightarrow> ('w, result \<times> goerr option) handler" where
  "launchRestoreJob K restore sourceDB targetPVC targetPath targetSubPath note originalReplicas = do {
     c \<leftarrow> reconcileRestoreConfig K restore sourceDB;
     case c of
       Some err \<Rightarrow> ret (emptyResult, Some (Wrapped ''creating restore litestream config'' err))
     | None \<Rightarrow>
         (case buildRestoreJob restore sourceDB (restoreJobName restore) targetPVC targetPath targetSubPath of
            None \<Rightarrow> ret (emptyResult, Some Panicked)
          | Some newJob \<Rightarrow>
              (case l_SetControllerReference (k_Lib K) (lr_Meta restore) (jb_Meta newJob) of
                 Inl err \<Rightarrow> ret (emptyResult, Some err)
               | Inr m \<Rightarrow> do {
                   j \<leftarrow> createJob K (newJob\<lparr>jb_Meta := m\<rparr>);
                   case j of
                     None \<Rightarrow> jobLaunched K restore note originalReplicas
                   | Some err \<Rightarrow>
                       if IsAlreadyExists err then jobLaunched K restore note originalReplicas
                       else ret (emptyResult, Some (Wrapped ''creating restore Job'' err))
                 }))
   }"

section \<open>Pending\<close>

definition withResolved ::
  "string \<Rightarrow> string \<Rightarrow> string \<Rightarrow> litestreamRestore \<Rightarrow> litestreamRestore" where
  "withResolved pvc path subPath restore =
     restore\<lparr>lr_Status := (lr_Status restore)\<lparr>st_ResolvedPVC := pvc, st_ResolvedPath := path,
       st_ResolvedSubPath := subPath\<rparr>\<rparr>"

definition storeResolved ::
  "'w kube \<Rightarrow> litestreamRestore \<Rightarrow> string \<Rightarrow> string \<Rightarrow> string \<Rightarrow>
     ('w, goerr + litestreamRestore) handler" where
  "storeResolved K restore pvc path subPath =
     (if st_ResolvedPVC (lr_Status restore) = []
      then patchRestoreStatus K restore (withResolved pvc path subPath restore)
      else ret (Inr restore))"

definition reconcilePending ::
  "'w kube \<Rightarrow> litestreamRestore \<Rightarrow> litestreamReplica \<Rightarrow> ('w, result \<times> goerr option) handler" where
  "reconcilePending K restore sourceDB = do {
     res \<leftarrow> resolveRestoreTarget K restore sourceDB;
     case res of
       Inl err \<Rightarrow> withResult emptyResult
         (failRestore K restore (''resolving restore target: '' @ errText err))
     | Inr (targetPVC, targetPath, targetSubPath) \<Rightarrow> do {
         stored \<leftarrow> storeResolved K restore targetPVC targetPath targetSubPath;
         case stored of
           Inl err \<Rightarrow> ret (emptyResult, Some (Wrapped ''storing resolved target in status'' err))
         | Inr restore \<Rightarrow>
             if lr_Mode restore = RestoreModeToPVC then
               launchRestoreJob K restore sourceDB targetPVC targetPath targetSubPath
                 '' (mode: ToPVC)'' None
             else do {
               w \<leftarrow> getTargetWorkloadForRestore K sourceDB;
               case (case w of Inr wt \<Rightarrow> Inr (desiredReplicas wt)
                     | Inl err \<Rightarrow> if IsNotFound err then Inr 0 else Inl err) of
                 Inl err \<Rightarrow> withResult emptyResult
                   (failRestore K restore (''getting target workload for LitestreamReplica '' @
                      fmt_q (db_Name sourceDB) @ '': '' @ errText err))
               | Inr originalReplicas \<Rightarrow> do {
                   t \<leftarrow> now K;
                   withResult (requeueAfter restoreRequeueInterval)
                     (setStatus K restore RestorePhaseAcquiringLock (st_JobName (lr_Status restore))
                       ''acquiring restore lock'' (Some originalReplicas) (Some t) None)
                 }
             }
       }
   }"

section \<open>AcquiringLock\<close>

definition newLease :: "litestreamRestore \<Rightarrow> instant \<Rightarrow> lease" where
  "newLease restore t =
     \<lparr>ls_Meta = emptyMeta\<lparr>om_Name := leaseName restore, om_Namespace := lr_Namespace restore,
        om_Labels := [''app.kubernetes.io/managed-by'' \<mapsto> ''litestream-operator'',
          restoreLabelKey \<mapsto> lr_Name restore]\<rparr>,
      ls_HolderIdentity = Some (lr_Name restore), ls_AcquireTime = Some t,
      ls_LeaseDurationSeconds = Some 3600\<rparr>"

text \<open>Keeping the current status fields while moving to a phase, as most transitions do.\<close>

definition advance ::
  "'w kube \<Rightarrow> litestreamRestore \<Rightarrow> string \<Rightarrow> string \<Rightarrow> instant option \<Rightarrow> ('w, goerr option) handler" where
  "advance K restore phase message completionTime =
     setStatus K restore phase (st_JobName (lr_Status restore)) message
       (st_OriginalReplicas (lr_Status restore)) (st_StartTime (lr_Status restore)) completionTime"

definition lockAcquired ::
  "'w kube \<Rightarrow> litestreamRestore \<Rightarrow> litestreamReplica \<Rightarrow> ('w, result \<times> goerr option) handler" where
  "lockAcquired K restore sourceDB = do {
     p \<leftarrow> pauseReplication K sourceDB;
     case p of
       Inl err \<Rightarrow> ret (emptyResult, Some (Wrapped ''setting pause annotation on LitestreamReplica'' err))
     | Inr sourceDB \<Rightarrow> do {
         _ \<leftarrow> recordEvent K (restoreEvent restore EventTypeNormal ''PausingReplication''
           (''Pausing Litestream replication on LitestreamReplica '' @ db_Name sourceDB));
         t \<leftarrow> now K;
         let restore = markRestore (k_Lib K) t RestoreConditionLocked ConditionTrue ''LockAcquired''
               (''acquired lock '' @ leaseName restore) restore
         in withResult (requeueAfter restoreRequeueInterval)
              (advance K restore RestorePhaseFencing ''lock acquired; fencing application'' None)
       }
   }"

definition lockHeld ::
  "'w kube \<Rightarrow> litestreamRestore \<Rightarrow> lease \<Rightarrow> ('w, result \<times> goerr option) handler" where
  "lockHeld K restore lease =
     (let holder = (case ls_HolderIdentity lease of None \<Rightarrow> ''<unknown>'' | Some h \<Rightarrow> h) in do {
        t \<leftarrow> now K;
        let restore = markRestore (k_Lib K) t RestoreConditionLocked ConditionFalse ''RestoreLocked''
              (''another restore '' @ fmt_q holder @ '' holds the lock for LitestreamReplica '' @
               fmt_q (lr_Source restore)) restore
        in withResult (requeueAfter (30 * second))
             (advance K restore RestorePhaseAcquiringLock
               (''waiting for lock '' @ emdash @ '' active restore: '' @ holder) None)
      })"

definition reconcileAcquiringLock ::
  "'w kube \<Rightarrow> litestreamRestore \<Rightarrow> litestreamReplica \<Rightarrow> ('w, result \<times> goerr option) handler" where
  "reconcileAcquiringLock K restore sourceDB =
     (if lr_Mode restore = RestoreModeToPVC then
        withResult (requeueAfter restoreRequeueInterval)
          (advance K restore RestorePhaseFencing ''lock not required for ToPVC mode'' None)
      else do {
        r \<leftarrow> getLease K (lr_Namespace restore, leaseName restore);
        case r of
          Inl err \<Rightarrow>
            if \<not> IsNotFound err then ret (emptyResult, Some (Wrapped ''checking restore lock'' err))
            else do {
              t \<leftarrow> now K;
              case l_SetControllerReference (k_Lib K) (lr_Meta restore) (ls_Meta (newLease restore t)) of
                Inl setErr \<Rightarrow> ret (emptyResult, Some setErr)
              | Inr m \<Rightarrow> do {
                  c \<leftarrow> createLease K ((newLease restore t)\<lparr>ls_Meta := m\<rparr>);
                  case c of
                    Some createErr \<Rightarrow>
                      if IsAlreadyExists createErr then ret (requeueAfter restoreRequeueInterval, None)
                      else ret (emptyResult, Some (Wrapped ''creating restore lock'' createErr))
                  | None \<Rightarrow> lockAcquired K restore sourceDB
                }
            }
        | Inr lease \<Rightarrow>
            if ls_HolderIdentity lease \<noteq> Some (lr_Name restore) then lockHeld K restore lease
            else lockAcquired K restore sourceDB
      })"

section \<open>Fencing\<close>

text \<open>Scaling down and waiting: \<open>None\<close> when the workload is gone or has no pod left.\<close>

definition fenceWorkload ::
  "'w kube \<Rightarrow> litestreamRestore \<Rightarrow> litestreamReplica \<Rightarrow>
     ('w, (result \<times> goerr option) option) handler" where
  "fenceWorkload K restore sourceDB = do {
     w \<leftarrow> getTargetWorkloadForRestore K sourceDB;
     case w of
       Inl err \<Rightarrow>
         if \<not> IsNotFound err then do {
           e \<leftarrow> failRestore K restore (''cannot find target workload: '' @ errText err);
           ret (Some (emptyResult, e))
         } else ret None
     | Inr wt \<Rightarrow> do {
         s \<leftarrow> scaleWorkload K wt 0;
         case s of
           Inl err \<Rightarrow> ret (Some (emptyResult, Some (Wrapped ''scaling workload to 0'' err)))
         | Inr wt \<Rightarrow>
             if runningReplicas wt > 0 then do {
               _ \<leftarrow> recordEvent K (restoreEvent restore EventTypeNormal ''ApplicationFenced''
                 (''Scaled '' @ wt_typeName wt @ '' '' @ wt_name wt @ '' to 0 replicas''));
               ret (Some (requeueAfter restoreRequeueInterval, None))
             } else ret None
       }
   }"

definition reconcileFencing ::
  "'w kube \<Rightarrow> litestreamRestore \<Rightarrow> litestreamReplica \<Rightarrow> ('w, result \<times> goerr option) handler" where
  "reconcileFencing K restore sourceDB =
     (if lookup (db_Annotations sourceDB) pauseAnnotation \<noteq> injectEnabled then do {
        p \<leftarrow> pauseReplication K sourceDB;
        case p of
          Inl err \<Rightarrow> ret (emptyResult, Some (Wrapped ''re-setting pause annotation'' err))
        | Inr _ \<Rightarrow> ret (requeueAfter restoreRequeueInterval, None)
      } else do {
        c \<leftarrow> getConfigMap K (db_Namespace sourceDB, db_Name sourceDB @ ''-litestream'');
        case c of
          Inl err \<Rightarrow> ret (requeueAfter restoreRequeueInterval,
                       Some (Wrapped ''getting litestream ConfigMap'' err))
        | Inr cm \<Rightarrow>
            if lookup (cm_Data cm) litestreamConfigKey \<noteq> pausedConfig
            then ret (requeueAfter restoreRequeueInterval, None)
            else do {
              f \<leftarrow> fenceWorkload K restore sourceDB;
              case f of
                Some answer \<Rightarrow> ret answer
              | None \<Rightarrow> do {
                  t \<leftarrow> now K;
                  let restore = markRestore (k_Lib K) t RestoreConditionApplicationFenced ConditionTrue
                        ''WorkloadScaledDown'' ''application is fenced'' restore;
                      st = lr_Status restore
                  in launchRestoreJob K restore sourceDB (st_ResolvedPVC st) (st_ResolvedPath st)
                       (st_ResolvedSubPath st) [] (st_OriginalReplicas st)
                }
            }
      })"

section \<open>Restoring\<close>

definition JobComplete :: string where [const_defs]: "JobComplete = ''Complete''"
definition JobFailed :: string where [const_defs]: "JobFailed = ''Failed''"

lemma job_condition_distinct [simp]: "JobComplete \<noteq> JobFailed" "JobFailed \<noteq> JobComplete"
  by (simp_all add: const_defs)

text \<open>The loop over the conditions returns at the first one that is true and final.\<close>

definition jobVerdict :: "job \<Rightarrow> jobCondition option" where
  "jobVerdict j =
     find (\<lambda>cond. (jc_Type cond = JobComplete \<or> jc_Type cond = JobFailed) \<and>
                  jc_Status cond = ConditionTrue) (jb_Conditions j)"

definition restoreJobPodLogs :: "'w kube \<Rightarrow> string \<Rightarrow> string \<Rightarrow> ('w, string) handler" where
  "restoreJobPodLogs K namespace restoreName =
     (if \<not> k_HasKubeClient K then ret []
      else do {
        l \<leftarrow> listPodsBySelector K namespace (restoreLabelKey @ ''='' @ restoreName);
        case l of
          Inl err \<Rightarrow> ret []
        | Inr items \<Rightarrow>
            (case items of
               [] \<Rightarrow> ret []
             | pod # _ \<Rightarrow> do {
                 s \<leftarrow> streamLogs K namespace (om_Name (pod_Meta pod)) False;
                 s \<leftarrow> (case s of
                        Inr stream \<Rightarrow> ret (Inr stream)
                      | Inl err \<Rightarrow> streamLogs K namespace (om_Name (pod_Meta pod)) True);
                 case s of
                   Inl err \<Rightarrow> ret []
                 | Inr body \<Rightarrow> (case body of Inl err \<Rightarrow> ret [] | Inr b \<Rightarrow> ret b)
               })
      })"

definition restoreJobSucceeded ::
  "'w kube \<Rightarrow> litestreamRestore \<Rightarrow> ('w, result \<times> goerr option) handler" where
  "restoreJobSucceeded K restore = do {
     t \<leftarrow> now K;
     let restore = markRestore (k_Lib K) t RestoreConditionRestoreSucceeded ConditionTrue
           ''RestoreJobComplete'' ''restore Job completed with integrity check'' restore
     in if lr_Mode restore = RestoreModeToPVC then do {
          _ \<leftarrow> recordEvent K (restoreEvent restore EventTypeNormal ''RestoreComplete''
            ''Litestream restore completed successfully'');
          t \<leftarrow> now K;
          withResult emptyResult
            (advance K restore RestorePhaseCompleted ''restore completed successfully'' (Some t))
        } else do {
          _ \<leftarrow> recordEvent K (restoreEvent restore EventTypeNormal ''RestoreJobComplete''
            ''Restore Job completed; resuming application'');
          withResult (requeueAfter restoreRequeueInterval)
            (advance K restore RestorePhaseResuming ''resuming application'' None)
        }
   }"

definition restoreJobFailed ::
  "'w kube \<Rightarrow> litestreamRestore \<Rightarrow> litestreamReplica \<Rightarrow> string \<Rightarrow> ('w, result \<times> goerr option) handler" where
  "restoreJobFailed K restore sourceDB message =
     (let msg = (if message \<noteq> [] then message else ''restore Job failed'') in do {
        podLogs \<leftarrow> restoreJobPodLogs K (lr_Namespace restore) (lr_Name restore);
        withResult emptyResult (failRestoreWithCleanup K restore sourceDB
          (if podLogs \<noteq> [] then msg @ ''; litestream output: '' @ podLogs else msg))
      })"

definition reconcileRestoring ::
  "'w kube \<Rightarrow> litestreamRestore \<Rightarrow> litestreamReplica \<Rightarrow> ('w, result \<times> goerr option) handler" where
  "reconcileRestoring K restore sourceDB = do {
     r \<leftarrow> getJob K (lr_Namespace restore, st_JobName (lr_Status restore));
     case r of
       Inl err \<Rightarrow>
         if IsNotFound err
         then withResult emptyResult (failRestoreWithCleanup K restore sourceDB ''restore Job not found'')
         else ret (emptyResult, Some (Wrapped ''getting restore Job'' err))
     | Inr job \<Rightarrow>
         (case jobVerdict job of
            None \<Rightarrow> ret (requeueAfter restoreRequeueInterval, None)
          | Some cond \<Rightarrow>
              if jc_Type cond = JobComplete then restoreJobSucceeded K restore
              else restoreJobFailed K restore sourceDB (jc_Message cond))
   }"

section \<open>Resuming\<close>

definition restoredReplicas :: "litestreamRestore \<Rightarrow> int" where
  "restoredReplicas restore =
     (case st_OriginalReplicas (lr_Status restore) of Some n \<Rightarrow> n | None \<Rightarrow> 1)"

definition scaleUp ::
  "'w kube \<Rightarrow> litestreamReplica \<Rightarrow> int \<Rightarrow> ('w, goerr option) handler" where
  "scaleUp K sourceDB target =
     (if target > 0 then do {
        w \<leftarrow> getTargetWorkloadForRestore K sourceDB;
        case w of
          Inl err \<Rightarrow> ret None
        | Inr wt \<Rightarrow> do {
            s \<leftarrow> scaleWorkload K wt target;
            case s of
              Inl scaleErr \<Rightarrow> ret (Some (Wrapped (''scaling workload back to '' @ fmt_d target) scaleErr))
            | Inr _ \<Rightarrow> ret None
          }
      } else ret None)"

definition finishRestore ::
  "'w kube \<Rightarrow> litestreamRestore \<Rightarrow> ('w, result \<times> goerr option) handler" where
  "finishRestore K restore = do {
     _ \<leftarrow> (if lr_Mode restore \<noteq> RestoreModeToPVC then releaseRestoreLock K restore else ret ());
     t \<leftarrow> now K;
     let restore = markRestore (k_Lib K) t RestoreConditionApplicationResumed ConditionTrue
           ''WorkloadScaledUp'' ''application resumed'' restore
     in do {
          _ \<leftarrow> recordEvent K (restoreEvent restore EventTypeNormal ''ApplicationResumed''
            ''Application workload resumed after restore'');
          _ \<leftarrow> recordEvent K (restoreEvent restore EventTypeNormal ''RestoreComplete''
            ''Litestream restore completed successfully'');
          t \<leftarrow> now K;
          withResult emptyResult
            (advance K restore RestorePhaseCompleted ''restore completed successfully'' (Some t))
        }
   }"

definition reconcileResuming ::
  "'w kube \<Rightarrow> litestreamRestore \<Rightarrow> litestreamReplica \<Rightarrow> ('w, result \<times> goerr option) handler" where
  "reconcileResuming K restore sourceDB = do {
     e \<leftarrow> resumeReplication K sourceDB;
     case e of
       Some err \<Rightarrow> ret (emptyResult, Some (Wrapped ''removing pause annotation from LitestreamReplica'' err))
     | None \<Rightarrow> do {
         c \<leftarrow> getConfigMap K (db_Namespace sourceDB, db_Name sourceDB @ ''-litestream'');
         case c of
           Inl err \<Rightarrow> ret (requeueAfter restoreRequeueInterval,
                        Some (Wrapped ''getting litestream ConfigMap'' err))
         | Inr cm \<Rightarrow>
             if lookup (cm_Data cm) litestreamConfigKey = pausedConfig
             then ret (requeueAfter restoreRequeueInterval, None)
             else do {
               s \<leftarrow> scaleUp K sourceDB (restoredReplicas restore);
               case s of
                 Some err \<Rightarrow> ret (emptyResult, Some err)
               | None \<Rightarrow> finishRestore K restore
             }
       }
   }"

section \<open>Finalization\<close>

definition midRestore :: "string \<Rightarrow> bool" where
  "midRestore phase \<longleftrightarrow> phase = RestorePhaseFencing \<or> phase = RestorePhaseRestoring \<or>
     phase = RestorePhaseValidating"

definition handleFinalization ::
  "'w kube \<Rightarrow> litestreamRestore \<Rightarrow> litestreamReplica option \<Rightarrow> ('w, result \<times> goerr option) handler" where
  "handleFinalization K restore sourceDB =
     (if \<not> l_ContainsFinalizer (k_Lib K) (lr_Meta restore) restoreFinalizerName
      then ret (emptyResult, None)
      else do {
        _ \<leftarrow> (if lr_Mode restore \<noteq> RestoreModeToPVC then releaseRestoreLock K restore else ret ());
        _ \<leftarrow> (case sourceDB of
               Some db \<Rightarrow>
                 if lr_Mode restore \<noteq> RestoreModeToPVC then
                   if midRestore (lr_Phase restore) then do {
                     _ \<leftarrow> recordEvent K (restoreEvent restore EventTypeWarning ''DeletedMidRestore''
                       (''LitestreamRestore deleted during '' @ lr_Phase restore @
                        '' phase; workload left fenced '' @ emdash @ '' manual intervention required''));
                     ret None
                   } else resumeReplication K db
                 else ret None
             | None \<Rightarrow> ret None);
        u \<leftarrow> updateRestore K (restore\<lparr>lr_Meta :=
               l_RemoveFinalizer (k_Lib K) (lr_Meta restore) restoreFinalizerName\<rparr>);
        case u of
          Inl err \<Rightarrow> ret (emptyResult, Some err)
        | Inr _ \<Rightarrow> ret (emptyResult, None)
      })"

section \<open>Reconcile\<close>

definition hasBackup :: "litestreamReplica \<Rightarrow> bool" where
  "hasBackup sourceDB \<longleftrightarrow> bk_Enabled (db_Backup sourceDB) \<and> db_S3 sourceDB \<noteq> None"

definition reconcilePhase ::
  "'w kube \<Rightarrow> litestreamRestore \<Rightarrow> litestreamReplica \<Rightarrow> ('w, result \<times> goerr option) handler" where
  "reconcilePhase K restore sourceDB =
     (let phase = lr_Phase restore in
      if phase = [] \<or> phase = RestorePhasePending then reconcilePending K restore sourceDB
      else if phase = RestorePhaseAcquiringLock then reconcileAcquiringLock K restore sourceDB
      else if phase = RestorePhaseFencing then reconcileFencing K restore sourceDB
      else if phase = RestorePhaseRestoring then reconcileRestoring K restore sourceDB
      else if phase = RestorePhaseValidating then
        withResult (requeueAfter restoreRequeueInterval)
          (advance K restore
            (if lr_Mode restore = RestoreModeToPVC then RestorePhaseCompleted else RestorePhaseResuming)
            ''skipping legacy validation phase'' None)
      else if phase = RestorePhaseResuming then reconcileResuming K restore sourceDB
      else ret (emptyResult, None))"

definition RestoreReconcile :: "'w kube \<Rightarrow> nsname \<Rightarrow> ('w, result \<times> goerr option) handler" where
  "RestoreReconcile K req = do {
     r \<leftarrow> getRestore K req;
     case r of
       Inl err \<Rightarrow> if IsNotFound err then ret (emptyResult, None) else ret (emptyResult, Some err)
     | Inr restore \<Rightarrow>
         if \<not> l_ContainsFinalizer (k_Lib K) (lr_Meta restore) restoreFinalizerName then do {
           u \<leftarrow> updateRestore K (restore\<lparr>lr_Meta :=
             l_AddFinalizer (k_Lib K) (lr_Meta restore) restoreFinalizerName\<rparr>);
           case u of
             Inl err \<Rightarrow> ret (emptyResult, Some err)
           | Inr _ \<Rightarrow> ret (requeue, None)
         } else do {
           s \<leftarrow> getReplica K (lr_Namespace restore, lr_Source restore);
           case s of
             Inl err \<Rightarrow>
               if \<not> IsNotFound err then ret (emptyResult, Some err)
               else if \<not> IsZero (om_DeletionTimestamp (lr_Meta restore))
               then handleFinalization K restore None
               else withResult emptyResult
                 (failRestore K restore (''LitestreamReplica '' @ fmt_q (lr_Source restore) @
                    '' not found: '' @ errText err))
           | Inr sourceDB \<Rightarrow>
               if \<not> IsZero (om_DeletionTimestamp (lr_Meta restore))
               then handleFinalization K restore (Some sourceDB)
               else if lr_Phase restore = RestorePhaseCompleted \<or> lr_Phase restore = RestorePhaseFailed
               then ret (emptyResult, None)
               else if \<not> hasBackup sourceDB
               then withResult emptyResult
                 (failRestore K restore (''LitestreamReplica '' @ fmt_q (lr_Source restore) @
                    '' does not have backup enabled with an S3 destination''))
               else reconcilePhase K restore sourceDB
         }
   }"

end
