(* ===== verification/Restore_Runs.thy ===== *)
theory Restore_Runs
  imports Restore_Controller Samples
begin

text \<open>
  Reasoning about one run of the restore reconciler. A run starts by reading the restore and its
  source; \<open>runStart\<close> recovers both from the trace. \<open>RestoreReconcile_guards\<close> and
  \<open>reconcilePhase_guards\<close> reduce a guard on the whole reconciler to its handlers, and
  \<open>step_defs\<close> collects the definitions that a handler is unfolded to.
\<close>

section \<open>The object that a status patch sends\<close>

lemma withStatus_simps [simp]:
  "lr_Meta (withStatus ph j m orig st ct r) = lr_Meta r"
  "lr_Spec (withStatus ph j m orig st ct r) = lr_Spec r"
  "st_Phase (lr_Status (withStatus ph j m orig st ct r)) = ph"
  "st_Message (lr_Status (withStatus ph j m orig st ct r)) = m"
  "st_Conditions (lr_Status (withStatus ph j m orig st ct r)) = st_Conditions (lr_Status r)"
  "st_ResolvedPVC (lr_Status (withStatus ph j m orig st ct r)) = st_ResolvedPVC (lr_Status r)"
  "st_ResolvedPath (lr_Status (withStatus ph j m orig st ct r)) = st_ResolvedPath (lr_Status r)"
  "st_ResolvedSubPath (lr_Status (withStatus ph j m orig st ct r)) = st_ResolvedSubPath (lr_Status r)"
  "st_JobName (lr_Status (withStatus ph j m orig st ct r)) =
     (if j = [] then st_JobName (lr_Status r) else j)"
  "st_OriginalReplicas (lr_Status (withStatus ph j m orig st ct r)) =
     (case st_OriginalReplicas (lr_Status r) of None \<Rightarrow> orig | Some n \<Rightarrow> Some n)"
  "st_StartTime (lr_Status (withStatus ph j m orig st ct r)) =
     (case st_StartTime (lr_Status r) of None \<Rightarrow> st | Some t \<Rightarrow> Some t)"
  "st_CompletionTime (lr_Status (withStatus ph j m orig st ct r)) =
     (case ct of None \<Rightarrow> st_CompletionTime (lr_Status r) | Some t \<Rightarrow> Some t)"
  by (auto simp: withStatus_def Let_def split: option.splits)

lemma markRestore_simps [simp]:
  "lr_Meta (markRestore L t ty s rs m r) = lr_Meta r"
  "lr_Spec (markRestore L t ty s rs m r) = lr_Spec r"
  "st_Phase (lr_Status (markRestore L t ty s rs m r)) = lr_Phase r"
  "st_JobName (lr_Status (markRestore L t ty s rs m r)) = st_JobName (lr_Status r)"
  "st_OriginalReplicas (lr_Status (markRestore L t ty s rs m r)) = st_OriginalReplicas (lr_Status r)"
  "st_StartTime (lr_Status (markRestore L t ty s rs m r)) = st_StartTime (lr_Status r)"
  "st_CompletionTime (lr_Status (markRestore L t ty s rs m r)) = st_CompletionTime (lr_Status r)"
  "st_ResolvedPVC (lr_Status (markRestore L t ty s rs m r)) = st_ResolvedPVC (lr_Status r)"
  "st_ResolvedPath (lr_Status (markRestore L t ty s rs m r)) = st_ResolvedPath (lr_Status r)"
  "st_ResolvedSubPath (lr_Status (markRestore L t ty s rs m r)) = st_ResolvedSubPath (lr_Status r)"
  by (simp_all add: markRestore_def)

lemma withResolved_simps [simp]:
  "lr_Meta (withResolved p q s r) = lr_Meta r" "lr_Spec (withResolved p q s r) = lr_Spec r"
  "st_Phase (lr_Status (withResolved p q s r)) = lr_Phase r"
  "st_Conditions (lr_Status (withResolved p q s r)) = st_Conditions (lr_Status r)"
  "st_OriginalReplicas (lr_Status (withResolved p q s r)) = st_OriginalReplicas (lr_Status r)"
  "st_StartTime (lr_Status (withResolved p q s r)) = st_StartTime (lr_Status r)"
  "st_CompletionTime (lr_Status (withResolved p q s r)) = st_CompletionTime (lr_Status r)"
  "st_JobName (lr_Status (withResolved p q s r)) = st_JobName (lr_Status r)"
  by (simp_all add: withResolved_def)

section \<open>The start of a run\<close>

fun readRestore :: "action list \<Rightarrow> litestreamRestore option" where
  "readRestore (GetRestore n (Inr r) # as) = Some r"
| "readRestore _ = None"

fun runStart :: "action list \<Rightarrow> (litestreamRestore \<times> litestreamReplica) option" where
  "runStart (GetRestore n (Inr r) # GetReplica m (Inr db) # as) = Some (r, db)"
| "runStart _ = None"

lemma readRestore_append [simp]: "readRestore h = Some r \<Longrightarrow> readRestore (h @ x) = Some r"
  by (cases h rule: readRestore.cases) auto

lemma runStart_append [simp]: "runStart h = Some p \<Longrightarrow> runStart (h @ x) = Some p"
  by (cases h rule: runStart.cases) auto

lemma runStart_readRestore: "runStart h = Some (r, db) \<Longrightarrow> readRestore h = Some r"
  by (cases h rule: runStart.cases) auto

section \<open>From handlers to the reconciler\<close>

definition terminal :: "string \<Rightarrow> bool" where
  "terminal p \<longleftrightarrow> p = RestorePhaseCompleted \<or> p = RestorePhaseFailed"

definition deleting :: "litestreamRestore \<Rightarrow> bool" where
  "deleting r \<longleftrightarrow> \<not> IsZero (om_DeletionTimestamp (lr_Meta r))"

definition sourceMissing :: "action list \<Rightarrow> bool" where
  "sourceMissing h \<longleftrightarrow> (\<exists>n e. GetReplica n (Inl e) \<in> set h \<and> IsNotFound e)"

lemma sourceMissing_append [simp]: "sourceMissing h \<Longrightarrow> sourceMissing (h @ x)"
  by (auto simp: sourceMissing_def)

lemma RestoreReconcile_guards:
  assumes quiet: "\<And>h r u. readRestore h = Some r \<Longrightarrow>
        \<not> l_ContainsFinalizer (k_Lib K) (lr_Meta r) restoreFinalizerName \<Longrightarrow>
        G h (UpdateRestore (r\<lparr>lr_Meta := l_AddFinalizer (k_Lib K) (lr_Meta r) restoreFinalizerName\<rparr>) u)"
      "\<And>h n u. G h (GetRestore n u)" "\<And>h n u. G h (GetReplica n u)"
    and fin: "\<And>r db h. readRestore h = Some r \<Longrightarrow> deleting r \<Longrightarrow>
        l_ContainsFinalizer (k_Lib K) (lr_Meta r) restoreFinalizerName \<Longrightarrow>
        (\<forall>d. db = Some d \<longrightarrow> runStart h = Some (r, d)) \<Longrightarrow> guards G h (handleFinalization K r db)"
    and fail: "\<And>r h msg. readRestore h = Some r \<Longrightarrow> \<not> deleting r \<Longrightarrow>
        l_ContainsFinalizer (k_Lib K) (lr_Meta r) restoreFinalizerName \<Longrightarrow>
        sourceMissing h \<or> (\<exists>db. runStart h = Some (r, db) \<and> \<not> terminal (lr_Phase r) \<and> \<not> hasBackup db)
        \<Longrightarrow> guards G h (failRestore K r msg)"
    and phase: "\<And>r db h. runStart h = Some (r, db) \<Longrightarrow> \<not> deleting r \<Longrightarrow> \<not> terminal (lr_Phase r) \<Longrightarrow>
        l_ContainsFinalizer (k_Lib K) (lr_Meta r) restoreFinalizerName \<Longrightarrow> hasBackup db \<Longrightarrow> guards G h (reconcilePhase K r db)"
  shows "guards G [] (RestoreReconcile K req)"
  unfolding RestoreReconcile_def withResult_def
  by (intro guards_intros guards_last quiet fin fail phase;
      auto simp: deleting_def terminal_def sourceMissing_def)

text \<open>One goal per phase; the mode splits the phases that have two courses.\<close>

lemma reconcilePhase_guards:
  assumes "lr_Phase r = [] \<or> lr_Phase r = RestorePhasePending \<Longrightarrow> guards G h (reconcilePending K r db)"
    and "lr_Phase r = RestorePhaseAcquiringLock \<Longrightarrow> guards G h (reconcileAcquiringLock K r db)"
    and "lr_Phase r = RestorePhaseFencing \<Longrightarrow> guards G h (reconcileFencing K r db)"
    and "lr_Phase r = RestorePhaseRestoring \<Longrightarrow> guards G h (reconcileRestoring K r db)"
    and "\<And>p m. lr_Phase r = RestorePhaseValidating \<Longrightarrow>
      p = (if lr_Mode r = RestoreModeToPVC then RestorePhaseCompleted else RestorePhaseResuming) \<Longrightarrow>
      guards G h (advance K r p m None)"
    and "lr_Phase r = RestorePhaseResuming \<Longrightarrow> guards G h (reconcileResuming K r db)"
  shows "guards G h (reconcilePhase K r db)"
  using assms unfolding reconcilePhase_def withResult_def Let_def
  by (auto intro!: guards_if guards_last guards_ret)

text \<open>Handlers down to their calls.\<close>

lemmas step_defs = reconcilePending_def storeResolved_def resolveRestoreTarget_def
  getTargetWorkloadForRestore_def launchRestoreJob_def jobLaunched_def reconcileRestoreConfig_def
  reconcileAcquiringLock_def lockAcquired_def lockHeld_def pauseReplication_def
  reconcileFencing_def fenceWorkload_def scaleWorkload_def
  reconcileRestoring_def restoreJobSucceeded_def
  reconcileResuming_def resumeReplication_def scaleUp_def finishRestore_def releaseRestoreLock_def
  failRestore_def advance_def setStatus_def withResult_def

end
