(* ===== verification/Validators.thy ===== *)
theory Validators
  imports Workload Samples
begin

text \<open>
  The validating webhooks, \<open>litestreamreplica_webhook.go\<close> and \<open>litestreamrestore_webhook.go\<close>. A
  field error keeps its kind, path, value and detail; the code collects them in a list and returns
  their aggregate as an error when the list is not empty. The outcome is the list of warnings and
  the errors, if any.
\<close>

datatype fieldError =
    FieldInvalid "string list" string string
  | FieldRequired "string list" string
  | FieldForbidden "string list" string

type_synonym outcome = "string list \<times> fieldError list option"

definition aggregate :: "string list \<Rightarrow> fieldError list \<Rightarrow> outcome" where
  "aggregate warnings errs = (if errs \<noteq> [] then (warnings, Some errs) else (warnings, None))"

section \<open>LitestreamReplica\<close>

definition replicasOrOne :: "int option \<Rightarrow> int" where
  "replicasOrOne r = (case r of Some n \<Rightarrow> n | None \<Rightarrow> 1)"

definition RollingUpdateDeploymentStrategyType :: string where
  [const_defs]: "RollingUpdateDeploymentStrategyType = ''RollingUpdate''"

definition rollingUpdateWarning :: string where
  "rollingUpdateWarning =
     ''target Deployment uses RollingUpdate strategy which can temporarily run two pods; '' @
     ''Recreate or RollingUpdate with maxSurge=0 is recommended for single-writer SQLite safety''"

text \<open>The errors so far are passed in and returned extended, with the warnings and the API error.\<close>

definition checkWorkload ::
  "'w kube \<Rightarrow> litestreamReplica \<Rightarrow> fieldError list \<Rightarrow>
     ('w, string list \<times> goerr option \<times> fieldError list) handler" where
  "checkWorkload K db errs =
     (if sp_TargetStatefulSet (db_Spec db) \<noteq> [] then do {
        r \<leftarrow> getStatefulSet K (db_Namespace db, sp_TargetStatefulSet (db_Spec db));
        case r of
          Inl err \<Rightarrow> if IsNotFound err then ret ([], None, errs) else ret ([], Some err, errs)
        | Inr ss \<Rightarrow>
            let replicas = replicasOrOne (ss_Replicas ss) in
            ret ([], None,
              if replicas > 1
              then errs @ [FieldInvalid [''spec'', ''targetStatefulSet'']
                     (sp_TargetStatefulSet (db_Spec db))
                     (''target StatefulSet has '' @ fmt_d replicas @
                      '' replicas; Litestream requires exactly 1 writer'')]
              else errs)
      } else do {
        r \<leftarrow> getDeployment K (db_Namespace db, sp_TargetDeployment (db_Spec db));
        case r of
          Inl err \<Rightarrow> if IsNotFound err then ret ([], None, errs) else ret ([], Some err, errs)
        | Inr dep \<Rightarrow>
            let replicas = replicasOrOne (dp_Replicas dep);
                errs = (if replicas > 1
                  then errs @ [FieldInvalid [''spec'', ''targetDeployment'']
                         (sp_TargetDeployment (db_Spec db))
                         (''target Deployment has '' @ fmt_d replicas @
                          '' replicas; Litestream requires exactly 1 writer'')]
                  else errs);
                warnings = (if ds_Type (dp_Strategy dep) = RollingUpdateDeploymentStrategyType \<or>
                               ds_Type (dp_Strategy dep) = []
                  then [rollingUpdateWarning] else [])
            in ret (warnings, None, errs)
      })"

definition bothSet :: "litestreamReplica \<Rightarrow> bool" where
  "bothSet db \<longleftrightarrow> sp_TargetDeployment (db_Spec db) \<noteq> [] \<and> sp_TargetStatefulSet (db_Spec db) \<noteq> []"

definition neitherSet :: "litestreamReplica \<Rightarrow> bool" where
  "neitherSet db \<longleftrightarrow> sp_TargetDeployment (db_Spec db) = [] \<and> sp_TargetStatefulSet (db_Spec db) = []"

definition targetErrors :: "litestreamReplica \<Rightarrow> fieldError list" where
  "targetErrors db =
     (if bothSet db then
        [FieldInvalid [''spec'', ''targetStatefulSet''] (sp_TargetStatefulSet (db_Spec db))
           ''targetStatefulSet and targetDeployment are mutually exclusive; set exactly one'']
      else if neitherSet db then
        [FieldRequired [''spec'', ''targetDeployment'']
           ''one of targetDeployment or targetStatefulSet must reference an existing workload'']
      else [])"

definition databaseErrors :: "litestreamReplica \<Rightarrow> fieldError list" where
  "databaseErrors db =
     (if sp_DatabaseName (db_Spec db) = [] then
        [FieldRequired [''spec'', ''databaseName'']
           (''databaseName must be set (e.g. '' @ fmt_q ''app.db'' @ '')'')]
      else []) @
     (if sp_DatabasePath (db_Spec db) = [] then
        [FieldRequired [''spec'', ''databasePath'']
           (''databasePath must be set (e.g. '' @ fmt_q ''/data'' @ '')'')]
      else if \<not> HasPrefix (sp_DatabasePath (db_Spec db)) ''/'' then
        [FieldInvalid [''spec'', ''databasePath''] (sp_DatabasePath (db_Spec db))
           ''must be an absolute path (start with /)'']
      else [])"

definition backupErrors :: "litestreamReplica \<Rightarrow> fieldError list" where
  "backupErrors db =
     (if bk_Enabled (db_Backup db) then
        (case db_S3 db of
           None \<Rightarrow> [FieldRequired [''spec'', ''backup'', ''destination'', ''s3'']
                     ''backup.destination.s3 is required when backup.enabled is true'']
         | Some s3 \<Rightarrow>
             (if s3_Bucket s3 = [] then
                [FieldRequired [''spec'', ''backup'', ''destination'', ''s3'', ''bucket'']
                   ''bucket must be set''] else []) @
             (if s3_SecretRef s3 = [] then
                [FieldRequired [''spec'', ''backup'', ''destination'', ''s3'', ''secretRef'']
                   ''secretRef must name a Secret containing S3 credentials''] else []))
      else [])"

definition validateLitestreamReplica ::
  "'w kube option \<Rightarrow> litestreamReplica \<Rightarrow> ('w, outcome) handler" where
  "validateLitestreamReplica c db =
     (let errs = targetErrors db @ databaseErrors db @ backupErrors db in
      case c of
        Some K \<Rightarrow>
          if \<not> bothSet db \<and> \<not> neitherSet db then do {
            res \<leftarrow> checkWorkload K db errs;
            case res of (workloadWarnings, err, errs) \<Rightarrow> ret (aggregate workloadWarnings errs)
          } else ret (aggregate [] errs)
      | None \<Rightarrow> ret (aggregate [] errs))"

definition ReplicaValidateCreate ::
  "'w kube option \<Rightarrow> litestreamReplica \<Rightarrow> ('w, outcome) handler" where
  "ReplicaValidateCreate c db = validateLitestreamReplica c db"

definition ReplicaValidateUpdate ::
  "'w kube option \<Rightarrow> litestreamReplica \<Rightarrow> litestreamReplica \<Rightarrow> ('w, outcome) handler" where
  "ReplicaValidateUpdate c oldDB newDB = validateLitestreamReplica c newDB"

definition ReplicaValidateDelete :: "litestreamReplica \<Rightarrow> ('w, outcome) handler" where
  "ReplicaValidateDelete db = ret ([], None)"

section \<open>LitestreamRestore\<close>

definition validateLitestreamRestore :: "litestreamRestore \<Rightarrow> outcome" where
  "validateLitestreamRestore restore = aggregate []
     ((if lr_Mode restore = RestoreModeInPlace \<and> rsp_Target (lr_Spec restore) \<noteq> None then
         [FieldForbidden [''spec'', ''target'']
            (''target must not be set when mode is InPlace; '' @
             ''the operator derives the target from the source LitestreamReplica'')] else []) @
      (if lr_Mode restore = RestoreModeToPVC \<and> rsp_Target (lr_Spec restore) = None then
         [FieldRequired [''spec'', ''target''] ''target is required when mode is ToPVC''] else []) @
      (case rsp_Target (lr_Spec restore) of
         Some t \<Rightarrow> if rt_Path t \<noteq> [] \<and> \<not> HasPrefix (rt_Path t) ''/'' then
           [FieldInvalid [''spec'', ''target'', ''path''] (rt_Path t)
              ''must be an absolute path (start with /)''] else []
       | None \<Rightarrow> []))"

definition RestoreValidateCreate :: "litestreamRestore \<Rightarrow> outcome" where
  "RestoreValidateCreate restore = validateLitestreamRestore restore"

definition RestoreValidateUpdate :: "litestreamRestore \<Rightarrow> litestreamRestore \<Rightarrow> outcome" where
  "RestoreValidateUpdate old new = validateLitestreamRestore new"

definition RestoreValidateDelete :: "litestreamRestore \<Rightarrow> outcome" where
  "RestoreValidateDelete restore = ([], None)"

section \<open>What is accepted\<close>


definition wellFormedRestore :: "litestreamRestore \<Rightarrow> bool" where
  "wellFormedRestore r \<longleftrightarrow>
     (lr_Mode r = RestoreModeInPlace \<longrightarrow> rsp_Target (lr_Spec r) = None) \<and>
     (lr_Mode r = RestoreModeToPVC \<longrightarrow> rsp_Target (lr_Spec r) \<noteq> None) \<and>
     (\<forall>t. rsp_Target (lr_Spec r) = Some t \<longrightarrow> rt_Path t = [] \<or> HasPrefix (rt_Path t) ''/'')"





lemma aggregate_ok: "snd (aggregate ws errs) = None \<longleftrightarrow> errs = []"
  by (simp add: aggregate_def)

text \<open>The workload check adds an error exactly when it read a workload with several writers.\<close>

definition manyWriters :: "action list \<Rightarrow> bool" where
  "manyWriters tr \<longleftrightarrow> (\<exists>a\<in>set tr. \<exists>wt. readsTarget a = Some wt \<and> desiredReplicas wt > 1)"

lemma manyWriters_simps [simp]:
  "\<not> manyWriters []"
  "manyWriters (a # tr) \<longleftrightarrow> (\<exists>wt. readsTarget a = Some wt \<and> desiredReplicas wt > 1) \<or> manyWriters tr"
  by (auto simp: manyWriters_def)








lemma checkWorkload_errors_grow:
  "yields (\<lambda>r tr. \<exists>es. snd (snd r) = errs @ es) (checkWorkload K db errs)"
  unfolding checkWorkload_def Let_def
  by (auto intro!: yields_intros)

section \<open>Properties\<close>


text \<open>The restore webhook accepts exactly the well-formed restores: a target for \<open>ToPVC\<close>, none
  for \<open>InPlace\<close>, and an absolute path where one is given.\<close>

theorem validate_restore_exact:
  "snd (validateLitestreamRestore r) = None \<longleftrightarrow> wellFormedRestore r"
  by (auto simp: validateLitestreamRestore_def aggregate_ok wellFormedRestore_def split: option.splits)

end
