(* ===== verification/Injector_Props.thy ===== *)
theory Injector_Props
  imports Injector Samples
begin

text \<open>
  The properties of the mutating webhook: what it adds and where, that it acts once, that it leaves
  alone what is not its own, and every branch of its answer.
\<close>

lemma inject_sample: "\<exists>pod'. inject samplePod sampleReplica = Inr pod'"
  by (simp add: inject_def findVolumeForPath_def findTargetContainer_def findVolume_scan_def
      sample_defs HasPrefix_def Let_def)

definition sampleInjected :: pod where
  "sampleInjected = (case inject samplePod sampleReplica of Inr p \<Rightarrow> p | Inl e \<Rightarrow> samplePod)"

lemma inject_sampleInjected: "inject samplePod sampleReplica = Inr sampleInjected"
  using inject_sample by (auto simp: sampleInjected_def)

definition sampleCodec :: "pod codec" where
  "sampleCodec = \<lparr>c_DecodeRaw = Inr, c_Marshal = Inr\<rparr>"

text \<open>C18. Injection only appends: the application's containers come first and unchanged, followed by
  one sidecar named \<open>litestream\<close>; the restore container precedes and the bootstrap container follows
  all init containers of the pod, so a missing database is restored before the bootstrap script
  looks for it; the volumes keep their order and gain the ConfigMaps that the replica controller
  creates for this resource.\<close>

theorem inject_appends:
  assumes "inject pod db = Inr pod'"
  shows "\<exists>sidecar pre post.
     ps_Containers (pod_Spec pod') = ps_Containers (pod_Spec pod) @ [sidecar] \<and>
     ct_Name sidecar = litestreamContainerName \<and>
     ps_InitContainers (pod_Spec pod') = pre @ ps_InitContainers (pod_Spec pod) @ post \<and>
     map ct_Name pre = (if restoreInjected db then [autoRestoreContainerName] else []) \<and>
     map ct_Name post = (if bootstrapInjected db then [dbBootstrapContainerName] else []) \<and>
     (\<exists>vs. ps_Volumes (pod_Spec pod') = ps_Volumes (pod_Spec pod) @ vs \<and>
        map vol_ConfigMap vs = Some (db_Name db @ ''-litestream'') #
          (if bootstrapInjected db then [Some (db_Name db @ ''-bootstrap-sql'')] else []))"
  using assms
proof (rule inject_parts)
  fix mount
  assume "ps_Containers (pod_Spec pod') = ps_Containers (pod_Spec pod) @ [buildSidecar db mount]"
    and "ps_InitContainers (pod_Spec pod') =
       (if restoreInjected db then [autoRestoreContainer db mount] else []) @
       ps_InitContainers (pod_Spec pod) @
       (if bootstrapInjected db then [bootstrapContainer db mount] else [])"
    and "ps_Volumes (pod_Spec pod') = ps_Volumes (pod_Spec pod) @
       configMapVolume litestreamConfigVolume (db_Name db @ ''-litestream'') #
       (if bootstrapInjected db
        then [configMapVolume dbBootstrapSQLVolume (db_Name db @ ''-bootstrap-sql'')] else [])"
  then show ?thesis
    by (intro exI [of _ "buildSidecar db mount"]
        exI [of _ "if restoreInjected db then [autoRestoreContainer db mount] else []"]
        exI [of _ "if bootstrapInjected db then [bootstrapContainer db mount] else []"])
       (simp add: configMapVolume_def)
qed

theorem inject_appends_witness:
  "\<exists>sidecar. ps_Containers (pod_Spec sampleInjected) = ps_Containers (pod_Spec samplePod) @ [sidecar] \<and>
     ct_Name sidecar = litestreamContainerName"
  using inject_appends [OF inject_sampleInjected] by blast

text \<open>C16. Every container the webhook adds mounts the data volume exactly as the application does:
  same volume, same mount path, same sub-path, writable; and the application mount it copies is the
  longest one that covers the database directory.\<close>

theorem inject_shares_application_mount:
  assumes "inject pod db = Inr pod'"
  shows "\<exists>c v. findTargetContainer (ps_Containers (pod_Spec pod)) (sp_Container (db_Spec db)) = Some c \<and>
     v \<in> set (ct_VolumeMounts c) \<and> covers (sp_DatabasePath (db_Spec db)) v \<and>
     (\<forall>w\<in>set (ct_VolumeMounts c). covers (sp_DatabasePath (db_Spec db)) w \<longrightarrow>
        length (vm_MountPath w) \<le> length (vm_MountPath v)) \<and>
     (\<forall>d\<in>set (ps_Containers (pod_Spec pod') @ ps_InitContainers (pod_Spec pod')).
        d \<in> set (ps_Containers (pod_Spec pod) @ ps_InitContainers (pod_Spec pod)) \<or> mountsLike v d)"
  using assms
proof (rule inject_parts)
  fix mount
  assume m: "findVolumeForPath pod (sp_DatabasePath (db_Spec db)) (sp_Container (db_Spec db)) = Inr mount"
    and parts: "ps_Containers (pod_Spec pod') = ps_Containers (pod_Spec pod) @ [buildSidecar db mount]"
    "ps_InitContainers (pod_Spec pod') =
       (if restoreInjected db then [autoRestoreContainer db mount] else []) @
       ps_InitContainers (pod_Spec pod) @
       (if bootstrapInjected db then [bootstrapContainer db mount] else [])"
  from m obtain c v where c: "findTargetContainer (ps_Containers (pod_Spec pod)) (sp_Container (db_Spec db)) = Some c"
    and v: "findVolume_scan (sp_DatabasePath (db_Spec db)) (ct_VolumeMounts c) = Some v"
    and mount: "mount = \<lparr>mt_volumeName = vm_Name v, mt_mountPath = vm_MountPath v, mt_subPath = vm_SubPath v\<rparr>"
    by (rule findVolumeForPath_Inr)
  have "\<forall>d\<in>set (ps_Containers (pod_Spec pod') @ ps_InitContainers (pod_Spec pod')).
      d \<in> set (ps_Containers (pod_Spec pod) @ ps_InitContainers (pod_Spec pod)) \<or> mountsLike v d"
    using parts mountsLike_injected [OF mount, of db] by auto
  then show ?thesis
    using c webhook_search.search_covers [OF v] webhook_search.search_longest [OF v] by blast
qed

theorem inject_shares_application_mount_witness:
  "\<exists>v\<in>set (ct_VolumeMounts sampleContainer). \<forall>d\<in>set (ps_Containers (pod_Spec sampleInjected)).
     d = sampleContainer \<or> mountsLike v d"
  using inject_shares_application_mount [OF inject_sampleInjected]
  by (simp add: findTargetContainer_def samplePod_def samplePodSpec_def sampleReplica_def) blast

text \<open>C23. A pod that went through injection is admitted unchanged the next time, without asking the
  cluster: the sidecar is never added twice.\<close>

theorem Handle_idempotent:
  assumes "inject pod db = Inr pod'" and "c_DecodeRaw J raw = Inr pod'"
  shows "yields (\<lambda>r tr. tr = [] \<and> (\<exists>msg. r = Allowed msg)) (Handle K J raw ns)"
  using assms alreadyInjected_inject [OF assms(1)]
  by (auto simp: Handle_def intro!: yields_intros)

theorem Handle_idempotent_witness:
  "yields (\<lambda>r tr. tr = [] \<and> (\<exists>msg. r = Allowed msg)) (Handle emptyCluster sampleCodec sampleInjected ''ns'')"
  by (rule Handle_idempotent [OF inject_sampleInjected]) (simp add: sampleCodec_def)

text \<open>Annotations that the pod already carries keep their values, and the three Prometheus
  annotations are present afterwards.\<close>

theorem inject_preserves_annotations:
  assumes "inject pod db = Inr pod'"
  shows "(lookup (om_Annotations (pod_Meta pod)) k \<noteq> [] \<longrightarrow>
       om_Annotations (pod_Meta pod') k = om_Annotations (pod_Meta pod) k) \<and>
     (k \<in> {''prometheus.io/path'', ''prometheus.io/port'', ''prometheus.io/scrape''} \<longrightarrow>
       lookup (om_Annotations (pod_Meta pod')) k \<noteq> []) \<and>
     (k \<notin> {''prometheus.io/path'', ''prometheus.io/port'', ''prometheus.io/scrape''} \<longrightarrow>
       om_Annotations (pod_Meta pod') k = om_Annotations (pod_Meta pod) k)"
  using assms
proof (rule inject_parts)
  assume "om_Annotations (pod_Meta pod') = prometheusAnnotations (om_Annotations (pod_Meta pod))"
  then show ?thesis
    by (metis prometheusAnnotations_kept prometheusAnnotations_other prometheusAnnotations_set)
qed

theorem inject_preserves_annotations_witness:
  "om_Annotations (pod_Meta sampleInjected) AnnotationConfig = Some ''ns/app-db'' \<and>
   lookup (om_Annotations (pod_Meta sampleInjected)) ''prometheus.io/port'' \<noteq> []"
proof -
  have "lookup (om_Annotations (pod_Meta samplePod)) AnnotationConfig \<noteq> []"
    and "om_Annotations (pod_Meta samplePod) AnnotationConfig = Some ''ns/app-db''"
    by (simp_all add: sample_defs const_defs)
  then show ?thesis
    using inject_preserves_annotations [OF inject_sampleInjected, of AnnotationConfig]
      inject_preserves_annotations [OF inject_sampleInjected, of "''prometheus.io/port''"]
    by simp
qed

text \<open>The webhook asks the cluster for nothing but one replica, and it rejects a pod only when
  the pod asks for injection and is not injected yet: every other pod is admitted as it is.\<close>

definition injectionWanted :: "pod \<Rightarrow> bool" where
  "injectionWanted pod \<longleftrightarrow>
     lookup (om_Annotations (pod_Meta pod)) AnnotationInject = injectTrue \<and> \<not> alreadyInjected pod"

theorem Handle_touches_only_requested:
  assumes "c_DecodeRaw J raw = Inr pod"
  shows "yields (\<lambda>r tr. (tr = [] \<or> (\<exists>n res. tr = [GetReplica n res])) \<and>
     (\<not> injectionWanted pod \<longrightarrow> tr = [] \<and> (\<exists>msg. r = Allowed msg)) \<and>
     (\<forall>raw' out. r = PatchResponseFromRaw raw' out \<longrightarrow> raw' = raw \<and>
        (\<exists>n db pod'. tr = [GetReplica n (Inr db)] \<and> inject pod db = Inr pod' \<and>
           c_Marshal J pod' = Inr out)))
     (Handle K J raw ns)"
  using assms
  by (auto simp: Handle_def resolveLitestreamReplica_def injectionWanted_def Let_def
      intro!: yields_intros)

theorem Handle_touches_only_requested_witness:
  "yields (\<lambda>r tr. tr = [] \<or> (\<exists>n res. tr = [GetReplica n res]))
     (Handle emptyCluster sampleCodec samplePod ''ns'')"
proof -
  have "c_DecodeRaw sampleCodec samplePod = Inr samplePod" by (simp add: sampleCodec_def)
  from Handle_touches_only_requested [OF this] show ?thesis by (rule yields_weaken) simp
qed

end
