(* ===== verification/Replica_Props.thy ===== *)
theory Replica_Props
  imports Replica_Controller Validators Injector_Props
begin

text \<open>
  The properties of the LitestreamReplica reconciler: the phase machine of the status, its
  conditions, the health verdict, the contents of the ConfigMap, the annotation of the target and
  its removal, and the references between annotations and resources.
\<close>

section \<open>Health of the sidecar\<close>

definition sidecarFailing :: "containerStatus \<Rightarrow> bool" where
  "sidecarFailing cs \<longleftrightarrow>
     (\<exists>r. cs_WaitingReason cs = Some r \<and> isFailureReason r) \<or>
     (\<exists>c. cs_TerminatedExitCode cs = Some c \<and> c \<noteq> 0)"

definition sidecarStatuses :: "pod list \<Rightarrow> containerStatus list" where
  "sidecarStatuses pods =
     filter (\<lambda>cs. cs_Name cs = litestreamSidecar) (concat (map pod_ContainerStatuses pods))"

definition scan_ok :: "containerStatus list \<Rightarrow> sidecarScan \<Rightarrow> bool" where
  "scan_ok seen s \<longleftrightarrow>
     sc_runningCount s = int (length (filter cs_Running seen)) \<and>
     (sc_failedPods s = [] \<longleftrightarrow> (\<forall>cs\<in>set seen. \<not> sidecarFailing cs)) \<and>
     (sc_noneFound s \<longleftrightarrow> seen = [])"

abbreviation onlySidecar :: "containerStatus list \<Rightarrow> containerStatus list" where
  "onlySidecar \<equiv> filter (\<lambda>cs. cs_Name cs = litestreamSidecar)"

lemma scan_ok_status:
  "scan_ok seen s \<Longrightarrow> scan_ok (seen @ onlySidecar [cs]) (scanStatus p s cs)"
  by (auto simp: scan_ok_def scanStatus_def sidecarFailing_def Let_def split: option.splits)

lemma scan_ok_statuses:
  "scan_ok seen s \<Longrightarrow> scan_ok (seen @ onlySidecar css) (foldl (scanStatus p) s css)"
proof (induction css arbitrary: seen s)
  case (Cons cs css)
  have "scan_ok ((seen @ onlySidecar [cs]) @ onlySidecar css) (foldl (scanStatus p) (scanStatus p s cs) css)"
    using Cons.prems by (intro Cons.IH scan_ok_status)
  then show ?case by (simp split: if_splits)
qed simp

lemma scan_ok_pods:
  "scan_ok seen s \<Longrightarrow> scan_ok (seen @ sidecarStatuses pods) (foldl scanPod s pods)"
proof (induction pods arbitrary: seen s)
  case (Cons pod pods)
  have "scan_ok ((seen @ onlySidecar (pod_ContainerStatuses pod)) @ sidecarStatuses pods)
      (foldl scanPod (scanPod s pod) pods)"
    using Cons.prems by (intro Cons.IH) (simp add: scanPod_def scan_ok_statuses)
  then show ?case by (simp add: sidecarStatuses_def)
qed (simp add: sidecarStatuses_def)

lemma scan_ok_scanPods: "scan_ok (sidecarStatuses pods) (scanPods pods)"
  using scan_ok_pods [of "[]" _ pods] by (simp add: scanPods_def scan_ok_def)

definition sidecarHealthy :: "pod list \<Rightarrow> bool" where
  "sidecarHealthy pods \<longleftrightarrow>
     (\<exists>cs\<in>set (sidecarStatuses pods). cs_Running cs) \<and>
     (\<forall>cs\<in>set (sidecarStatuses pods). \<not> sidecarFailing cs)"

lemma sidecarVerdict_healthy: "fst (sidecarVerdict (scanPods pods)) \<longleftrightarrow> sidecarHealthy pods"
  using scan_ok_scanPods [of pods]
  by (auto simp: scan_ok_def sidecarVerdict_def sidecarHealthy_def filter_empty_conv)

text \<open>The sidecar counts as healthy exactly when some pod runs it and no pod of the workload has
  it waiting for a failure reason or terminated with a non-zero exit code; a failed pod listing and
  a rollout without sidecars count as unhealthy.\<close>

theorem container_state_exact:
  "yields (\<lambda>r tr. case r of Inl e \<Rightarrow> selectorLabels wt = None \<and> tr = []
     | Inr (healthy, msg) \<Rightarrow> (\<exists>sel res. selectorLabels wt = Some sel \<and>
         tr = [ListPods (db_Namespace db) sel res] \<and>
         healthy = (case res of Inl e \<Rightarrow> False | Inr pods \<Rightarrow> sidecarHealthy pods)))
     (litestreamContainerState K db wt)"
  unfolding litestreamContainerState_def
  by (auto intro!: yields_intros simp: sidecarVerdict_healthy [symmetric] split: prod.splits)

section \<open>The phase of the status\<close>

text \<open>What the phase and the ready flag stand for, as a function of the resource and of the target
  that the lookup found.\<close>

fun resolves :: "action \<Rightarrow> (goerr + workloadTarget) option" where
  "resolves (GetDeployment n (Inr d)) = Some (Inr (WDeployment d))"
| "resolves (GetStatefulSet n (Inr s)) = Some (Inr (WStatefulSet s))"
| "resolves (GetDeployment n (Inl e)) = Some (Inl e)"
| "resolves (GetStatefulSet n (Inl e)) = Some (Inl e)"
| "resolves _ = None"

definition oneSafeWriter :: "workloadTarget \<Rightarrow> bool" where
  "oneSafeWriter wt \<longleftrightarrow> desiredReplicas wt \<le> 1 \<and> \<not> unsafeRollout wt"

definition workloadReady :: "workloadTarget \<Rightarrow> bool" where
  "workloadReady wt \<longleftrightarrow>
     lookup (podTemplateAnnotations wt) injectAnnotation = injectEnabled \<and> readyReplicas wt > 0"

definition phaseSpec :: "litestreamReplica \<Rightarrow> goerr + workloadTarget \<Rightarrow> string" where
  "phaseSpec db res =
     (case res of
        Inl e \<Rightarrow> PhaseError
      | Inr wt \<Rightarrow>
          if \<not> oneSafeWriter wt then PhaseError
          else if isPaused db then PhasePaused
          else if workloadReady wt then PhaseReady else PhasePending)"

lemma mark_simps [simp]:
  "db_Meta (markReplica L t ty st rs msg db) = db_Meta db"
  "db_Spec (markReplica L t ty st rs msg db) = db_Spec db"
  "rst_Phase (db_Status (markReplica L t ty st rs msg db)) = rst_Phase (db_Status db)"
  "rst_Ready (db_Status (markReplica L t ty st rs msg db)) = rst_Ready (db_Status db)"
  "rst_BackupHealthy (db_Status (markReplica L t ty st rs msg db)) = rst_BackupHealthy (db_Status db)"
  "db_Meta (unmarkReplica L ty db) = db_Meta db" "db_Spec (unmarkReplica L ty db) = db_Spec db"
  "rst_Phase (db_Status (unmarkReplica L ty db)) = rst_Phase (db_Status db)"
  "rst_Ready (db_Status (unmarkReplica L ty db)) = rst_Ready (db_Status db)"
  "rst_BackupHealthy (db_Status (unmarkReplica L ty db)) = rst_BackupHealthy (db_Status db)"
  by (simp_all add: markReplica_def unmarkReplica_def)

lemma setPhase_simps [simp]:
  "db_Meta (setPhase p b db) = db_Meta db" "db_Spec (setPhase p b db) = db_Spec db"
  "rst_Phase (db_Status (setPhase p b db)) = p" "rst_Ready (db_Status (setPhase p b db)) = b"
  "rst_Conditions (db_Status (setPhase p b db)) = rst_Conditions (db_Status db)"
  "rst_BackupHealthy (db_Status (setPhase p b db)) = rst_BackupHealthy (db_Status db)"
  by (simp_all add: setPhase_def)

text \<open>The health step changes the status only and sends no status.\<close>

definition sendsStatus :: "action \<Rightarrow> bool" where
  "sendsStatus a \<longleftrightarrow> (\<exists>base new r. a = PatchReplicaStatus base new r)"

lemma sendsStatus_simps [simp]:
  "sendsStatus (PatchReplicaStatus base new r)" "\<not> sendsStatus (ListPods ns sel r1)"
  "\<not> sendsStatus (HttpGet u r2)" "\<not> sendsStatus (RecordEvent e)"
  "\<not> sendsStatus (GetDeployment n r3)" "\<not> sendsStatus (GetStatefulSet n r4)"
  by (simp_all add: sendsStatus_def)

definition sameObject :: "litestreamReplica \<Rightarrow> litestreamReplica \<Rightarrow> bool" where
  "sameObject db db' \<longleftrightarrow> db_Meta db' = db_Meta db \<and> db_Spec db' = db_Spec db"

lemma yields_scrape:
  "yields (\<lambda>r tr. list_all (\<lambda>a. \<not> sendsStatus a) tr) (scrapeReplicationLag K db wt)"
  unfolding scrapeReplicationLag_def fetchLastSyncTime_def by (auto intro!: yields_intros)

lemma yields_containerState:
  "yields (\<lambda>r tr. list_all (\<lambda>a. \<not> sendsStatus a) tr) (litestreamContainerState K db wt)"
  unfolding litestreamContainerState_def by (auto intro!: yields_intros)

text \<open>The health step keeps the object, its phase and the conditions it does not own.\<close>

definition healthStep :: "litestreamReplica \<Rightarrow> goerr + litestreamReplica \<Rightarrow> action list \<Rightarrow> bool" where
  "healthStep db r tr \<longleftrightarrow> list_all (\<lambda>a. \<not> sendsStatus a) tr \<and>
     (\<forall>db'. r = Inr db' \<longrightarrow> sameObject db db' \<and>
        rst_ObservedGeneration (db_Status db') = rst_ObservedGeneration (db_Status db))"

lemma mark_generation [simp]:
  "rst_ObservedGeneration (db_Status (markReplica L t ty st rs msg db)) = rst_ObservedGeneration (db_Status db)"
  "rst_ObservedGeneration (db_Status (unmarkReplica L ty db)) = rst_ObservedGeneration (db_Status db)"
  "rst_ObservedGeneration (db_Status (setPhase p b db)) = rst_ObservedGeneration (db_Status db)"
  by (simp_all add: markReplica_def unmarkReplica_def setPhase_def)

lemma refine_keeps:
  "yields (\<lambda>r tr. list_all (\<lambda>a. \<not> sendsStatus a) tr \<and>
     (\<forall>db' c rs m. r = Inr (db', c, rs, m) \<longrightarrow> sameObject db db' \<and>
        rst_ObservedGeneration (db_Status db') = rst_ObservedGeneration (db_Status db)))
     (refineByLag K db wt h c rs m)"
  unfolding refineByLag_def Let_def
  by (auto intro!: yields_intros yields_bind [OF yields_scrape] simp: sameObject_def)

lemma yields_updateBackupHealth: "yields (healthStep db) (updateBackupHealth K db wt t)"
  unfolding updateBackupHealth_def Let_def
  by (intro yields_intros yields_bind [OF yields_containerState] yields_bind [OF refine_keeps];
      auto simp: healthStep_def sameObject_def)

subsection \<open>What the status says\<close>

definition phaseOK :: "litestreamReplica \<Rightarrow> goerr + workloadTarget \<Rightarrow> litestreamReplica \<Rightarrow> bool" where
  "phaseOK base res new \<longleftrightarrow>
     sameObject base new \<and>
     rst_Phase (db_Status new) = phaseSpec base res \<and>
     (rst_Ready (db_Status new) \<longleftrightarrow> phaseSpec base res = PhaseReady) \<and>
     rst_ObservedGeneration (db_Status new) = om_Generation (db_Meta base)"

text \<open>The \<open>Ready\<close> condition follows the flag, except on the two paths that stop before it is set.\<close>

definition readyOK :: "litestreamReplica \<Rightarrow> goerr + workloadTarget \<Rightarrow> litestreamReplica \<Rightarrow> bool" where
  "readyOK base res new \<longleftrightarrow>
     conditionStatus (rst_Conditions (db_Status new)) ConditionReady =
       (if \<exists>wt. res = Inr wt \<and> \<not> oneSafeWriter wt
        then conditionStatus (rst_Conditions (db_Status base)) ConditionReady
        else Some (if rst_Ready (db_Status new) then ConditionTrue else ConditionFalse))"

fun statusPatchOK ::
  "(litestreamReplica \<Rightarrow> goerr + workloadTarget \<Rightarrow> litestreamReplica \<Rightarrow> bool) \<Rightarrow>
   litestreamReplica \<Rightarrow> goerr + workloadTarget \<Rightarrow> action \<Rightarrow> bool" where
  "statusPatchOK P base res (PatchReplicaStatus b n x) \<longleftrightarrow> b = base \<and> P base res n"
| "statusPatchOK P base res _ \<longleftrightarrow> True"

lemma statusPatchOK_quiet: "list_all (\<lambda>a. \<not> sendsStatus a) tr \<Longrightarrow> list_all (statusPatchOK P base res) tr"
proof (induction tr)
  case (Cons a tr)
  then show ?case by (cases a) auto
qed simp

lemma yields_getTarget:
  "yields (\<lambda>r tr. \<exists>a. tr = [a] \<and> \<not> sendsStatus a \<and>
     (case r of Inr wt \<Rightarrow> resolves a = Some (Inr wt) | Inl e \<Rightarrow> \<exists>e'. resolves a = Some (Inl e')))
   (getTargetWorkload K db)"
  unfolding getTargetWorkload_def by (intro yields_intros; simp)

text \<open>One traversal of \<open>updateStatus\<close> for every claim about the patch it sends.\<close>

text \<open>The steps before the end of \<open>updateStatus\<close> change conditions and the observed generation only.\<close>

lemma sameObject_steps:
  "sameObject base (clearUnsafeRollout L wt db) = sameObject base db"
  "rst_ObservedGeneration (db_Status (clearUnsafeRollout L wt db)) = rst_ObservedGeneration (db_Status db)"
  "sameObject base (pausedCondition L t db) = sameObject base db"
  "rst_ObservedGeneration (db_Status (pausedCondition L t db)) = rst_ObservedGeneration (db_Status db)"
  "sameObject base (observeGeneration base)"
  "rst_ObservedGeneration (db_Status (observeGeneration base)) = om_Generation (db_Meta base)"
  "sameObject base (markReplica L t ty st rs m db) = sameObject base db"
  "sameObject base (unmarkReplica L ty db) = sameObject base db"
  by (cases wt; simp add: sameObject_def pausedCondition_def observeGeneration_def)+

definition observing :: "litestreamReplica \<Rightarrow> litestreamReplica \<Rightarrow> bool" where
  "observing base db \<longleftrightarrow>
     sameObject base db \<and> rst_ObservedGeneration (db_Status db) = om_Generation (db_Meta base)"

lemma health_observing:
  assumes "observing base db"
  shows "yields (\<lambda>r tr. list_all (statusPatchOK P base res) tr \<and> (\<forall>db'. r = Inr db' \<longrightarrow> observing base db'))
    (updateBackupHealth K db wt t)"
proof (rule yields_weaken [OF yields_updateBackupHealth])
  fix r tr
  assume "healthStep db r tr"
  then show "list_all (statusPatchOK P base res) tr \<and> (\<forall>db'. r = Inr db' \<longrightarrow> observing base db')"
    using assms statusPatchOK_quiet [of tr P base res]
    unfolding healthStep_def sameObject_def observing_def by metis
qed

lemma emits_sendStatus: "P base res n \<Longrightarrow> emits (statusPatchOK P base res) (sendStatus K base n)"
  unfolding sendStatus_def by (intro emits_intros; simp)

lemma emits_finish:
  assumes "observing base db" and "\<And>db'. observing base db' \<Longrightarrow> P base res (finishStatus (k_Lib K) t wt db')"
  shows "emits (statusPatchOK P base res) (State_Monad.bind (updateBackupHealth K db wt t)
    (\<lambda>r. case r of Inl err \<Rightarrow> ret (Some err)
      | Inr db \<Rightarrow> sendStatus K base (finishStatus (k_Lib K) t wt db)))"
proof -
  have last: "yields (\<lambda>_ tr'. list_all (statusPatchOK P base res) (tr @ tr'))
      (case r of Inl err \<Rightarrow> ret (Some err)
       | Inr db \<Rightarrow> sendStatus K base (finishStatus (k_Lib K) t wt db))"
    if "list_all (statusPatchOK P base res) tr \<and> (\<forall>db'. r = Inr db' \<longrightarrow> observing base db')" for r tr
    using that emits_sendStatus [of P base res, OF assms(2)] unfolding emits_def
    by (cases r) (auto intro: yields_ret yields_weaken)
  show ?thesis
    unfolding emits_def by (rule yields_bind [OF health_observing [OF assms(1)] last])
qed

lemma updateStatus_patch:
  fixes K :: "'w kube"
  assumes missing: "\<And>t e e'. P base (Inl e) (workloadNotFound (k_Lib K) t e' (observeGeneration base))"
    and many: "\<And>t wt m1 m2. desiredReplicas wt > 1 \<Longrightarrow> P base (Inr wt)
      (markReplica (k_Lib K) t ConditionReplicaCountExceeded ConditionTrue ''TooManyReplicas'' m1
        (setPhase PhaseError False (markReplica (k_Lib K) t ConditionTargetReady ConditionTrue
          ''WorkloadFound'' m2 (observeGeneration base))))"
    and unsafe: "\<And>t wt m1 m2. unsafeRollout wt \<Longrightarrow> P base (Inr wt)
      (markReplica (k_Lib K) t ConditionUnsafeRolloutStrategy ConditionTrue ''UnsafeRolloutStrategy'' m1
        (setPhase PhaseError False (unmarkReplica (k_Lib K) ConditionReplicaCountExceeded
          (markReplica (k_Lib K) t ConditionTargetReady ConditionTrue ''WorkloadFound'' m2
            (observeGeneration base)))))"
    and finish: "\<And>t wt db. oneSafeWriter wt \<Longrightarrow> sameObject base db \<Longrightarrow>
      rst_ObservedGeneration (db_Status db) = om_Generation (db_Meta base) \<Longrightarrow>
      P base (Inr wt) (finishStatus (k_Lib K) t wt db)"
  shows "yields (\<lambda>e tr. \<exists>a rest res. tr = a # rest \<and> resolves a = Some res \<and>
     list_all (statusPatchOK P base res) tr) (updateStatus K base)"
proof -
  have found: "emits (statusPatchOK P base (Inr wt))
      (if desiredReplicas wt > 1 then m1 else if unsafeRollout wt then m2 else m3)"
    if "desiredReplicas wt > 1 \<Longrightarrow> emits (statusPatchOK P base (Inr wt)) m1"
      "unsafeRollout wt \<Longrightarrow> emits (statusPatchOK P base (Inr wt)) m2"
      "oneSafeWriter wt \<Longrightarrow> emits (statusPatchOK P base (Inr wt)) m3"
    for wt and m1 m2 m3 :: "('w, goerr option) handler"
    using that by (auto simp: oneSafeWriter_def)
  show ?thesis
    unfolding updateStatus_def Let_def
  proof (rule yields_bind [OF yields_getTarget], goal_cases)
    case (1 target tr)
    then obtain a res where a: "tr = [a]" "\<not> sendsStatus a" "resolves a = Some res"
      and res: "\<And>wt. target = Inr wt \<Longrightarrow> res = Inr wt" "\<And>e. target = Inl e \<Longrightarrow> \<exists>e'. res = Inl e'"
      by (cases target) auto
    have first: "yields (\<lambda>e tr'. \<exists>a rest res. tr @ tr' = a # rest \<and> resolves a = Some res \<and>
        list_all (statusPatchOK P base res) (tr @ tr')) m"
      if "emits (statusPatchOK P base res) m" for m :: "('w, goerr option) handler"
      using that a statusPatchOK_quiet [of "[a]" P base res] unfolding emits_def
      by (auto elim: yields_weaken)
    show ?case
      by (rule first; intro emits_bind emits_silent emits_case_sum)
         (use res missing in \<open>auto simp: many unsafe finish oneSafeWriter_def observing_def sameObject_steps
            intro!: emits_intros emits_sendStatus emits_finish found\<close>)
  qed
qed

lemma observe_simps [simp]:
  "db_Meta (observeGeneration db) = db_Meta db" "db_Spec (observeGeneration db) = db_Spec db"
  "rst_ObservedGeneration (db_Status (observeGeneration db)) = om_Generation (db_Meta db)"
  "rst_Conditions (db_Status (observeGeneration db)) = rst_Conditions (db_Status db)"
  by (simp_all add: observeGeneration_def)

lemma finishStatus_same:
  "sameObject base db \<Longrightarrow> sameObject base (finishStatus L t wt db)"
  "rst_ObservedGeneration (db_Status (finishStatus L t wt db)) = rst_ObservedGeneration (db_Status db)"
  by (simp_all add: finishStatus_def sameObject_def Let_def)

text \<open>C14. The status patch of a run starts from the object that was read, changes the status only,
  records the generation, and its phase and ready flag are exactly those of the abstract
  specification: an error for a missing target, several writers or an unsafe rollout, otherwise
  paused while the annotation is set, ready when the annotated workload has a ready replica, and
  pending in all other cases.\<close>

theorem replica_phase_exact:
  "yields (\<lambda>e tr. \<exists>a rest res. tr = a # rest \<and> resolves a = Some res \<and>
     list_all (statusPatchOK phaseOK base res) tr) (updateStatus K base)"
proof (rule updateStatus_patch)
  fix t wt db
  assume safe: "oneSafeWriter wt" and same: "sameObject base db"
    and "rst_ObservedGeneration (db_Status db) = om_Generation (db_Meta base)"
  moreover have "isPaused db = isPaused base" using same by (simp add: isPaused_def sameObject_def)
  ultimately show "phaseOK base (Inr wt) (finishStatus (k_Lib K) t wt db)"
    by (auto simp: phaseOK_def finishStatus_same phaseSpec_def)
       (auto simp: finishStatus_def phaseSpec_def workloadReady_def Let_def)
qed (auto simp: phaseOK_def phaseSpec_def sameObject_def workloadNotFound_def oneSafeWriter_def Let_def)

lemma condition_of_mark:
  assumes "condition_laws L"
  shows "conditionStatus (rst_Conditions (db_Status (markReplica L t ty st rs m db))) ty' =
     (if ty' = ty then Some st else conditionStatus (rst_Conditions (db_Status db)) ty')"
    "conditionStatus (rst_Conditions (db_Status (unmarkReplica L ty db))) ty' =
     (if ty' = ty then None else conditionStatus (rst_Conditions (db_Status db)) ty')"
proof -
  let ?c = "\<lparr>cd_Type = ty, cd_Status = st, cd_ObservedGeneration = om_Generation (db_Meta db),
    cd_LastTransitionTime = t, cd_Reason = rs, cd_Message = m\<rparr>"
  have "\<exists>t'. findCondition (l_SetStatusCondition L cs ?c) ty = Some (?c\<lparr>cd_LastTransitionTime := t'\<rparr>)"
    "ty' \<noteq> ty \<Longrightarrow> findCondition (l_SetStatusCondition L cs ?c) ty' = findCondition cs ty'" for cs
    using assms unfolding condition_laws_def by (metis condition.select_convs(1))+
  then show "conditionStatus (rst_Conditions (db_Status (markReplica L t ty st rs m db))) ty' =
     (if ty' = ty then Some st else conditionStatus (rst_Conditions (db_Status db)) ty')"
    by (auto simp: conditionStatus_def markReplica_def setCondition_def)
      (metis (no_types, lifting) condition.select_convs(2) condition.surjective condition.update_convs(4) option.simps(9))
  show "conditionStatus (rst_Conditions (db_Status (unmarkReplica L ty db))) ty' =
     (if ty' = ty then None else conditionStatus (rst_Conditions (db_Status db)) ty')"
    using assms by (auto simp: conditionStatus_def unmarkReplica_def condition_laws_def)
qed

text \<open>C34. With the documented behaviour of the condition helpers, the \<open>Ready\<close> condition that a run
  sends agrees with the ready flag, except when the target has several writers or an unsafe rollout
  strategy: then the condition keeps its old status, although the flag is false.\<close>

theorem replica_ready_condition:
  assumes "condition_laws (k_Lib K)"
  shows "yields (\<lambda>e tr. \<exists>a rest res. tr = a # rest \<and> resolves a = Some res \<and>
     list_all (statusPatchOK readyOK base res) tr) (updateStatus K base)"
  by (rule updateStatus_patch)
     (auto simp: readyOK_def workloadNotFound_def oneSafeWriter_def finishStatus_def Let_def
        condition_of_mark [OF assms])

theorem replica_ready_condition_witness:
  "yields (\<lambda>e tr. \<exists>a rest res. tr = a # rest \<and> resolves a = Some res \<and>
     list_all (statusPatchOK readyOK sampleReplica res) tr) (updateStatus emptyCluster sampleReplica)"
  by (rule replica_ready_condition) (simp add: emptyCluster_def condition_laws_sampleLib)

end
