(* ===== verification/Replica_Targets.thy ===== *)
theory Replica_Targets
  imports Replica_Props Restore_Runs
begin

text \<open>
  What the replica reconciler does to the cluster besides its status: the contents of the
  ConfigMap, the annotation of the target and its removal, the references that tie a pod to its
  resource, and the digest that decides about a rollout.
\<close>

section \<open>The configuration and the pause\<close>

fun configGuard :: "litestreamReplica \<Rightarrow> action \<Rightarrow> bool" where
  "configGuard db (CreateOrUpdateConfigMap cm f x) \<longleftrightarrow>
     cm_Meta cm = emptyMeta\<lparr>om_Name := db_Name db @ ''-litestream'', om_Namespace := db_Namespace db\<rparr> \<and>
     (\<forall>old new. f old = Inr new \<longrightarrow>
        cm_Data new = [litestreamConfigKey \<mapsto> currentConfig db])"
| "configGuard db _ \<longleftrightarrow> False"

lemma currentConfig_paused: "currentConfig db = pausedConfig \<longleftrightarrow> isPaused db"
  by (simp add: currentConfig_def isPaused_def buildLitestreamConfig_def config_not_paused)

text \<open>The reconciler writes one key into the ConfigMap of the replica, with nothing else in it, and
  its value is the paused configuration exactly when the pause annotation is set. So what the
  restore controller waits for while fencing and while resuming is what the annotation means.\<close>

theorem replica_config_reflects_pause:
  "emits (configGuard db) (reconcileLitestreamConfig K db) \<and>
   (lookup [litestreamConfigKey \<mapsto> currentConfig db] litestreamConfigKey = pausedConfig \<longleftrightarrow> isPaused db)"
proof
  show "emits (configGuard db) (reconcileLitestreamConfig K db)"
    unfolding reconcileLitestreamConfig_def
    by (intro emits_intros) (auto simp: namedConfigMap_def ownedConfigMap_def split: sum.splits)
  show "lookup [litestreamConfigKey \<mapsto> currentConfig db] litestreamConfigKey = pausedConfig \<longleftrightarrow> isPaused db"
    by (simp add: currentConfig_paused)
qed

section \<open>Instrumenting the target\<close>

definition instrumentedFor :: "'w kube \<Rightarrow> litestreamReplica \<Rightarrow> workloadTarget \<Rightarrow> bool" where
  "instrumentedFor K db = wt_template.instrumented (configRef db) (injectionSpecHash (k_Lib K) db)"

fun readsReplica :: "action list \<Rightarrow> litestreamReplica option" where
  "readsReplica (GetReplica n (Inr db) # h) = Some db"
| "readsReplica _ = None"

lemma readsReplica_append [simp]: "readsReplica h = Some db \<Longrightarrow> readsReplica (h @ x) = Some db"
  by (cases h rule: readsReplica.cases) auto

definition ownKeys :: "string set" where
  "ownKeys = {injectAnnotation, configAnnotation, injectionSpecHashAnnotation}"

text \<open>What a change of the target must satisfy: while the resource lives, and when it is deleted.\<close>

definition changeOK :: "'w kube \<Rightarrow> litestreamReplica \<Rightarrow> workloadTarget \<Rightarrow> workloadTarget \<Rightarrow> bool" where
  "changeOK K db wt wt' \<longleftrightarrow>
     desiredReplicas wt' = desiredReplicas wt \<and>
     (\<forall>k. k \<notin> ownKeys \<longrightarrow> podTemplateAnnotations wt' k = podTemplateAnnotations wt k) \<and>
     (\<forall>k. k \<noteq> injectAnnotation \<longrightarrow> podTemplateLabels wt' k = podTemplateLabels wt k) \<and>
     (if IsZero (om_DeletionTimestamp (db_Meta db))
      then desiredReplicas wt \<le> 1 \<and> \<not> instrumentedFor K db wt \<and> instrumentedFor K db wt'
      else (\<forall>k\<in>ownKeys. podTemplateAnnotations wt' k = None) \<and>
        podTemplateLabels wt' injectAnnotation = None)"

definition targetGuard :: "'w kube \<Rightarrow> action list \<Rightarrow> action \<Rightarrow> bool" where
  "targetGuard K h a \<longleftrightarrow>
     (\<forall>wt wt'. patchesTarget a = Some (wt, wt') \<longrightarrow>
        (\<exists>db. readsReplica h = Some db \<and> (\<exists>b\<in>set h. asksTarget db b \<and> readsTarget b = Some wt) \<and>
           changeOK K db wt wt'))"

lemma targetGuard_simps [simp]: "patchesTarget a = None \<Longrightarrow> targetGuard K h a"
  by (simp add: targetGuard_def)

lemma change_add:
  assumes "IsZero (om_DeletionTimestamp (db_Meta db))" "desiredReplicas wt \<le> 1" "\<not> instrumentedFor K db wt"
  shows "changeOK K db wt (mapTemplate (addToTemplate
     [injectAnnotation \<mapsto> injectEnabled, configAnnotation \<mapsto> configRef db,
      injectionSpecHashAnnotation \<mapsto> injectionSpecHash (k_Lib K) db] [injectAnnotation \<mapsto> injectEnabled]) wt)"
proof -
  let ?ref = "configRef db" and ?hash = "injectionSpecHash (k_Lib K) db"
  have "instrumentedFor K db (wt_template.instrument ?ref ?hash wt)"
    unfolding instrumentedFor_def by (rule wt_template.instrumented_instrument)
  then show ?thesis
    using assms by (simp add: changeOK_def ownKeys_def wt_template.annots_add wt_template.labels_add)
qed

lemma change_remove:
  "\<not> IsZero (om_DeletionTimestamp (db_Meta db)) \<Longrightarrow> changeOK K db wt (mapTemplate removeFromTemplate wt)"
  by (simp add: changeOK_def ownKeys_def wt_template.annots_remove wt_template.labels_remove)

lemma target_patch:
  "readsReplica h = Some db \<Longrightarrow> b \<in> set h \<Longrightarrow> asksTarget db b \<Longrightarrow> readsTarget b = Some wt \<Longrightarrow>
   changeOK K db wt (mapTemplate f wt) \<Longrightarrow> guards (targetGuard K) h (patchTarget K' f wt)"
  unfolding patchTarget_def
  by (cases wt; intro guards_intros; auto simp: targetGuard_def)

text \<open>The lookup of the target, kept as a fact about the trace.\<close>

lemma yields_lookup:
  "yields (\<lambda>r tr. \<forall>wt. r = Inr wt \<longrightarrow> (\<exists>b\<in>set tr. asksTarget db b \<and> readsTarget b = Some wt))
     (getTargetWorkload K db)"
  unfolding getTargetWorkload_def by (intro yields_intros; simp add: asksTarget_def)

lemma target_lookup: "guards (targetGuard K) h (getTargetWorkload K' db)"
  unfolding getTargetWorkload_def by (intro guards_intros; simp)

lemma asksTarget_cong: "sameObject db db' \<Longrightarrow> asksTarget db' = asksTarget db"
  by (simp add: fun_eq_iff asksTarget_def sameObject_def)

lemma target_same:
  assumes "sameObject db db'"
  shows "configRef db' = configRef db" "injectionSpecHash L db' = injectionSpecHash L db"
  using assms by (simp_all add: sameObject_def configRef_def injectionSpecHash_def injectionSpecInput_def)

lemma target_annotation:
  assumes h: "readsReplica h = Some db" and live: "IsZero (om_DeletionTimestamp (db_Meta db))"
    and same: "sameObject db db'"
  shows "guards (targetGuard K) h (reconcileTargetAnnotation K db')"
proof -
  have bare: "\<not> instrumentedFor K db wt" if
    "\<not> (lookup (podTemplateAnnotations wt) injectAnnotation = injectEnabled \<and>
        lookup (podTemplateAnnotations wt) configAnnotation = configRef db \<and>
        lookup (podTemplateAnnotations wt) injectionSpecHashAnnotation = injectionSpecHash (k_Lib K) db \<and>
        lookup (podTemplateLabels wt) injectAnnotation = injectEnabled)" for wt
    using that by (auto simp: instrumentedFor_def wt_template.instrumented_def)
  show ?thesis
    unfolding reconcileTargetAnnotation_def patchWorkloadPodTemplate_def Let_def target_same [OF same]
  proof (rule guards_bind [OF target_lookup yields_lookup], goal_cases)
    case (1 res tr)
    then have found: "\<exists>b\<in>set (h @ tr). asksTarget db b \<and> readsTarget b = Some wt" if "res = Inr wt" for wt
      using that asksTarget_cong [OF same] by auto
    show ?case
    proof (cases res)
      case (Inr wt)
      with found obtain b where "b \<in> set (h @ tr)" "asksTarget db b" "readsTarget b = Some wt" by blast
      then have patch: "\<not> instrumentedFor K db wt \<Longrightarrow> desiredReplicas wt \<le> 1 \<Longrightarrow>
          guards (targetGuard K) (h @ tr) (patchTarget K (addToTemplate
            [injectAnnotation \<mapsto> injectEnabled, configAnnotation \<mapsto> configRef db,
             injectionSpecHashAnnotation \<mapsto> injectionSpecHash (k_Lib K) db]
            [injectAnnotation \<mapsto> injectEnabled]) wt)"
        using h live by (intro target_patch [where db = db]) (auto intro: change_add)
      show ?thesis
        using Inr bare [of wt] by (auto intro!: guards_intros patch)
    qed (simp add: guards_ret)
  qed
qed

end
