(* ===== verification/Restore_World.thy ===== *)
theory Restore_World
  imports Api_Runs Restore_Runs Replica_Targets
begin

text \<open>
  The two controllers together: a restore in place comes to its end. The world is a cluster whose
  API server serves as documented, with four actors: the two reconcilers, each as a whole run, and
  the controllers of workloads and of Jobs, which are parameters of the model. Besides, the operator may be
  stopped at any call of a run of either reconciler and started again: \<open>RestoreCut n\<close> and
  \<open>ReplicaCut n\<close> are the runs of which only the first \<open>n\<close> calls were made. \<open>rank\<close> counts the steps that
  are left, \<open>turn\<close> says whose step is next, and \<open>underway\<close> is the invariant. Every step of every
  actor keeps the invariant and does not raise the rank, after every single call; a whole step of
  the actor whose turn it is lowers it. So any fair interleaving completes the restore.
\<close>

section \<open>Actors\<close>

datatype actor = RestoreRun | ReplicaRun | WorkloadController | JobController
  | RestoreCut nat | ReplicaCut nat

record 'w cluster =
  cl_Kube :: "'w kube"
  cl_View :: "'w \<Rightarrow> store"
  cl_Settle :: "'w \<Rightarrow> 'w"
  cl_Finish :: "'w \<Rightarrow> 'w"

definition runWorld :: "('w, action, 'a) prog \<Rightarrow> 'w \<Rightarrow> 'w" where
  "runWorld m w = world (snd (run_state m \<lparr>world = w, trace = []\<rparr>))"

text \<open>A run that ends after its first \<open>n\<close> calls, or as usual when it makes fewer.\<close>

definition cutWorld :: "('w \<times> 'w list, action, 'a) prog \<Rightarrow> nat \<Rightarrow> 'w \<Rightarrow> 'w" where
  "cutWorld m n w = (case runWorld m (w, []) of (w', ws) \<Rightarrow> if n \<le> length ws then (w # ws) ! n else w')"

fun actorStep :: "'w cluster \<Rightarrow> nsname \<Rightarrow> nsname \<Rightarrow> actor \<Rightarrow> 'w \<Rightarrow> 'w" where
  "actorStep C rreq dreq RestoreRun w = runWorld (RestoreReconcile (cl_Kube C) rreq) w"
| "actorStep C rreq dreq ReplicaRun w = runWorld (ReplicaReconcile (cl_Kube C) dreq) w"
| "actorStep C rreq dreq WorkloadController w = cl_Settle C w"
| "actorStep C rreq dreq JobController w = cl_Finish C w"
| "actorStep C rreq dreq (RestoreCut n) w = cutWorld (RestoreReconcile (withLog (cl_Kube C)) rreq) n w"
| "actorStep C rreq dreq (ReplicaCut n) w = cutWorld (ReplicaReconcile (withLog (cl_Kube C)) dreq) n w"

text \<open>
  The controllers of Deployments and StatefulSets bring the number of pods to the desired one; a Job
  that is there completes.
\<close>

fun wt_meta :: "workloadTarget \<Rightarrow> objectMeta" where
  "wt_meta (WDeployment d) = dp_Meta d"
| "wt_meta (WStatefulSet s) = ss_Meta s"

fun wt_replicas :: "workloadTarget \<Rightarrow> int option" where
  "wt_replicas (WDeployment d) = dp_Replicas d"
| "wt_replicas (WStatefulSet s) = ss_Replicas s"

lemma desiredReplicas_count: "desiredReplicas wt = (case wt_replicas wt of Some n \<Rightarrow> n | None \<Rightarrow> 1)"
  by (cases wt) simp_all

definition settledDeployment :: "deployment \<Rightarrow> deployment" where
  "settledDeployment d = d\<lparr>dp_StatusReplicas := desiredReplicas (WDeployment d),
     dp_StatusReadyReplicas := desiredReplicas (WDeployment d)\<rparr>"

definition settledStatefulSet :: "statefulSet \<Rightarrow> statefulSet" where
  "settledStatefulSet s = s\<lparr>ss_StatusReplicas := desiredReplicas (WStatefulSet s),
     ss_StatusReadyReplicas := desiredReplicas (WStatefulSet s)\<rparr>"

definition settledStore :: "store \<Rightarrow> store" where
  "settledStore v = v\<lparr>so_Deployments := (\<lambda>k. map_option settledDeployment (so_Deployments v k)),
     so_StatefulSets := (\<lambda>k. map_option settledStatefulSet (so_StatefulSets v k))\<rparr>"

definition completedJob :: "job \<Rightarrow> job" where
  "completedJob j = j\<lparr>jb_Conditions := [\<lparr>jc_Type = JobComplete, jc_Status = ConditionTrue, jc_Message = []\<rparr>]\<rparr>"

definition clusterOK :: "'w cluster \<Rightarrow> bool" where
  "clusterOK C \<longleftrightarrow>
     serves (cl_View C) (cl_Kube C) \<and> controller_law (k_Lib (cl_Kube C)) \<and> finalizer_laws (k_Lib (cl_Kube C)) \<and>
     (\<forall>w. cl_View C (cl_Settle C w) = settledStore (cl_View C w)) \<and>
     (\<forall>w. cl_View C (cl_Finish C w) = (cl_View C w)\<lparr>so_Jobs :=
        (\<lambda>k. map_option completedJob (so_Jobs (cl_View C w) k))\<rparr>)"

section \<open>The objects of a restore\<close>

text \<open>What does not change: the three objects as they were at first.\<close>

record project =
  pj_Restore :: litestreamRestore
  pj_Replica :: litestreamReplica
  pj_Workload :: workloadTarget

abbreviation rkey :: "project \<Rightarrow> nsname" where "rkey p \<equiv> objectKey (lr_Meta (pj_Restore p))"
abbreviation dkey :: "project \<Rightarrow> nsname" where "dkey p \<equiv> objectKey (db_Meta (pj_Replica p))"
abbreviation wkey :: "project \<Rightarrow> nsname" where "wkey p \<equiv> objectKey (wt_meta (pj_Workload p))"
abbreviation ckey :: "project \<Rightarrow> nsname" where
  "ckey p \<equiv> (db_Namespace (pj_Replica p), db_Name (pj_Replica p) @ ''-litestream'')"
abbreviation jobConfigKey :: "project \<Rightarrow> nsname" where
  "jobConfigKey p \<equiv> (lr_Namespace (pj_Restore p), lr_Name (pj_Restore p) @ ''-litestream'')"
abbreviation jobKey :: "project \<Rightarrow> nsname" where
  "jobKey p \<equiv> (lr_Namespace (pj_Restore p), restoreJobName (pj_Restore p))"
abbreviation lockKey :: "project \<Rightarrow> nsname" where
  "lockKey p \<equiv> (lr_Namespace (pj_Restore p), leaseName (pj_Restore p))"
abbreviation replicaTarget :: "project \<Rightarrow> int" where
  "replicaTarget p \<equiv> desiredReplicas (pj_Workload p)"

text \<open>
  A restore that can run: in place, living and with its finalizer, for a living replica of the same
  namespace that backs up to S3, whose workload has at least one replica and mounts a claim at
  the database. The restore and the replica have different names, since both name a ConfigMap.
\<close>

definition runnable :: "project \<Rightarrow> bool" where
  "runnable p \<longleftrightarrow>
     (let r = pj_Restore p; db = pj_Replica p; d = pj_Workload p; sp = db_Spec db in
      restoreFinalizerName \<in> set (om_Finalizers (lr_Meta r)) \<and> \<not> deleting r \<and> lr_Mode r \<noteq> RestoreModeToPVC \<and>
      replicaFinalizerName \<in> set (om_Finalizers (db_Meta db)) \<and> IsZero (om_DeletionTimestamp (db_Meta db)) \<and>
      hasBackup db \<and>
      (lr_Namespace r, lr_Source r) = objectKey (db_Meta db) \<and>
      (case d of
         WDeployment _ \<Rightarrow> sp_TargetStatefulSet sp = [] \<and> (db_Namespace db, sp_TargetDeployment sp) = wkey p
       | WStatefulSet _ \<Rightarrow> sp_TargetStatefulSet sp \<noteq> [] \<and> (db_Namespace db, sp_TargetStatefulSet sp) = wkey p) \<and>
      (\<exists>where. locateDatabase db (wt_podSpec d) = Inr where) \<and>
      lr_Name r \<noteq> db_Name db \<and> replicaTarget p > 0)"

text \<open>Nothing of the objects but what the controllers change.\<close>

definition sameRestore :: "litestreamRestore \<Rightarrow> litestreamRestore \<Rightarrow> bool" where
  "sameRestore r r' \<longleftrightarrow> lr_Meta r' = lr_Meta r \<and> lr_Spec r' = lr_Spec r"

definition sameReplica :: "litestreamReplica \<Rightarrow> litestreamReplica \<Rightarrow> bool" where
  "sameReplica db db' \<longleftrightarrow> db_Spec db' = db_Spec db \<and>
     (\<exists>as. db_Meta db' = (db_Meta db)\<lparr>om_Annotations := as\<rparr>)"

definition sameWorkload :: "workloadTarget \<Rightarrow> workloadTarget \<Rightarrow> bool" where
  "sameWorkload d d' \<longleftrightarrow> wt_meta d' = wt_meta d \<and> wt_podSpec d' = wt_podSpec d"

text \<open>The stored workload of the kind and the name that the replica has as its target.\<close>

definition targetIn :: "project \<Rightarrow> store \<Rightarrow> workloadTarget option" where
  "targetIn p v = (case pj_Workload p of
     WDeployment _ \<Rightarrow> map_option WDeployment (so_Deployments v (wkey p))
   | WStatefulSet _ \<Rightarrow> map_option WStatefulSet (so_StatefulSets v (wkey p)))"

definition ownedOnlyBy :: "string \<Rightarrow> objectMeta \<Rightarrow> bool" where
  "ownedOnlyBy n m \<longleftrightarrow> set (om_OwnerReferences m) \<subseteq> {n}"

lemma targetIn_simps [simp]:
  "targetIn p (v\<lparr>so_Restores := a\<rparr>) = targetIn p v" "targetIn p (v\<lparr>so_Replicas := b\<rparr>) = targetIn p v"
  "targetIn p (v\<lparr>so_ConfigMaps := c\<rparr>) = targetIn p v" "targetIn p (v\<lparr>so_Jobs := e\<rparr>) = targetIn p v"
  "targetIn p (v\<lparr>so_Leases := f\<rparr>) = targetIn p v"
  by (simp_all add: targetIn_def split: workloadTarget.split)

section \<open>Rank, turn and invariant\<close>

definition configIn :: "project \<Rightarrow> store \<Rightarrow> string option" where
  "configIn p v = map_option (\<lambda>cm. lookup (cm_Data cm) litestreamConfigKey) (so_ConfigMaps v (ckey p))"

definition jobDone :: "project \<Rightarrow> store \<Rightarrow> bool" where
  "jobDone p v \<longleftrightarrow> (case so_Jobs v (jobKey p) of None \<Rightarrow> False | Some j \<Rightarrow> jobVerdict j \<noteq> None)"

definition rankOf :: "string \<Rightarrow> bool \<Rightarrow> string option \<Rightarrow> bool \<Rightarrow> int option \<Rightarrow> int \<Rightarrow> nat" where
  "rankOf phase paused config finished replicas running =
     (if phase = RestorePhaseCompleted then 0
      else if phase = RestorePhaseResuming then
        (if paused then 3 else if config = None \<or> config = Some pausedConfig then 2 else 1)
      else if phase = RestorePhaseRestoring then (if finished then 4 else 5)
      else if phase = RestorePhaseFencing then
        (if config \<noteq> Some pausedConfig then 9 else if replicas \<noteq> Some 0 then 8
         else if running > 0 then 7 else 6)
      else if phase = RestorePhaseAcquiringLock then 10
      else 11)"

definition rank :: "project \<Rightarrow> store \<Rightarrow> nat" where
  "rank p v =
     (case (so_Restores v (rkey p), so_Replicas v (dkey p), targetIn p v) of
        (Some r, Some db, Some d) \<Rightarrow> rankOf (lr_Phase r) (isPaused db) (configIn p v) (jobDone p v)
          (wt_replicas d) (runningReplicas d)
      | _ \<Rightarrow> 12)"

lemma rankOf_simps [simp]:
  "rankOf [] q c j n m = 11" "rankOf RestorePhasePending q c j n m = 11"
  "rankOf RestorePhaseAcquiringLock q c j n m = 10"
  "rankOf RestorePhaseFencing q c j n m = (if c \<noteq> Some pausedConfig then 9 else if n \<noteq> Some 0 then 8
     else if m > 0 then 7 else 6)"
  "rankOf RestorePhaseRestoring q c j n m = (if j then 4 else 5)"
  "rankOf RestorePhaseResuming q c j n m = (if q then 3 else if c = None \<or> c = Some pausedConfig then 2 else 1)"
  "rankOf RestorePhaseCompleted q c j n m = 0"
  by (simp_all add: rankOf_def restore_phase_neq(1-8) [symmetric])

definition turn :: "nat \<Rightarrow> actor" where
  "turn k = (if k = 2 \<or> k = 9 then ReplicaRun
     else if k = 5 then JobController
     else if k = 7 then WorkloadController else RestoreRun)"

text \<open>A Job that may still succeed, or has. It can be there before the phase that waits for it, when a
  run was stopped between its creation and the status patch.\<close>

definition jobFine :: "job \<Rightarrow> bool" where
  "jobFine j \<longleftrightarrow> (case jobVerdict j of None \<Rightarrow> True | Some c \<Rightarrow> jc_Type c = JobComplete)"

text \<open>What holds of the three objects in each phase.\<close>

definition inPhase ::
  "project \<Rightarrow> string \<Rightarrow> litestreamRestoreStatus \<Rightarrow> bool \<Rightarrow> workloadTarget \<Rightarrow> job option \<Rightarrow> lease option \<Rightarrow> bool" where
  "inPhase p phase st paused d j l \<longleftrightarrow>
     (if phase = [] \<or> phase = RestorePhasePending then
        st_OriginalReplicas st = None \<and> desiredReplicas d = replicaTarget p \<and> j = None
      else if phase = RestorePhaseAcquiringLock then
        st_OriginalReplicas st = Some (replicaTarget p) \<and> j = None
      else if phase = RestorePhaseFencing then
        st_OriginalReplicas st = Some (replicaTarget p) \<and> paused \<and>
        (case j of None \<Rightarrow> True | Some job \<Rightarrow> jobFine job)
      else if phase = RestorePhaseRestoring then
        st_OriginalReplicas st = Some (replicaTarget p) \<and> st_JobName st = restoreJobName (pj_Restore p) \<and>
        (case j of None \<Rightarrow> False | Some job \<Rightarrow> jobFine job)
      else if phase = RestorePhaseResuming then st_OriginalReplicas st = Some (replicaTarget p)
      else phase = RestorePhaseCompleted \<and> \<not> paused \<and>
        desiredReplicas d = replicaTarget p \<and> l = None)"

lemma inPhase_simps [simp]:
  "inPhase p [] st q d j l \<longleftrightarrow>
     st_OriginalReplicas st = None \<and> desiredReplicas d = replicaTarget p \<and> j = None"
  "inPhase p RestorePhasePending st q d j l \<longleftrightarrow>
     st_OriginalReplicas st = None \<and> desiredReplicas d = replicaTarget p \<and> j = None"
  "inPhase p RestorePhaseAcquiringLock st q d j l \<longleftrightarrow>
     st_OriginalReplicas st = Some (replicaTarget p) \<and> j = None"
  "inPhase p RestorePhaseFencing st q d j l \<longleftrightarrow>
     st_OriginalReplicas st = Some (replicaTarget p) \<and> q \<and> (case j of None \<Rightarrow> True | Some job \<Rightarrow> jobFine job)"
  "inPhase p RestorePhaseRestoring st q d j l \<longleftrightarrow>
     st_OriginalReplicas st = Some (replicaTarget p) \<and> st_JobName st = restoreJobName (pj_Restore p) \<and>
     (case j of None \<Rightarrow> False | Some job \<Rightarrow> jobFine job)"
  "inPhase p RestorePhaseResuming st q d j l \<longleftrightarrow> st_OriginalReplicas st = Some (replicaTarget p)"
  "inPhase p RestorePhaseCompleted st q d j l \<longleftrightarrow>
     \<not> q \<and> desiredReplicas d = replicaTarget p \<and> l = None"
  by (simp_all add: inPhase_def)

text \<open>What holds of the other objects in every phase.\<close>

definition sideObjects :: "project \<Rightarrow> store \<Rightarrow> bool" where
  "sideObjects p v \<longleftrightarrow>
     (\<forall>cm. so_ConfigMaps v (ckey p) = Some cm \<longrightarrow> ownedOnlyBy (db_Name (pj_Replica p)) (cm_Meta cm)) \<and>
     (\<forall>cm. so_ConfigMaps v (jobConfigKey p) = Some cm \<longrightarrow> ownedOnlyBy (lr_Name (pj_Restore p)) (cm_Meta cm)) \<and>
     (\<forall>l. so_Leases v (lockKey p) = Some l \<longrightarrow>
        objectKey (ls_Meta l) = lockKey p \<and> ls_HolderIdentity l = Some (lr_Name (pj_Restore p)))"

definition holdsObjects ::
  "project \<Rightarrow> store \<Rightarrow> litestreamRestore \<Rightarrow> litestreamReplica \<Rightarrow> workloadTarget \<Rightarrow> bool" where
  "holdsObjects p v r db d \<longleftrightarrow>
     so_Restores v (rkey p) = Some r \<and> sameRestore (pj_Restore p) r \<and>
     so_Replicas v (dkey p) = Some db \<and> sameReplica (pj_Replica p) db \<and>
     targetIn p v = Some d \<and> sameWorkload (pj_Workload p) d"

definition underway :: "project \<Rightarrow> store \<Rightarrow> bool" where
  "underway p v \<longleftrightarrow>
     (\<exists>r db d. holdsObjects p v r db d \<and>
        inPhase p (lr_Phase r) (lr_Status r) (isPaused db) d (so_Jobs v (jobKey p)) (so_Leases v (lockKey p))) \<and>
     sideObjects p v"

lemma rank_holds:
  "holdsObjects p v r db d \<Longrightarrow> rank p v = rankOf (lr_Phase r) (isPaused db) (configIn p v) (jobDone p v)
     (wt_replicas d) (runningReplicas d)"
  by (simp add: holdsObjects_def rank_def)

definition occurring :: "string \<Rightarrow> bool" where
  "occurring ph \<longleftrightarrow> ph = [] \<or> ph = RestorePhasePending \<or> ph = RestorePhaseAcquiringLock \<or>
     ph = RestorePhaseFencing \<or> ph = RestorePhaseRestoring \<or> ph = RestorePhaseResuming \<or>
     ph = RestorePhaseCompleted"

lemma inPhase_occurring: "inPhase p ph st q d j l \<Longrightarrow> occurring ph"
  unfolding inPhase_def occurring_def by metis

section \<open>Fair schedules\<close>

text \<open>A round is a sequence of steps in which everybody who can be waited for has a turn; a schedule is
  made of rounds.\<close>

definition runSchedule :: "('a \<Rightarrow> 's \<Rightarrow> 's) \<Rightarrow> 'a list list \<Rightarrow> 's \<Rightarrow> 's" where
  "runSchedule step rounds s = fold (\<lambda>as. fold step as) rounds s"

text \<open>
  The contract: every step keeps \<open>good\<close> and does not raise what is left to do, and a step of the
  actor whose turn it is lowers it.
\<close>

locale fair_actors =
  fixes step :: "'a \<Rightarrow> 's \<Rightarrow> 's" and good :: "'s \<Rightarrow> bool" and left :: "'s \<Rightarrow> nat" and who :: "nat \<Rightarrow> 'a"
  assumes step_good: "good s \<Longrightarrow> good (step a s)"
    and step_left: "good s \<Longrightarrow> left (step a s) \<le> left s"
    and turn_left: "good s \<Longrightarrow> left s > 0 \<Longrightarrow> left (step (who (left s)) s) < left s"
begin

lemma steps_left: "good s \<Longrightarrow> good (fold step as s) \<and> left (fold step as s) \<le> left s"
proof (induction as arbitrary: s)
  case (Cons a as)
  then show ?case using Cons.IH [OF step_good [OF Cons.prems, of a]] step_left [OF Cons.prems, of a] by simp
qed simp

lemma round_left:
  assumes "good s" "left s > 0" "who (left s) \<in> set as"
  shows "left (fold step as s) < left s"
proof -
  obtain xs ys where as: "as = xs @ who (left s) # ys"
    using assms(3) by (meson split_list)
  let ?t = "fold step xs s"
  let ?u = "step (who (left s)) ?t"
  have t: "good ?t" "left ?t \<le> left s" using steps_left [OF assms(1)] by auto
  have "left ?u < left s"
  proof (cases "left ?t = left s")
    case True
    then show ?thesis using turn_left [OF t(1)] assms(2) by simp
  next
    case False
    then show ?thesis using step_left [OF t(1), of "who (left s)"] t(2) by linarith
  qed
  moreover have "left (fold step ys ?u) \<le> left ?u"
    using steps_left [OF step_good [OF t(1)]] by blast
  ultimately show ?thesis by (simp add: as)
qed

lemma schedule_left:
  "good s \<Longrightarrow> list_all (\<lambda>as. range who \<subseteq> set as) rounds \<Longrightarrow>
   good (runSchedule step rounds s) \<and> left (runSchedule step rounds s) \<le> left s - length rounds"
proof (induction rounds arbitrary: s)
  case Nil
  then show ?case by (simp add: runSchedule_def)
next
  case (Cons as rounds)
  have 1: "good (fold step as s)" "left (fold step as s) \<le> left s"
    using steps_left [OF Cons.prems(1)] by auto
  have 2: "left (fold step as s) < left s" if "left s > 0"
    using round_left [OF Cons.prems(1) that] Cons.prems(2) by (simp add: image_subset_iff)
  show ?case
    using Cons.IH [OF 1(1)] Cons.prems(2) 1(2) 2 by (cases "left s") (auto simp: runSchedule_def)
qed

lemma schedule_ends:
  "good s \<Longrightarrow> list_all (\<lambda>as. range who \<subseteq> set as) rounds \<Longrightarrow> left s \<le> length rounds \<Longrightarrow>
   good (runSchedule step rounds s) \<and> left (runSchedule step rounds s) = 0"
  using schedule_left [of s rounds] by auto

end

section \<open>The actors of Kubernetes\<close>

lemma sameReplica_simps:
  assumes "sameReplica db db'"
  shows "db_Name db' = db_Name db" "db_Namespace db' = db_Namespace db" "db_Spec db' = db_Spec db"
    "om_Finalizers (db_Meta db') = om_Finalizers (db_Meta db)"
    "om_DeletionTimestamp (db_Meta db') = om_DeletionTimestamp (db_Meta db)"
    "objectKey (db_Meta db') = objectKey (db_Meta db)"
  using assms by (auto simp: sameReplica_def objectKey_def)

fun settled :: "workloadTarget \<Rightarrow> workloadTarget" where
  "settled (WDeployment d) = WDeployment (settledDeployment d)"
| "settled (WStatefulSet s) = WStatefulSet (settledStatefulSet s)"

lemma settled_simps [simp]:
  "wt_meta (settled d) = wt_meta d" "wt_podSpec (settled d) = wt_podSpec d"
  "wt_replicas (settled d) = wt_replicas d" "runningReplicas (settled d) = desiredReplicas d"
  "desiredReplicas (settled d) = desiredReplicas d"
  by (cases d; simp add: settledDeployment_def settledStatefulSet_def)+

lemma settledStore_simps [simp]:
  "so_Restores (settledStore v) = so_Restores v" "so_Replicas (settledStore v) = so_Replicas v"
  "so_ConfigMaps (settledStore v) = so_ConfigMaps v" "so_Jobs (settledStore v) = so_Jobs v"
  "so_Leases (settledStore v) = so_Leases v" "targetIn p (settledStore v) = map_option settled (targetIn p v)"
  by (auto simp: settledStore_def targetIn_def option.map_comp comp_def split: workloadTarget.split)

lemma jobFine_completedJob [simp]: "jobFine (completedJob j)"
  by (simp add: jobFine_def jobVerdict_def completedJob_def)

lemma jobVerdict_completedJob [simp]:
  "jobVerdict (completedJob j) = Some \<lparr>jc_Type = JobComplete, jc_Status = ConditionTrue, jc_Message = []\<rparr>"
  by (simp add: jobVerdict_def completedJob_def)

text \<open>A step of an actor from a store of rank \<open>k\<close> to the store \<open>v'\<close>.\<close>

definition goodNext :: "project \<Rightarrow> actor \<Rightarrow> nat \<Rightarrow> store \<Rightarrow> bool" where
  "goodNext p a k v' \<longleftrightarrow> underway p v' \<and> rank p v' \<le> k \<and> (k > 0 \<and> turn k = a \<longrightarrow> rank p v' < k)"

lemma goodNextI:
  assumes "holdsObjects p v' r db d"
    and "inPhase p (lr_Phase r) (lr_Status r) (isPaused db) d (so_Jobs v' (jobKey p)) (so_Leases v' (lockKey p))"
    and "sideObjects p v'"
    and "rankOf (lr_Phase r) (isPaused db) (configIn p v') (jobDone p v') (wt_replicas d) (runningReplicas d) \<le> k"
    and "k > 0 \<Longrightarrow> turn k = a \<Longrightarrow>
      rankOf (lr_Phase r) (isPaused db) (configIn p v') (jobDone p v') (wt_replicas d) (runningReplicas d) < k"
  shows "goodNext p a k v'"
  using assms rank_holds [OF assms(1)] by (auto simp: goodNext_def underway_def)

text \<open>What holds after every call of a run from a store of rank \<open>k\<close>.\<close>

definition steady :: "project \<Rightarrow> nat \<Rightarrow> store \<Rightarrow> bool" where
  "steady p k v' \<longleftrightarrow> underway p v' \<and> rank p v' \<le> k"

lemma steadyI:
  assumes "holdsObjects p v' r db d"
    and "inPhase p (lr_Phase r) (lr_Status r) (isPaused db) d (so_Jobs v' (jobKey p)) (so_Leases v' (lockKey p))"
    and "sideObjects p v'"
    and "rankOf (lr_Phase r) (isPaused db) (configIn p v') (jobDone p v') (wt_replicas d) (runningReplicas d) \<le> k"
  shows "steady p k v'"
  using assms rank_holds [OF assms(1)] by (auto simp: steady_def underway_def)

lemma goodNext_steady: "goodNext p a k v' \<Longrightarrow> steady p k v'"
  by (simp add: goodNext_def steady_def)

lemma steady_cut: "steady p k v' \<Longrightarrow> a \<notin> range turn \<Longrightarrow> goodNext p a k v'"
  by (auto simp: goodNext_def steady_def)

lemma underway_steady: "underway p v \<Longrightarrow> steady p (rank p v) v"
  by (simp add: steady_def)

text \<open>One goal per phase.\<close>

lemma goodNext_phases:
  assumes "underway p v"
    and "\<And>r db d. holdsObjects p v r db d \<Longrightarrow> sideObjects p v \<Longrightarrow> occurring (lr_Phase r) \<Longrightarrow>
      inPhase p (lr_Phase r) (lr_Status r) (isPaused db) d (so_Jobs v (jobKey p)) (so_Leases v (lockKey p)) \<Longrightarrow>
      goodNext p a (rankOf (lr_Phase r) (isPaused db) (configIn p v) (jobDone p v) (wt_replicas d)
        (runningReplicas d)) v'"
  shows "goodNext p a (rank p v) v'"
  using assms(1) unfolding underway_def
  by (elim conjE exE) (metis assms(2) inPhase_occurring rank_holds)

lemma settle_advances:
  assumes "underway p v"
  shows "goodNext p WorkloadController (rank p v)
    (settledStore v)"
proof (rule goodNext_phases [OF assms])
  fix r db d
  let ?v = "settledStore v"
  assume *: "holdsObjects p v r db d" "sideObjects p v" "occurring (lr_Phase r)"
    "inPhase p (lr_Phase r) (lr_Status r) (isPaused db) d (so_Jobs v (jobKey p)) (so_Leases v (lockKey p))"
  have "holdsObjects p ?v r db (settled d)" "sideObjects p ?v"
    using *(1,2) by (simp_all add: holdsObjects_def sideObjects_def sameWorkload_def)
  moreover have same: "configIn p ?v = configIn p v" "jobDone p ?v = jobDone p v"
    by (simp_all add: configIn_def jobDone_def)
  ultimately show "goodNext p WorkloadController (rankOf (lr_Phase r) (isPaused db) (configIn p v)
      (jobDone p v) (wt_replicas d) (runningReplicas d)) ?v"
    using *(3,4) unfolding occurring_def
    by (intro goodNextI [where r = r and db = db and d = "settled d"])
       (auto simp: turn_def same desiredReplicas_count split: if_splits)
qed

lemma finish_advances:
  assumes "underway p v"
  shows "goodNext p JobController (rank p v) (v\<lparr>so_Jobs := (\<lambda>k. map_option completedJob (so_Jobs v k))\<rparr>)"
proof (rule goodNext_phases [OF assms])
  fix r db d
  let ?v = "v\<lparr>so_Jobs := (\<lambda>k. map_option completedJob (so_Jobs v k))\<rparr>"
  assume *: "holdsObjects p v r db d" "sideObjects p v" "occurring (lr_Phase r)"
    "inPhase p (lr_Phase r) (lr_Status r) (isPaused db) d (so_Jobs v (jobKey p)) (so_Leases v (lockKey p))"
  have "holdsObjects p ?v r db d" "sideObjects p ?v"
    using *(1,2) by (simp_all add: holdsObjects_def sideObjects_def)
  moreover have same: "configIn p ?v = configIn p v"
    "jobDone p ?v \<longleftrightarrow> so_Jobs v (jobKey p) \<noteq> None"
    by (auto simp: configIn_def jobDone_def split: option.splits)
  moreover have "jobDone p v \<Longrightarrow> so_Jobs v (jobKey p) \<noteq> None"
    by (auto simp: jobDone_def split: option.splits)
  ultimately show "goodNext p JobController (rankOf (lr_Phase r) (isPaused db) (configIn p v)
      (jobDone p v) (wt_replicas d) (runningReplicas d)) ?v"
    using *(3,4) unfolding occurring_def
    by (intro goodNextI [where r = r and db = db and d = d])
       (auto simp: turn_def same split: if_splits option.splits)
qed

section \<open>A run of the replica reconciler\<close>

text \<open>It writes the configuration that the pause asks for, and touches nothing a restore depends on.\<close>

definition replicaRan ::
  "project \<Rightarrow> store \<Rightarrow> litestreamRestore \<Rightarrow> litestreamReplica \<Rightarrow> workloadTarget \<Rightarrow> store \<Rightarrow> bool" where
  "replicaRan p v r db d v' \<longleftrightarrow>
     (\<exists>db' d'. holdsObjects p v' r db' d' \<and> db_Meta db' = db_Meta db \<and>
        wt_replicas d' = wt_replicas d \<and> runningReplicas d' = runningReplicas d) \<and>
     so_Jobs v' = so_Jobs v \<and> so_Leases v' = so_Leases v \<and>
     so_ConfigMaps v' (jobConfigKey p) = so_ConfigMaps v (jobConfigKey p) \<and>
     (\<exists>cm. so_ConfigMaps v' (ckey p) = Some cm \<and> ownedOnlyBy (db_Name (pj_Replica p)) (cm_Meta cm) \<and>
        lookup (cm_Data cm) litestreamConfigKey = currentConfig db)"

lemma config_names_differ:
  "n @ ''-bootstrap-sql'' \<noteq> m @ ''-litestream''" "m @ ''-litestream'' \<noteq> n @ ''-bootstrap-sql''"
proof -
  show *: "n @ ''-bootstrap-sql'' \<noteq> m @ ''-litestream''" for n m :: string
  proof
    assume "n @ ''-bootstrap-sql'' = m @ ''-litestream''"
    then have "last (n @ ''-bootstrap-sql'') = last (m @ ''-litestream'')" by metis
    then show False by simp
  qed
  show "m @ ''-litestream'' \<noteq> n @ ''-bootstrap-sql''" using * [of n m] by metis
qed

lemma mergeReplicaStatus_simps [simp]:
  "db_Meta (mergeReplicaStatus b n s) = db_Meta s" "db_Spec (mergeReplicaStatus b n s) = db_Spec s"
  by (simp_all add: mergeReplicaStatus_def Let_def)

text \<open>A patch of a workload, and the stored workload after it.\<close>

lemma merged_workload [simp]:
  "dp_Meta (mergeDeployment b n s) = dp_Meta s" "ss_Meta (mergeStatefulSet b' n' s') = ss_Meta s'"
  "pt_Spec (dp_Template (mergeDeployment b n s)) = pt_Spec (dp_Template s)"
  "pt_Spec (ss_Template (mergeStatefulSet b' n' s')) = pt_Spec (ss_Template s')"
  "dp_StatusReplicas (mergeDeployment b n s) = dp_StatusReplicas s"
  "ss_StatusReplicas (mergeStatefulSet b' n' s') = ss_StatusReplicas s'"
  "dp_Replicas (mergeDeployment b n s) = mergeField (dp_Replicas b) (dp_Replicas n) (dp_Replicas s)"
  "ss_Replicas (mergeStatefulSet b' n' s') = mergeField (ss_Replicas b') (ss_Replicas n') (ss_Replicas s')"
  by (simp_all add: mergeDeployment_def mergeStatefulSet_def)

lemma replicaRan_status:
  "replicaRan p v r db d u \<Longrightarrow> so_Replicas u k = Some s \<Longrightarrow>
   replicaRan p v r db d (u\<lparr>so_Replicas := (so_Replicas u)(k \<mapsto> mergeReplicaStatus b n s)\<rparr>)"
  unfolding replicaRan_def holdsObjects_def
  by (cases "k = dkey p") (auto simp: sameReplica_def)

lemma replicaRan_template:
  "replicaRan p v r db d u \<Longrightarrow> so_Deployments u k = Some x \<Longrightarrow>
   replicaRan p v r db d
     (u\<lparr>so_Deployments := (so_Deployments u)(k \<mapsto> mergeDeployment b (b\<lparr>dp_Template := t\<rparr>) x)\<rparr>)"
  "replicaRan p v r db d u \<Longrightarrow> so_StatefulSets u k = Some y \<Longrightarrow>
   replicaRan p v r db d
     (u\<lparr>so_StatefulSets := (so_StatefulSets u)(k \<mapsto> mergeStatefulSet c (c\<lparr>ss_Template := t\<rparr>) y)\<rparr>)"
  unfolding replicaRan_def holdsObjects_def targetIn_def
  by (cases "pj_Workload p"; cases "k = wkey p"; fastforce simp: sameWorkload_def)+

lemma replicaRan_bootstrap:
  "replicaRan p v r db d u \<Longrightarrow>
   replicaRan p v r db d (u\<lparr>so_ConfigMaps := (so_ConfigMaps u)((ns, n @ ''-bootstrap-sql'') \<mapsto> x)\<rparr>)"
  unfolding replicaRan_def holdsObjects_def by (auto simp: config_names_differ)

lemma replica_rest_keeps:
  assumes "watches W K"
  shows "keeps W (replicaRan p v r db d) (reconcileBootstrapConfig K x)"
    "keeps W (replicaRan p v r db d) (reconcileTargetAnnotation K x)"
    "keeps W (replicaRan p v r db d) (updateStatus K x)"
  unfolding reconcileBootstrapConfig_def reconcileTargetAnnotation_def updateStatus_def getTargetWorkload_def
    patchWorkloadPodTemplate_def patchTarget_def updateBackupHealth_def litestreamContainerState_def
    refineByLag_def scrapeReplicationLag_def fetchLastSyncTime_def sendStatus_def Let_def
  by (intro keeps_intros keeps_api [OF assms];
      simp add: replicaRan_status replicaRan_template replicaRan_bootstrap namedConfigMap_def objectKey_def)+

lemma after_bindI:
  "endsIn W v m P \<Longrightarrow> (\<And>a v'. P a v' \<Longrightarrow> endsIn W v' (f a) Q) \<Longrightarrow>
   endsIn W v (State_Monad.bind m f) Q"
  by (blast intro: after_bind after_weaken)

lemma after_found_bind:
  assumes "reads (wt_Stored W) objs f \<and> (\<forall>n. enters W (f n))" "objs v n = Some x" "endsIn W v (g (Inr x)) Q"
  shows "endsIn W v (State_Monad.bind (call (f n) ev) g) Q"
  using assms(2,3) by (intro after_bind after_reads [OF assms(1)]) auto

text \<open>Writing a ConfigMap that is missing or has this owner.\<close>

lemma config_run:
  assumes K: "watches W K" "controller_law (k_Lib K)"
    and owner: "\<And>c. so_ConfigMaps v (ns, n) = Some c \<Longrightarrow> ownedOnlyBy (om_Name ow) (cm_Meta c)"
    and always: "\<And>cm. ownedOnlyBy (om_Name ow) (cm_Meta cm) \<Longrightarrow> cm_Data cm = data \<Longrightarrow>
      wt_Always W (v\<lparr>so_ConfigMaps := (so_ConfigMaps v)((ns, n) \<mapsto> cm)\<rparr>)"
  shows "endsIn W v (createOrUpdateConfigMap K (namedConfigMap n ns) (ownedConfigMap (k_Lib K) ow data))
    (\<lambda>e v'. e = None \<and> (\<exists>cm. v' = v\<lparr>so_ConfigMaps := (so_ConfigMaps v)((ns, n) \<mapsto> cm)\<rparr> \<and>
       ownedOnlyBy (om_Name ow) (cm_Meta cm) \<and> cm_Data cm = data))"
proof -
  let ?c = "case so_ConfigMaps v (ns, n) of None \<Rightarrow> namedConfigMap n ns | Some c \<Rightarrow> c"
  have "set (om_OwnerReferences (cm_Meta ?c)) \<subseteq> {om_Name ow}"
    using owner by (cases "so_ConfigMaps v (ns, n)") (auto simp: ownedOnlyBy_def namedConfigMap_def emptyMeta_def)
  then have set: "ownedConfigMap (k_Lib K) ow data ?c =
      Inr (?c\<lparr>cm_Data := data, cm_Meta := (cm_Meta ?c)\<lparr>om_OwnerReferences := [om_Name ow]\<rparr>\<rparr>)"
    using K(2) by (simp add: controller_law_def ownedConfigMap_def)
  have key: "objectKey (cm_Meta (namedConfigMap n ns)) = (ns, n)"
    by (simp add: namedConfigMap_def objectKey_def)
  show ?thesis
    by (rule after_api [OF K(1)]; simp only: key set sum.simps)
       (auto simp: ownedOnlyBy_def intro!: always)
qed

lemma replica_run_owner:
  assumes K: "watches W K" "controller_law (k_Lib K)" "finalizer_laws (k_Lib K)"
    and p: "runnable p" "holdsObjects p v r db d"
      "\<And>cm. so_ConfigMaps v (ckey p) = Some cm \<Longrightarrow> ownedOnlyBy (db_Name (pj_Replica p)) (cm_Meta cm)"
    and always: "\<And>v'. replicaRan p v r db d v' \<Longrightarrow> wt_Always W v'"
  shows "endsIn W v (ReplicaReconcile K (dkey p)) (\<lambda>_. replicaRan p v r db d)"
proof -
  have db: "so_Replicas v (dkey p) = Some db" "l_ContainsFinalizer (k_Lib K) (db_Meta db) replicaFinalizerName"
    "IsZero (om_DeletionTimestamp (db_Meta db))" "db_Name db = db_Name (pj_Replica p)"
    "db_Namespace db = db_Namespace (pj_Replica p)"
    using p K(3) by (auto simp: holdsObjects_def runnable_def Let_def finalizer_laws_def sameReplica_simps)
  have "jobConfigKey p \<noteq> ckey p" using p(1) by (simp add: runnable_def Let_def)
  then have J: "replicaRan p v r db d (v\<lparr>so_ConfigMaps := (so_ConfigMaps v)(ckey p \<mapsto> cm)\<rparr>)"
    if "ownedOnlyBy (db_Name db) (cm_Meta cm)" "cm_Data cm = [litestreamConfigKey \<mapsto> currentConfig db]" for cm
    using p(2) that db(4) unfolding replicaRan_def holdsObjects_def by (auto simp: lookup_def)
  have config: "endsIn W v (reconcileLitestreamConfig K db) (\<lambda>e v'. e = None \<and> replicaRan p v r db d v')"
    unfolding reconcileLitestreamConfig_def
    by (rule after_weaken [OF config_run [OF K(1,2)]])
       (use p(3) J always in \<open>auto simp: db(4,5)\<close>)
  show ?thesis
    unfolding ReplicaReconcile_def
    by (rule after_found_bind [OF served(2) [OF K(1)] db(1)])
       (simp add: db, rule after_bindI [OF config], simp, rule after_keeps,
        (intro keeps_intros replica_rest_keeps [OF K(1)])[1], assumption, rule always)
qed

lemma replica_run:
  assumes "watches W K" "controller_law (k_Lib K)" "finalizer_laws (k_Lib K)"
    and "runnable p" "holdsObjects p v r db d" "sideObjects p v"
    and "\<And>v'. replicaRan p v r db d v' \<Longrightarrow> wt_Always W v'"
  shows "endsIn W v (ReplicaReconcile K (dkey p)) (\<lambda>_. replicaRan p v r db d)"
  using assms by (intro replica_run_owner) (auto simp: sideObjects_def)

lemma replicaRan_next:
  assumes "replicaRan p v r db d v'" "sideObjects p v" "occurring (lr_Phase r)"
    and "inPhase p (lr_Phase r) (lr_Status r) (isPaused db) d (so_Jobs v (jobKey p)) (so_Leases v (lockKey p))"
  shows "goodNext p ReplicaRun (rankOf (lr_Phase r) (isPaused db) (configIn p v) (jobDone p v)
    (wt_replicas d) (runningReplicas d)) v'"
proof -
  obtain db' d' cm where *: "holdsObjects p v' r db' d'" "db_Meta db' = db_Meta db" "wt_replicas d' = wt_replicas d"
      "runningReplicas d' = runningReplicas d" "so_Jobs v' = so_Jobs v" "so_Leases v' = so_Leases v"
      "so_ConfigMaps v' (jobConfigKey p) = so_ConfigMaps v (jobConfigKey p)" "so_ConfigMaps v' (ckey p) = Some cm"
      "ownedOnlyBy (db_Name (pj_Replica p)) (cm_Meta cm)" "lookup (cm_Data cm) litestreamConfigKey = currentConfig db"
    using assms(1) unfolding replicaRan_def by blast
  have side: "sideObjects p v'" using assms(2) by (simp add: sideObjects_def *)
  have same: "isPaused db' = isPaused db" "jobDone p v' = jobDone p v" "configIn p v' = Some (currentConfig db)"
    "so_Jobs v' (jobKey p) = so_Jobs v (jobKey p)" "so_Leases v' (lockKey p) = so_Leases v (lockKey p)"
    using * by (simp_all add: isPaused_def jobDone_def configIn_def)
  show ?thesis
    using assms(3,4) unfolding occurring_def
    by (intro goodNextI [OF *(1) _ side])
       (auto simp: same *(3,4) turn_def currentConfig_paused desiredReplicas_count split: if_splits)
qed

section \<open>A run of the restore reconciler\<close>

lemma restore_start:
  assumes K: "watches W K" "finalizer_laws (k_Lib K)"
    and p: "runnable p" "holdsObjects p v r db d"
    and ended: "\<And>a. terminal (lr_Phase r) \<Longrightarrow> Q a v"
    and phase: "\<not> terminal (lr_Phase r) \<Longrightarrow> endsIn W v (reconcilePhase K r db) Q"
  shows "endsIn W v (RestoreReconcile K (rkey p)) Q"
proof -
  have *: "so_Restores v (rkey p) = Some r" "so_Replicas v (dkey p) = Some db"
    "(lr_Namespace r, lr_Source r) = dkey p" "hasBackup db"
    "l_ContainsFinalizer (k_Lib K) (lr_Meta r) restoreFinalizerName" "\<not> deleting r"
    using p K(2) by (auto simp: holdsObjects_def runnable_def Let_def finalizer_laws_def sameRestore_def
        hasBackup_def deleting_def sameReplica_simps)
  have "endsIn W v (getReplica K (lr_Namespace r, lr_Source r)) (\<lambda>a v'. a = Inr db \<and> v' = v)"
    unfolding *(3) by (intro after_api [OF K(1)]) (simp_all add: *)
  then show ?thesis
    unfolding RestoreReconcile_def
    by (intro after_found_bind [OF served(1) [OF K(1)] *(1)])
       (use ended phase *(4-6) in \<open>auto simp: terminal_def deleting_def intro!: after_bind after_ret
          elim!: after_weaken\<close>)
qed

lemma mergeRestoreStatus_simps [simp]:
  "lr_Meta (mergeRestoreStatus b n s) = lr_Meta s" "lr_Spec (mergeRestoreStatus b n s) = lr_Spec s"
  "st_Phase (lr_Status (mergeRestoreStatus b n s)) = mergeField (lr_Phase b) (lr_Phase n) (lr_Phase s)"
  "st_JobName (lr_Status (mergeRestoreStatus b n s)) =
     mergeField (st_JobName (lr_Status b)) (st_JobName (lr_Status n)) (st_JobName (lr_Status s))"
  "st_OriginalReplicas (lr_Status (mergeRestoreStatus b n s)) =
     mergeField (st_OriginalReplicas (lr_Status b)) (st_OriginalReplicas (lr_Status n))
       (st_OriginalReplicas (lr_Status s))"
  by (simp_all add: mergeRestoreStatus_def Let_def)

text \<open>What the two patches of the run do to the objects.\<close>

lemma holds_restore:
  "holdsObjects p v r db d \<Longrightarrow>
   holdsObjects p (v\<lparr>so_Restores := (so_Restores v)(rkey p \<mapsto> mergeRestoreStatus b n r)\<rparr>)
     (mergeRestoreStatus b n r) db d"
  by (simp add: holdsObjects_def sameRestore_def)

lemma store_simps [simp]:
  "sideObjects p (v\<lparr>so_Restores := x\<rparr>) = sideObjects p v"
  "configIn p (v\<lparr>so_Restores := x\<rparr>) = configIn p v"
  "jobDone p (v\<lparr>so_Restores := x\<rparr>) = jobDone p v"
  "sideObjects p (v\<lparr>so_Replicas := y\<rparr>) = sideObjects p v"
  "configIn p (v\<lparr>so_Replicas := y\<rparr>) = configIn p v"
  "jobDone p (v\<lparr>so_Replicas := y\<rparr>) = jobDone p v"
  "sideObjects p (v\<lparr>so_Deployments := z\<rparr>) = sideObjects p v"
  "configIn p (v\<lparr>so_Deployments := z\<rparr>) = configIn p v"
  "jobDone p (v\<lparr>so_Deployments := z\<rparr>) = jobDone p v"
  "sideObjects p (v\<lparr>so_StatefulSets := y'\<rparr>) = sideObjects p v"
  "configIn p (v\<lparr>so_StatefulSets := y'\<rparr>) = configIn p v"
  "jobDone p (v\<lparr>so_StatefulSets := y'\<rparr>) = jobDone p v"
  by (simp_all add: sideObjects_def configIn_def jobDone_def)

end
