(* ===== verification/Restore_Completion.thy ===== *)
theory Restore_Completion
  imports Restore_World
begin

text \<open>
  One run of the restore reconciler per phase, on the stored objects, and the theorem that a fair
  schedule completes the restore.
\<close>

text \<open>The steps of a phase keep the other objects, so the next store is \<open>goodNext\<close> by its phase.\<close>

lemma status_next:
  assumes "holdsObjects p v r db d" "sideObjects p v"
    and "inPhase p (lr_Phase (mergeRestoreStatus b n r)) (lr_Status (mergeRestoreStatus b n r)) (isPaused db) d
      (so_Jobs v (jobKey p)) (so_Leases v (lockKey p))"
    and "rankOf (lr_Phase (mergeRestoreStatus b n r)) (isPaused db) (configIn p v) (jobDone p v)
      (wt_replicas d) (runningReplicas d) < k"
  shows "goodNext p RestoreRun k (v\<lparr>so_Restores := (so_Restores v)(rkey p \<mapsto> mergeRestoreStatus b n r)\<rparr>)"
  using assms by (intro goodNextI [OF holds_restore [OF assms(1)]]) auto

lemma same_keys:
  assumes "holdsObjects p v r db d"
  shows "objectKey (lr_Meta r) = rkey p" "objectKey (db_Meta db) = dkey p" "objectKey (wt_meta d) = wkey p"
    "lr_Namespace r = lr_Namespace (pj_Restore p)" "lr_Name r = lr_Name (pj_Restore p)"
    "lr_Mode r = lr_Mode (pj_Restore p)" "lr_Spec r = lr_Spec (pj_Restore p)"
    "db_Name db = db_Name (pj_Replica p)" "db_Namespace db = db_Namespace (pj_Replica p)"
    "db_Spec db = db_Spec (pj_Replica p)"
    "leaseName r = leaseName (pj_Restore p)" "restoreJobName r = restoreJobName (pj_Restore p)"
    "so_Restores v (rkey p) = Some r" "so_Replicas v (dkey p) = Some db" "targetIn p v = Some d"
    "wt_podSpec d = wt_podSpec (pj_Workload p)"
  using assms by (auto simp: holdsObjects_def sameRestore_def sameWorkload_def sameReplica_simps
      leaseName_def restoreJobName_def)

lemma runnableD:
  assumes "runnable p"
  shows "lr_Mode (pj_Restore p) \<noteq> RestoreModeToPVC" "hasBackup (pj_Replica p)"
    "case pj_Workload p of
       WDeployment _ \<Rightarrow> sp_TargetStatefulSet (db_Spec (pj_Replica p)) = [] \<and>
         (db_Namespace (pj_Replica p), sp_TargetDeployment (db_Spec (pj_Replica p))) = wkey p
     | WStatefulSet _ \<Rightarrow> sp_TargetStatefulSet (db_Spec (pj_Replica p)) \<noteq> [] \<and>
         (db_Namespace (pj_Replica p), sp_TargetStatefulSet (db_Spec (pj_Replica p))) = wkey p"
    "replicaTarget p > 0" "db_Namespace (pj_Replica p) = lr_Namespace (pj_Restore p)"
    "db_Name (pj_Replica p) = lr_Source (pj_Restore p)" "lr_Name (pj_Restore p) \<noteq> db_Name (pj_Replica p)"
  using assms by (auto simp: runnable_def Let_def objectKey_def)

text \<open>The workload that both controllers look at is the target of the replica.\<close>

lemma after_target:
  assumes K: "watches W K" and p: "runnable p" "sameReplica (pj_Replica p) db" and d: "targetIn p v = Some d"
    and Q: "Q (Inr d) v"
  shows "endsIn W v (getTargetWorkloadForRestore K db) Q"
proof (cases "pj_Workload p")
  case (WDeployment x)
  then obtain y where y: "so_Deployments v (wkey p) = Some y" "d = WDeployment y"
    using d by (auto simp: targetIn_def)
  have "sp_TargetStatefulSet (db_Spec db) = []" "(db_Namespace db, sp_TargetDeployment (db_Spec db)) = wkey p"
    using runnableD(3) [OF p(1)] by (simp_all add: WDeployment sameReplica_simps [OF p(2)])
  then show ?thesis
    unfolding getTargetWorkloadForRestore_def
    by simp (rule after_found_bind [OF served(3) [OF K] y(1)], use Q y(2) in \<open>simp add: after_ret\<close>)
next
  case (WStatefulSet x)
  then obtain y where y: "so_StatefulSets v (wkey p) = Some y" "d = WStatefulSet y"
    using d by (auto simp: targetIn_def)
  have "sp_TargetStatefulSet (db_Spec db) \<noteq> []" "(db_Namespace db, sp_TargetStatefulSet (db_Spec db)) = wkey p"
    using runnableD(3) [OF p(1)] by (simp_all add: WStatefulSet sameReplica_simps [OF p(2)])
  then show ?thesis
    unfolding getTargetWorkloadForRestore_def
    by simp (rule after_found_bind [OF served(7) [OF K] y(1)], use Q y(2) in \<open>simp add: after_ret\<close>)
qed

lemma after_workload:
  assumes "watches W K" "runnable p" "holdsObjects p v r db d" "Q (Inr d) v"
  shows "endsIn W v (getTargetWorkloadForRestore K db) Q"
  using assms by (intro after_target [where p = p and d = d]) (auto simp: holdsObjects_def)

lemma locateDatabase_spec:
  assumes "db_Spec db' = db_Spec db"
  shows "locateDatabase db' = locateDatabase db"
  unfolding locateDatabase_def restoreContainer_def assms by (rule refl)

text \<open>The last step of a run that moves on: a status patch.\<close>

lemma setStatus_next:
  assumes "watches W K" "holdsObjects p v r db d" "sideObjects p v" "lr_Meta b = lr_Meta r"
    and "\<And>n. n = mergeRestoreStatus b (withStatus ph j m orig t ct b) r \<Longrightarrow>
      inPhase p (lr_Phase n) (lr_Status n) (isPaused db) d (so_Jobs v (jobKey p)) (so_Leases v (lockKey p)) \<and>
      rankOf (lr_Phase n) (isPaused db) (configIn p v) (jobDone p v) (wt_replicas d) (runningReplicas d) < k"
    and "wt_Always W = steady p k"
  shows "endsIn W v (setStatus K b ph j m orig t ct) (\<lambda>_. goodNext p RestoreRun k)"
proof -
  let ?n = "withStatus ph j m orig t ct b"
  have "goodNext p RestoreRun k (v\<lparr>so_Restores := (so_Restores v)(rkey p \<mapsto> mergeRestoreStatus b ?n r)\<rparr>)"
    using status_next [OF assms(2,3), of b ?n k] assms(5) by blast
  note this goodNext_steady [OF this]
  then show ?thesis
    unfolding setStatus_def
    by (intro after_intros after_api [OF assms(1)])
       (auto simp: assms(4,6) same_keys [OF assms(2)] intro!: after_ret)
qed

lemma resolve_run:
  assumes "watches W K" "runnable p" "holdsObjects p v r db d"
  shows "endsIn W v (resolveRestoreTarget K r db) (\<lambda>a v'. v' = v \<and> (\<exists>x y z. a = Inr (x, y, z)))"
proof -
  obtain x y z where "locateDatabase db (wt_podSpec d) = Inr (x, y, z)"
    using assms(2) locateDatabase_spec [OF same_keys(10) [OF assms(3)]]
    by (auto simp: runnable_def Let_def same_keys(16) [OF assms(3)])
  then show ?thesis
    unfolding resolveRestoreTarget_def
    by (auto simp: same_keys [OF assms(3)] runnableD [OF assms(2)]
        intro!: after_bind after_workload [OF assms(1,2,3)] after_ret)
qed

lemma store_run:
  assumes "watches W K" "holdsObjects p v r db d"
    and "\<And>r' rs. holdsObjects p (v\<lparr>so_Restores := rs\<rparr>) r' db d \<Longrightarrow> lr_Phase r' = lr_Phase r \<Longrightarrow>
      st_OriginalReplicas (lr_Status r') = st_OriginalReplicas (lr_Status r) \<Longrightarrow>
      wt_Always W (v\<lparr>so_Restores := rs\<rparr>)"
  shows "endsIn W v (storeResolved K r x y z) (\<lambda>a v'. \<exists>r'. a = Inr r' \<and> holdsObjects p v' r' db d \<and>
    st_OriginalReplicas (lr_Status r') = st_OriginalReplicas (lr_Status r) \<and>
    (\<exists>rs. v' = v\<lparr>so_Restores := rs\<rparr>))"
  unfolding storeResolved_def
proof (intro after_if after_ret after_api [OF assms(1)])
  fix s
  assume "so_Restores v (objectKey (lr_Meta (withResolved x y z r))) = Some s"
  then have s: "s = r" using same_keys [OF assms(2)] by simp
  let ?r = "mergeRestoreStatus r (withResolved x y z r) r"
  let ?v = "v\<lparr>so_Restores := (so_Restores v)(objectKey (lr_Meta (withResolved x y z r)) \<mapsto> ?r)\<rparr>"
  have 1: "holdsObjects p ?v ?r db d"
    using holds_restore [OF assms(2), of r "withResolved x y z r"] same_keys [OF assms(2)] by simp
  have "wt_Always W ?v"
    by (rule assms(3) [OF 1]) simp_all
  then show "(\<exists>r'. Inr (mergeRestoreStatus r (withResolved x y z r) s) = Inr r' \<and>
      holdsObjects p (v\<lparr>so_Restores := (so_Restores v)(objectKey (lr_Meta (withResolved x y z r)) \<mapsto>
        mergeRestoreStatus r (withResolved x y z r) s)\<rparr>) r' db d \<and>
      st_OriginalReplicas (lr_Status r') = st_OriginalReplicas (lr_Status r) \<and>
      (\<exists>rs. v\<lparr>so_Restores := (so_Restores v)(objectKey (lr_Meta (withResolved x y z r)) \<mapsto>
        mergeRestoreStatus r (withResolved x y z r) s)\<rparr> = v\<lparr>so_Restores := rs\<rparr>)) \<and>
      wt_Always W (v\<lparr>so_Restores := (so_Restores v)(objectKey (lr_Meta (withResolved x y z r)) \<mapsto>
        mergeRestoreStatus r (withResolved x y z r) s)\<rparr>)"
    using 1 s by auto
qed (use assms(2) same_keys [OF assms(2)] in \<open>auto intro: exI [of _ "so_Restores v"]\<close>)

lemma pending_run:
  assumes K: "watches W K" and p: "runnable p" "holdsObjects p v r db d" "sideObjects p v"
    and st: "st_OriginalReplicas (lr_Status r) = None" "desiredReplicas d = replicaTarget p"
      "so_Jobs v (jobKey p) = None" "lr_Phase r = [] \<or> lr_Phase r = RestorePhasePending"
    and always: "wt_Always W = steady p 11"
  shows "endsIn W v (reconcilePending K r db) (\<lambda>_. goodNext p RestoreRun 11)"
  unfolding reconcilePending_def withResult_def
  apply (rule after_bindI [OF resolve_run [OF K p(1,2)]], clarsimp)
  apply (rule after_bindI [OF store_run [OF K p(2)]])
  subgoal by (unfold always, rule steadyI, assumption) (use p(3) st in auto)
  apply clarsimp
  subgoal premises * for x y z r' rs
    using *(2) p(3) st always
    by (auto simp: same_keys [OF *(1)] runnableD [OF p(1)] intro!: after_bind after_ret
        after_workload [OF K p(1) *(1)] after_api [OF K] after_weaken [OF setStatus_next [OF K *(1)]])
  done

section \<open>The lock and the pause\<close>

lemma mergeReplica_holds:
  "holdsObjects p v r db d \<Longrightarrow>
   holdsObjects p (v\<lparr>so_Replicas := (so_Replicas v)(dkey p \<mapsto> mergeReplica b n db)\<rparr>) r (mergeReplica b n db) d"
  by (auto simp: holdsObjects_def sameReplica_def mergeReplica_def)

lemma mergeReplica_pause [simp]:
  "isPaused (mergeReplica db (setPause db) db)" "\<not> isPaused (mergeReplica db (clearPause db) db)"
  by (simp_all add: isPaused_def mergeReplica_def setPause_def clearPause_def lookup_def)

lemma pause_keys [simp]:
  "objectKey (db_Meta (setPause db)) = objectKey (db_Meta db)" "objectKey (db_Meta (clearPause db)) = objectKey (db_Meta db)"
  by (simp_all add: setPause_def clearPause_def objectKey_def)

lemma pause_run:
  assumes "watches W K" "holdsObjects p v r db d"
    and "\<And>db' x. holdsObjects p (v\<lparr>so_Replicas := x\<rparr>) r db' d \<Longrightarrow> isPaused db' \<Longrightarrow>
      wt_Always W (v\<lparr>so_Replicas := x\<rparr>)"
  shows "endsIn W v (pauseReplication K db) (\<lambda>a v'. \<exists>db'. a = Inr db' \<and> holdsObjects p v' r db' d \<and>
    isPaused db' \<and> (\<exists>x. v' = v\<lparr>so_Replicas := x\<rparr>))"
  unfolding pauseReplication_def
  apply (intro after_if after_ret after_api [OF assms(1)])
  subgoal using assms(2) by (auto simp: isPaused_def intro: exI [of _ "so_Replicas v"])
  subgoal for s
    using mergeReplica_holds [OF assms(2), of db "setPause db"] assms(3) [OF mergeReplica_holds [OF assms(2), of db "setPause db"]]
      same_keys [OF assms(2)] by auto
  subgoal using same_keys [OF assms(2)] by simp
  done

lemma lock_run:
  assumes K: "watches W K" and p: "holdsObjects p v r db d" "sideObjects p v"
    and st: "st_OriginalReplicas (lr_Status r) = Some (replicaTarget p)" "so_Jobs v (jobKey p) = None"
      "lr_Phase r = RestorePhaseAcquiringLock"
    and always: "wt_Always W = steady p 10"
  shows "endsIn W v (lockAcquired K r db) (\<lambda>_. goodNext p RestoreRun 10)"
  unfolding lockAcquired_def withResult_def advance_def
  apply (rule after_bindI [OF pause_run [OF K p(1)]])
  subgoal by (unfold always, rule steadyI, assumption) (use p(2) st in auto)
  apply clarsimp
  subgoal premises * for db' x
    using *(2) p(2) st always
    by (auto simp: mergeField_def intro!: after_bind after_ret after_api [OF K] after_let
        after_weaken [OF setStatus_next [OF K *(1), where k = 10]])
  done

lemma holds_lease:
  "holdsObjects p v r db d \<Longrightarrow> holdsObjects p (v\<lparr>so_Leases := x\<rparr>) r db d"
  by (simp add: holdsObjects_def)

lemma acquiring_run:
  assumes K: "watches W K" "controller_law (k_Lib K)"
    and p: "runnable p" "holdsObjects p v r db d" "sideObjects p v"
    and st: "st_OriginalReplicas (lr_Status r) = Some (replicaTarget p)" "so_Jobs v (jobKey p) = None"
      "lr_Phase r = RestorePhaseAcquiringLock"
    and always: "wt_Always W = steady p 10"
  shows "endsIn W v (reconcileAcquiringLock K r db) (\<lambda>_. goodNext p RestoreRun 10)"
proof -
  have mode: "lr_Mode r \<noteq> RestoreModeToPVC" using runnableD [OF p(1)] same_keys [OF p(2)] by simp
  let ?m = "\<lambda>t. (ls_Meta (newLease r t))\<lparr>om_OwnerReferences := [lr_Name r]\<rparr>"
  have owner: "l_SetControllerReference (k_Lib K) (lr_Meta r) (ls_Meta (newLease r t)) = Inr (?m t)" for t
    using K(2) by (simp add: controller_law_def newLease_def emptyMeta_def)
  have key: "objectKey (?m t) = lockKey p" for t
    by (simp add: objectKey_def newLease_def same_keys [OF p(2)])
  have side: "sideObjects p (v\<lparr>so_Leases := (so_Leases v)(lockKey p \<mapsto> (newLease r t)\<lparr>ls_Meta := ?m t\<rparr>)\<rparr>)" for t
    using p(3) key by (auto simp: sideObjects_def newLease_def same_keys [OF p(2)])
  have free: "endsIn W v (createLease K ((newLease r t)\<lparr>ls_Meta := ?m t\<rparr>)) (\<lambda>c v'. c = None \<and>
      v' = v\<lparr>so_Leases := (so_Leases v)(lockKey p \<mapsto> (newLease r t)\<lparr>ls_Meta := ?m t\<rparr>)\<rparr>)"
    if "so_Leases v (lockKey p) = None" for t
    by (intro after_api [OF K(1)])
       (use steadyI [OF holds_lease [OF p(2)] _ side [of t]] st in \<open>simp_all add: key that always configIn_def jobDone_def\<close>)
  show ?thesis
    unfolding reconcileAcquiringLock_def
    apply (simp only: mode if_False not_False_eq_True same_keys(4,11) [OF p(2)])
    apply (rule after_bind, rule after_api [OF K(1)])
    subgoal for l
      using p(3) lock_run [OF K(1) p(2,3) st always] by (auto simp: sideObjects_def same_keys [OF p(2)])
    subgoal for t
      by (auto simp: owner intro!: after_bind after_api [OF K(1)] after_weaken [OF free]
          lock_run [OF K(1) holds_lease [OF p(2)] side _ _ _ always] simp: st)
    done
qed

section \<open>Fencing and the Job\<close>

text \<open>A run that has nothing to do keeps everything.\<close>

lemma stay:
  assumes "holdsObjects p v r db d" "sideObjects p v"
    and "inPhase p (lr_Phase r) (lr_Status r) (isPaused db) d (so_Jobs v (jobKey p)) (so_Leases v (lockKey p))"
    and "k = rankOf (lr_Phase r) (isPaused db) (configIn p v) (jobDone p v) (wt_replicas d) (runningReplicas d)"
      "turn k \<noteq> RestoreRun"
  shows "goodNext p RestoreRun k v"
  using assms by (intro goodNextI [OF assms(1,3,2)]) auto

lemma buildRestoreJob_some:
  assumes "hasBackup db"
  obtains j where "buildRestoreJob r db n x y z = Some j" "om_OwnerReferences (jb_Meta j) = []"
    "om_Name (jb_Meta j) = n" "om_Namespace (jb_Meta j) = lr_Namespace r" "jb_Conditions j = []"
  using assms by (auto simp: hasBackup_def buildRestoreJob_def emptyMeta_def)

lemma restoreJobName_not_empty [simp]: "restoreJobName r \<noteq> []"
  by (simp add: restoreJobName_def)

text \<open>What writing the configuration of the Job does, and the creation of the Job itself.\<close>

lemma jobConfig_run:
  assumes K: "watches W K" "controller_law (k_Lib K)"
    and p: "runnable p" "holdsObjects p v r db d" "sideObjects p v" "lr_Meta b = lr_Meta r"
    and always: "\<And>v'. holdsObjects p v' r db d \<Longrightarrow> sideObjects p v' \<Longrightarrow> configIn p v' = configIn p v \<Longrightarrow>
      so_Jobs v' = so_Jobs v \<Longrightarrow> so_Leases v' = so_Leases v \<Longrightarrow> wt_Always W v'"
  shows "endsIn W v (reconcileRestoreConfig K b db) (\<lambda>e v'. e = None \<and> holdsObjects p v' r db d \<and>
    sideObjects p v' \<and> configIn p v' = configIn p v \<and> so_Jobs v' = so_Jobs v \<and> so_Leases v' = so_Leases v)"
proof -
  have "ckey p \<noteq> jobConfigKey p" using runnableD(7) [OF p(1)] by auto
  then have wrote: "holdsObjects p v' r db d \<and> sideObjects p v' \<and> configIn p v' = configIn p v \<and>
      so_Jobs v' = so_Jobs v \<and> so_Leases v' = so_Leases v"
    if "ownedOnlyBy (lr_Name r) (cm_Meta cm)"
      "v' = v\<lparr>so_ConfigMaps := (so_ConfigMaps v)((lr_Namespace r, lr_Name r @ ''-litestream'') \<mapsto> cm)\<rparr>" for cm v'
    using p(2,3) that by (auto simp: same_keys [OF p(2)] sideObjects_def configIn_def holdsObjects_def)
  show ?thesis
    unfolding reconcileRestoreConfig_def
    by (intro after_weaken [OF config_run [OF K]])
       (use p(3) wrote always in \<open>auto simp: p(4) same_keys [OF p(2)] sideObjects_def\<close>)
qed

text \<open>A Job that was there already is taken over.\<close>

lemma launched_run:
  assumes K: "watches W K" and p: "holdsObjects p v r db d" "sideObjects p v"
    and st: "st_OriginalReplicas (lr_Status r) = Some (replicaTarget p)" "lr_Phase r = RestorePhaseFencing" "k > 5"
    and b: "lr_Meta b = lr_Meta r" "st_OriginalReplicas (lr_Status b) = st_OriginalReplicas (lr_Status r)"
      "lr_Phase b = lr_Phase r" "st_JobName (lr_Status b) = st_JobName (lr_Status r)"
    and j: "so_Jobs v (jobKey p) = Some j" "jobFine j"
    and always: "wt_Always W = steady p k"
  shows "endsIn W v (jobLaunched K b note orig) (\<lambda>_. goodNext p RestoreRun k)"
proof -
  have "restoreJobName b = restoreJobName (pj_Restore p)"
    using b(1) same_keys [OF p(1)] by (simp add: restoreJobName_def)
  then show ?thesis
    unfolding jobLaunched_def withResult_def
    using st b j
    by (auto simp: mergeField_def intro!: after_bind after_ret after_api [OF K]
        after_weaken [OF setStatus_next [OF K p, where k = k]] always)
qed

lemma createJob_run:
  assumes K: "watches W K" and p: "holdsObjects p v r db d" "sideObjects p v"
    and st: "st_OriginalReplicas (lr_Status r) = Some (replicaTarget p)"
      "case so_Jobs v (jobKey p) of None \<Rightarrow> True | Some job \<Rightarrow> jobFine job"
      "lr_Phase r = RestorePhaseFencing" "isPaused db" "k > 5"
    and fenced: "configIn p v = Some pausedConfig" "wt_replicas d = Some 0" "\<not> runningReplicas d > 0"
    and b: "lr_Meta b = lr_Meta r" "st_OriginalReplicas (lr_Status b) = st_OriginalReplicas (lr_Status r)"
      "lr_Phase b = lr_Phase r" "st_JobName (lr_Status b) = st_JobName (lr_Status r)"
    and j: "objectKey (jb_Meta j) = jobKey p" "jb_Conditions j = []"
    and always: "wt_Always W = steady p k"
  shows "endsIn W v (do { e \<leftarrow> createJob K j; case e of
      None \<Rightarrow> jobLaunched K b note orig
    | Some err \<Rightarrow> if IsAlreadyExists err then jobLaunched K b note orig
                  else ret (emptyResult, Some (Wrapped ''creating restore Job'' err)) })
    (\<lambda>_. goodNext p RestoreRun k)"
proof -
  let ?v = "v\<lparr>so_Jobs := (so_Jobs v)(jobKey p \<mapsto> j)\<rparr>"
  have v: "holdsObjects p ?v r db d" "sideObjects p ?v"
    using p by (simp_all add: holdsObjects_def sideObjects_def)
  have fine: "jobFine j" by (simp add: jobFine_def jobVerdict_def j)
  have created: "steady p k ?v"
    by (rule steadyI [OF v(1) _ v(2)]) (use st fenced fine in \<open>simp_all add: configIn_def\<close>)
  note run = launched_run [OF K _ _ st(1,3,5) b _ _ always]
  show ?thesis
    by (rule after_bind, rule after_api [OF K])
       (use created run [OF v _ fine] run [OF p] st(2) in \<open>simp_all add: j always split: option.splits\<close>)
qed

lemma launch_run:
  assumes K: "watches W K" "controller_law (k_Lib K)"
    and p: "runnable p" "holdsObjects p v r db d" "sideObjects p v"
    and b: "lr_Meta b = lr_Meta r" "st_OriginalReplicas (lr_Status b) = st_OriginalReplicas (lr_Status r)"
      "lr_Phase b = lr_Phase r" "st_JobName (lr_Status b) = st_JobName (lr_Status r)"
    and st: "st_OriginalReplicas (lr_Status r) = Some (replicaTarget p)"
      "case so_Jobs v (jobKey p) of None \<Rightarrow> True | Some job \<Rightarrow> jobFine job"
      "lr_Phase r = RestorePhaseFencing" "isPaused db" "k > 5"
    and fenced: "configIn p v = Some pausedConfig" "wt_replicas d = Some 0" "\<not> runningReplicas d > 0"
    and always: "wt_Always W = steady p k"
  shows "endsIn W v (launchRestoreJob K b db x y z note orig) (\<lambda>_. goodNext p RestoreRun k)"
proof -
  have "hasBackup db"
    using p(1) same_keys [OF p(2)] by (simp add: runnable_def Let_def hasBackup_def)
  then obtain j where j: "buildRestoreJob b db (restoreJobName b) x y z = Some j"
    "om_OwnerReferences (jb_Meta j) = []" "om_Name (jb_Meta j) = restoreJobName b"
    "om_Namespace (jb_Meta j) = lr_Namespace b" "jb_Conditions j = []"
    using buildRestoreJob_some by blast
  have owner: "l_SetControllerReference (k_Lib K) (lr_Meta b) (jb_Meta j) =
      Inr ((jb_Meta j)\<lparr>om_OwnerReferences := [lr_Name b]\<rparr>)"
    using K(2) j(2) by (simp add: controller_law_def)
  have key: "objectKey ((jb_Meta j)\<lparr>om_OwnerReferences := [lr_Name b]\<rparr>) = jobKey p"
    using same_keys [OF p(2)] b(1) by (simp add: objectKey_def j restoreJobName_def)
  show ?thesis
    unfolding launchRestoreJob_def
    apply (rule after_bindI [OF jobConfig_run [OF K p b(1)]])
    subgoal by (unfold always, rule steadyI, assumption) (use st fenced in simp_all)
    apply (clarsimp simp: j owner)
    apply (rule createJob_run [OF K(1) _ _ st(1) _ st(3,4,5) _ fenced(2,3) b _ _ always])
        apply (simp_all add: key j st fenced)
    done
qed

text \<open>Storing the workload again, with the replica count that a patch gives it.\<close>

lemma mergeDeployment_holds:
  "holdsObjects p v r db (WDeployment d) \<Longrightarrow>
   holdsObjects p (v\<lparr>so_Deployments := (so_Deployments v)(wkey p \<mapsto> mergeDeployment b n d)\<rparr>) r db
     (WDeployment (mergeDeployment b n d))"
  by (auto simp: holdsObjects_def sameWorkload_def targetIn_def split: workloadTarget.splits)

lemma mergeStatefulSet_holds:
  "holdsObjects p v r db (WStatefulSet d) \<Longrightarrow>
   holdsObjects p (v\<lparr>so_StatefulSets := (so_StatefulSets v)(wkey p \<mapsto> mergeStatefulSet b n d)\<rparr>) r db
     (WStatefulSet (mergeStatefulSet b n d))"
  by (auto simp: holdsObjects_def sameWorkload_def targetIn_def split: workloadTarget.splits)

lemma stored_target:
  "holdsObjects p v r db (WDeployment x) \<Longrightarrow> so_Deployments v (wkey p) = Some x \<and> objectKey (dp_Meta x) = wkey p"
  "holdsObjects p v r db (WStatefulSet y) \<Longrightarrow> so_StatefulSets v (wkey p) = Some y \<and> objectKey (ss_Meta y) = wkey p"
  by (auto simp: holdsObjects_def sameWorkload_def targetIn_def split: workloadTarget.splits)

text \<open>Nothing but workloads has changed.\<close>

definition rescaled :: "store \<Rightarrow> store \<Rightarrow> bool" where
  "rescaled v v' \<longleftrightarrow> (\<exists>x y. v' = v\<lparr>so_Deployments := x, so_StatefulSets := y\<rparr>)"

lemma rescaled_simps [simp]:
  "rescaled v v" "rescaled v (v\<lparr>so_Deployments := x\<rparr>)" "rescaled v (v\<lparr>so_StatefulSets := y\<rparr>)"
proof -
  have "v = v\<lparr>so_Deployments := so_Deployments v, so_StatefulSets := so_StatefulSets v\<rparr>"
    "v\<lparr>so_Deployments := x\<rparr> = v\<lparr>so_Deployments := x, so_StatefulSets := so_StatefulSets v\<rparr>"
    "v\<lparr>so_StatefulSets := y\<rparr> = v\<lparr>so_Deployments := so_Deployments v, so_StatefulSets := y\<rparr>"
    by simp_all
  then show "rescaled v v" "rescaled v (v\<lparr>so_Deployments := x\<rparr>)" "rescaled v (v\<lparr>so_StatefulSets := y\<rparr>)"
    unfolding rescaled_def by blast+
qed

lemma rescaledD:
  assumes "rescaled v v'"
  shows "sideObjects p v' = sideObjects p v" "configIn p v' = configIn p v" "jobDone p v' = jobDone p v"
    "so_Jobs v' = so_Jobs v" "so_Leases v' = so_Leases v" "so_Restores v' = so_Restores v"
    "so_Replicas v' = so_Replicas v" "so_ConfigMaps v' = so_ConfigMaps v"
  using assms by (auto simp: rescaled_def)

lemma scale_run:
  assumes K: "watches W K" and p: "holdsObjects p v r db d"
    and always: "\<And>d' v'. rescaled v v' \<Longrightarrow> holdsObjects p v' r db d' \<Longrightarrow> wt_replicas d' = Some n \<Longrightarrow>
      runningReplicas d' = runningReplicas d \<Longrightarrow> wt_Always W v'"
  shows "endsIn W v (scaleWorkload K d n) (\<lambda>a v'. \<exists>d'. a = Inr d' \<and>
    holdsObjects p v' r db d' \<and> wt_replicas d' = Some n \<and> runningReplicas d' = runningReplicas d \<and>
    rescaled v v')"
proof (cases d)
  case (WDeployment x)
  note p = p [unfolded WDeployment]
  let ?d = "mergeDeployment x (x\<lparr>dp_Replicas := Some n\<rparr>) x"
  note d = mergeDeployment_holds [OF p, of x "x\<lparr>dp_Replicas := Some n\<rparr>"]
  have n: "dp_Replicas ?d = Some n" by (simp add: mergeField_def)
  have "wt_Always W (v\<lparr>so_Deployments := (so_Deployments v)(wkey p \<mapsto> ?d)\<rparr>)"
    by (rule always [OF _ d]) (use n WDeployment in simp_all)
  then show ?thesis
    unfolding scaleWorkload_def
    using d n p stored_target(1) [OF p]
    by (auto simp: WDeployment intro!: after_bind after_ret after_api [OF K])
next
  case (WStatefulSet x)
  note p = p [unfolded WStatefulSet]
  let ?d = "mergeStatefulSet x (x\<lparr>ss_Replicas := Some n\<rparr>) x"
  note d = mergeStatefulSet_holds [OF p, of x "x\<lparr>ss_Replicas := Some n\<rparr>"]
  have n: "ss_Replicas ?d = Some n" by (simp add: mergeField_def)
  have "wt_Always W (v\<lparr>so_StatefulSets := (so_StatefulSets v)(wkey p \<mapsto> ?d)\<rparr>)"
    by (rule always [OF _ d]) (use n WStatefulSet in simp_all)
  then show ?thesis
    unfolding scaleWorkload_def
    using d n p stored_target(2) [OF p]
    by (auto simp: WStatefulSet intro!: after_bind after_ret after_api [OF K])
qed

lemma read_config:
  assumes "watches W K" "holdsObjects p v r db d"
    and "configIn p v = None \<Longrightarrow> (\<And>t. Q (Inl (ApiError NotFound t)) v)"
    and "\<And>cm. configIn p v = Some (lookup (cm_Data cm) litestreamConfigKey) \<Longrightarrow> Q (Inr cm) v"
  shows "endsIn W v (getConfigMap K (db_Namespace db, db_Name db @ ''-litestream'')) Q"
  unfolding same_keys [OF assms(2)]
  by (intro after_api [OF assms(1)]) (use assms(3,4) in \<open>auto simp: configIn_def\<close>)

text \<open>With the replica count at zero: waiting for the pods, or starting the Job.\<close>

lemma fenced_run:
  assumes K: "watches W K" "controller_law (k_Lib K)"
    and p: "runnable p" "holdsObjects p v r db d" "sideObjects p v"
    and st: "st_OriginalReplicas (lr_Status r) = Some (replicaTarget p)"
      "case so_Jobs v (jobKey p) of None \<Rightarrow> True | Some job \<Rightarrow> jobFine job"
      "lr_Phase r = RestorePhaseFencing" "isPaused db"
    and fenced: "configIn p v = Some pausedConfig" "wt_replicas d = Some 0"
    and always: "wt_Always W = steady p k"
  shows "runningReplicas d > 0 \<Longrightarrow> k \<ge> 7 \<Longrightarrow> goodNext p RestoreRun k v"
    and "\<not> runningReplicas d > 0 \<Longrightarrow> k > 5 \<Longrightarrow> endsIn W v (launchRestoreJob K (markRestore (k_Lib K) t RestoreConditionApplicationFenced
      ConditionTrue ''WorkloadScaledDown'' ''application is fenced'' r) db y z w note orig)
      (\<lambda>_. goodNext p RestoreRun k)"
  subgoal by (rule goodNextI [OF p(2) _ p(3)]) (use st fenced in \<open>auto simp: turn_def split: if_splits\<close>)
  subgoal by (rule launch_run [OF K p]) (use st fenced always in auto)
  done

lemma fencing_run:
  assumes K: "watches W K" "controller_law (k_Lib K)"
    and p: "runnable p" "holdsObjects p v r db d" "sideObjects p v"
    and st: "st_OriginalReplicas (lr_Status r) = Some (replicaTarget p)"
      "case so_Jobs v (jobKey p) of None \<Rightarrow> True | Some job \<Rightarrow> jobFine job"
      "lr_Phase r = RestorePhaseFencing" "isPaused db"
    and k: "k = rankOf (lr_Phase r) (isPaused db) (configIn p v) (jobDone p v) (wt_replicas d) (runningReplicas d)"
    and always: "wt_Always W = steady p k"
  shows "endsIn W v (reconcileFencing K r db) (\<lambda>_. goodNext p RestoreRun k)"
proof -
  have wait: "goodNext p RestoreRun k v" if "configIn p v \<noteq> Some pausedConfig"
    by (rule stay [OF p(2,3)]) (use st that k in \<open>simp_all add: turn_def\<close>)
  have "endsIn W v (do {
      f \<leftarrow> fenceWorkload K r db;
      case f of
        Some answer \<Rightarrow> ret answer
      | None \<Rightarrow> do {
          t \<leftarrow> now K;
          let restore = markRestore (k_Lib K) t RestoreConditionApplicationFenced ConditionTrue
                ''WorkloadScaledDown'' ''application is fenced'' r;
              st = lr_Status restore
          in launchRestoreJob K restore db (st_ResolvedPVC st) (st_ResolvedPath st)
               (st_ResolvedSubPath st) [] (st_OriginalReplicas st)
        }
    }) (\<lambda>_. goodNext p RestoreRun k)" if c: "configIn p v = Some pausedConfig"
    unfolding fenceWorkload_def
    apply (simp only: State_Monad.bind_assoc)
    apply (rule after_bind, rule after_workload [OF K(1) p(1,2)])
    apply (simp only: sum.case State_Monad.bind_assoc)
    apply (rule after_bindI [OF scale_run [OF K(1) p(2)]])
    subgoal by (unfold always, rule steadyI, assumption) (use p(3) st c k in \<open>auto simp: rescaled_def split: if_splits\<close>)
    apply clarsimp
    subgoal premises * for v' d'
      using fenced_run [OF K p(1) *(1) _ _ _ st(3,4) _ _ always] *(1-3) p(3) st c k
        rescaledD(1,2) [OF *(4), where p = p] rescaledD(4) [OF *(4)]
      by (auto intro!: after_bind after_ret after_api [OF K(1)] split: if_splits)
    done
  moreover have "lookup (db_Annotations db) pauseAnnotation = injectEnabled"
    using st(4) by (simp add: isPaused_def)
  ultimately show ?thesis
    unfolding reconcileFencing_def
    by (simp only: if_False not_True_eq_False simp_thms)
       (rule after_bind, rule read_config [OF K(1) p(2)]; use wait in \<open>auto intro: after_ret\<close>)
qed

section \<open>The end of the Job and the resumption\<close>

lemma restoring_run:
  assumes K: "watches W K" and p: "runnable p" "holdsObjects p v r db d" "sideObjects p v"
    and st: "lr_Phase r = RestorePhaseRestoring"
      "inPhase p (lr_Phase r) (lr_Status r) (isPaused db) d (so_Jobs v (jobKey p)) (so_Leases v (lockKey p))"
    and k: "k = rankOf (lr_Phase r) (isPaused db) (configIn p v) (jobDone p v) (wt_replicas d) (runningReplicas d)"
    and always: "wt_Always W = steady p k"
  shows "endsIn W v (reconcileRestoring K r db) (\<lambda>_. goodNext p RestoreRun k)"
proof -
  obtain j where j: "so_Jobs v (jobKey p) = Some j" "\<And>c. jobVerdict j = Some c \<Longrightarrow> jc_Type c = JobComplete"
    using st by (auto simp: jobFine_def split: option.splits)
  have status: "st_JobName (lr_Status r) = restoreJobName (pj_Restore p)"
    "st_OriginalReplicas (lr_Status r) = Some (replicaTarget p)" using st by simp_all
  have wait: "goodNext p RestoreRun k v" if "jobVerdict j = None"
    by (rule stay [OF p(2,3)]) (use st that k j in \<open>simp_all add: turn_def jobDone_def\<close>)
  have finished: "endsIn W v (restoreJobSucceeded K r) (\<lambda>_. goodNext p RestoreRun k)" if "jobVerdict j \<noteq> None"
  proof -
    have "k = 4" using that k j st by (simp add: jobDone_def)
    then show ?thesis
      unfolding restoreJobSucceeded_def withResult_def advance_def
      using st(1) status always
      by (auto simp: mergeField_def same_keys [OF p(2)] runnableD [OF p(1)] intro!: after_bind after_ret
          after_api [OF K] after_let after_weaken [OF setStatus_next [OF K p(2,3), where k = 4]])
  qed
  show ?thesis
    unfolding reconcileRestoring_def status same_keys(4) [OF p(2)]
    by (rule after_found_bind [OF served(5) [OF K] j(1)])
       (use wait finished j(2) in \<open>auto intro!: after_ret split: option.split\<close>)
qed

lemma resume_run:
  assumes K: "watches W K" and p: "holdsObjects p v r db d"
    and always: "\<And>db' x. holdsObjects p (v\<lparr>so_Replicas := x\<rparr>) r db' d \<Longrightarrow> \<not> isPaused db' \<Longrightarrow>
      wt_Always W (v\<lparr>so_Replicas := x\<rparr>)"
  shows "endsIn W v (resumeReplication K db) (\<lambda>e v'. e = None \<and> (\<exists>db' x. holdsObjects p v' r db' d \<and>
    \<not> isPaused db' \<and> v' = v\<lparr>so_Replicas := x\<rparr>))"
proof -
  have key: "(db_Namespace db, db_Name db) = dkey p" using same_keys [OF p] by (simp add: objectKey_def)
  have patch: "endsIn W v (patchReplica K db (clearPause db)) (\<lambda>a v'. (\<exists>x. a = Inr x) \<and>
      (\<exists>db' x. holdsObjects p v' r db' d \<and> \<not> isPaused db' \<and> v' = v\<lparr>so_Replicas := x\<rparr>))"
    apply (intro after_api [OF K])
    subgoal for s
      using mergeReplica_holds [OF p, of db "clearPause db"] same_keys [OF p]
        always [OF mergeReplica_holds [OF p, of db "clearPause db"]] by auto
    subgoal using same_keys [OF p] by simp
    done
  have found: "endsIn W v (do {
      q \<leftarrow> getReplica K (dkey p);
      case q of
        Inl err \<Rightarrow> ret (Some err)
      | Inr latest \<Rightarrow> do {
          u \<leftarrow> patchReplica K latest (clearPause latest);
          case u of Inl err \<Rightarrow> ret (Some err) | Inr _ \<Rightarrow> ret None
        }
    }) (\<lambda>e v'. e = None \<and> (\<exists>db' x. holdsObjects p v' r db' d \<and> \<not> isPaused db' \<and> v' = v\<lparr>so_Replicas := x\<rparr>))"
    by (rule after_found_bind [OF served(2) [OF K] same_keys(14) [OF p]])
       (auto intro!: after_bindI [OF patch] after_ret, blast)
  have "endsIn W v (ret None) (\<lambda>e v'. e = None \<and> (\<exists>db' x. holdsObjects p v' r db' d \<and>
    \<not> isPaused db' \<and> v' = v\<lparr>so_Replicas := x\<rparr>))" if "\<not> isPaused db"
    using p that by (auto intro!: after_ret exI [of _ "so_Replicas v"])
  then show ?thesis
    unfolding resumeReplication_def key
    using found by (intro after_if) (auto simp: isPaused_def)
qed

lemma release_run:
  assumes K: "watches W K" and p: "holdsObjects p v r db d" "sideObjects p v"
    and always: "wt_Always W (v\<lparr>so_Leases := (so_Leases v)(lockKey p := None)\<rparr>)"
  shows "endsIn W v (releaseRestoreLock K r) (\<lambda>_ v'. so_Leases v' (lockKey p) = None \<and>
    (\<exists>x. v' = v\<lparr>so_Leases := x\<rparr>))"
  unfolding releaseRestoreLock_def same_keys(4,5,11) [OF p(1)]
  apply (rule after_bind, rule after_api [OF K])
  subgoal for l
    using p(2) always by (auto simp: sideObjects_def intro!: after_bind after_ret after_api [OF K])
  subgoal by (auto intro!: after_ret exI [of _ "so_Leases v"])
  done

lemma finish_run:
  assumes K: "watches W K" and p: "runnable p" "holdsObjects p v r db d" "sideObjects p v"
    and st: "lr_Phase r = RestorePhaseResuming" "st_OriginalReplicas (lr_Status r) = Some (replicaTarget p)"
      "\<not> isPaused db" "desiredReplicas d = replicaTarget p" "k > 0"
    and always: "wt_Always W = steady p k"
    and config: "configIn p v = Some c" "c \<noteq> pausedConfig"
  shows "endsIn W v (finishRestore K r) (\<lambda>_. goodNext p RestoreRun k)"
  unfolding finishRestore_def withResult_def advance_def
  apply (simp only: same_keys [OF p(2)] runnableD [OF p(1)] simp_thms if_True)
  apply (rule after_bindI [OF release_run [OF K p(2,3)]])
  subgoal
    unfolding always
    by (rule steadyI [OF holds_lease [OF p(2)]]) (use st p(3) config in \<open>auto simp: sideObjects_def configIn_def\<close>)
  apply clarify
  subgoal premises * for a v' x
  proof -
    have side: "sideObjects p (v\<lparr>so_Leases := x\<rparr>)" using p(3) *(1) by (simp add: sideObjects_def)
    show ?thesis
      using st *(1) always
      by (auto simp: mergeField_def intro!: after_bind after_ret after_api [OF K] after_let
          after_weaken [OF setStatus_next [OF K holds_lease [OF p(2)] side, where k = k]])
  qed
  done

lemma scaleUp_run:
  assumes K: "watches W K" and p: "runnable p" "holdsObjects p v r db' d" "sameReplica (pj_Replica p) db"
    and always: "\<And>d' v'. rescaled v v' \<Longrightarrow> holdsObjects p v' r db' d' \<Longrightarrow>
      desiredReplicas d' = replicaTarget p \<Longrightarrow> wt_Always W v'"
  shows "endsIn W v (scaleUp K db (replicaTarget p)) (\<lambda>e v'. e = None \<and> (\<exists>d'. holdsObjects p v' r db' d' \<and>
    desiredReplicas d' = replicaTarget p \<and> rescaled v v'))"
  unfolding scaleUp_def
  apply (simp only: runnableD(4) [OF p(1)] if_True)
  apply (rule after_bind, rule after_target [OF K p(1,3) same_keys(15) [OF p(2)]], simp only: sum.case)
  apply (rule after_bindI [OF scale_run [OF K p(2)]])
  subgoal by (rule always, assumption+) (simp add: desiredReplicas_count)
  apply clarsimp
  subgoal for v' d' by (auto simp: desiredReplicas_count intro!: after_ret exI [of _ d'])
  done

text \<open>After the pause is taken away: waiting for the configuration, or scaling up and finishing.\<close>

lemma resumed_run:
  assumes K: "watches W K" and p: "runnable p" "holdsObjects p v r db' d" "sideObjects p v"
    and db: "sameReplica (pj_Replica p) db" "\<not> isPaused db'"
    and st: "lr_Phase r = RestorePhaseResuming" "st_OriginalReplicas (lr_Status r) = Some (replicaTarget p)" "k > 0"
    and wait: "configIn p v = None \<or> configIn p v = Some pausedConfig \<Longrightarrow> goodNext p RestoreRun k v"
    and always: "wt_Always W = steady p k"
  shows "endsIn W v (do {
      c \<leftarrow> getConfigMap K (db_Namespace db, db_Name db @ ''-litestream'');
      case c of
        Inl err \<Rightarrow> ret (requeueAfter restoreRequeueInterval, Some (Wrapped ''getting litestream ConfigMap'' err))
      | Inr cm \<Rightarrow>
          if lookup (cm_Data cm) litestreamConfigKey = pausedConfig
          then ret (requeueAfter restoreRequeueInterval, None)
          else do {
            s \<leftarrow> scaleUp K db (restoredReplicas r);
            case s of Some err \<Rightarrow> ret (emptyResult, Some err) | None \<Rightarrow> finishRestore K r
          }
    }) (\<lambda>_. goodNext p RestoreRun k)"
proof -
  have up: "endsIn W v (do {
      s \<leftarrow> scaleUp K db (restoredReplicas r);
      case s of Some err \<Rightarrow> ret (emptyResult, Some err) | None \<Rightarrow> finishRestore K r
    }) (\<lambda>_. goodNext p RestoreRun k)" if c: "configIn p v = Some c" "c \<noteq> pausedConfig" for c
  proof (rule after_bindI)
    show "endsIn W v (scaleUp K db (restoredReplicas r)) (\<lambda>e v'. e = None \<and> (\<exists>d'. holdsObjects p v' r db' d' \<and>
        desiredReplicas d' = replicaTarget p \<and> rescaled v v'))"
      unfolding restoredReplicas_def st(2) option.case
      by (rule scaleUp_run [OF K p(1,2) db(1)], unfold always, rule steadyI, assumption)
         (use st p(3) c db(2) in \<open>auto simp: rescaled_def\<close>)
  next
    fix e :: "goerr option" and v'
    assume "e = None \<and> (\<exists>d'. holdsObjects p v' r db' d' \<and>
        desiredReplicas d' = replicaTarget p \<and> rescaled v v')"
    then obtain d' where "e = None" "holdsObjects p v' r db' d'" "rescaled v v'"
        "desiredReplicas d' = replicaTarget p" by blast
    then show "endsIn W v' (case e of Some err \<Rightarrow> ret (emptyResult, Some err) | None \<Rightarrow> finishRestore K r)
        (\<lambda>_. goodNext p RestoreRun k)"
      using finish_run [OF K p(1) _ _ st(1,2) db(2) _ st(3) always _ c(2)] p(3) c(1)
        rescaledD(1,2) [OF \<open>rescaled v v'\<close>] by simp
  qed
  show ?thesis
    unfolding sameReplica_simps [OF db(1)] same_keys [OF p(2), symmetric]
    by (rule after_bind, rule read_config [OF K p(2)]; use wait up in \<open>auto intro: after_ret\<close>)
qed

lemma resuming_run:
  assumes K: "watches W K" and p: "runnable p" "holdsObjects p v r db d" "sideObjects p v"
    and st: "lr_Phase r = RestorePhaseResuming" "st_OriginalReplicas (lr_Status r) = Some (replicaTarget p)"
    and k: "k = rankOf (lr_Phase r) (isPaused db) (configIn p v) (jobDone p v) (wt_replicas d) (runningReplicas d)"
    and always: "wt_Always W = steady p k"
  shows "endsIn W v (reconcileResuming K r db) (\<lambda>_. goodNext p RestoreRun k)"
  unfolding reconcileResuming_def
proof (rule after_bindI [OF resume_run [OF K p(2)]])
  fix db' x
  assume "holdsObjects p (v\<lparr>so_Replicas := x\<rparr>) r db' d" "\<not> isPaused db'"
  then show "wt_Always W (v\<lparr>so_Replicas := x\<rparr>)"
    unfolding always by (intro steadyI) (use st p(3) k in \<open>auto split: if_splits\<close>)
next
  fix e :: "goerr option" and v'
  assume "e = None \<and> (\<exists>db' x. holdsObjects p v' r db' d \<and> \<not> isPaused db' \<and> v' = v\<lparr>so_Replicas := x\<rparr>)"
  then obtain db' x where *: "e = None" "holdsObjects p v' r db' d" "\<not> isPaused db'" "v' = v\<lparr>so_Replicas := x\<rparr>"
    by blast
  have side: "sideObjects p v'" using p(3) * by simp
  have wait: "goodNext p RestoreRun k v'" if "configIn p v' = None \<or> configIn p v' = Some pausedConfig"
    by (rule goodNextI [OF *(2) _ side]) (use st k that * in \<open>auto simp: turn_def split: if_splits\<close>)
  have same: "sameReplica (pj_Replica p) db" using p(2) by (simp add: holdsObjects_def)
  have "k > 0" using st k by simp
  then show "endsIn W v' (case e of
        Some err \<Rightarrow> ret (emptyResult, Some (Wrapped ''removing pause annotation from LitestreamReplica'' err))
      | None \<Rightarrow> do {
          c \<leftarrow> getConfigMap K (db_Namespace db, db_Name db @ ''-litestream'');
          case c of
            Inl err \<Rightarrow> ret (requeueAfter restoreRequeueInterval, Some (Wrapped ''getting litestream ConfigMap'' err))
          | Inr cm \<Rightarrow>
              if lookup (cm_Data cm) litestreamConfigKey = pausedConfig
              then ret (requeueAfter restoreRequeueInterval, None)
              else do {
                s \<leftarrow> scaleUp K db (restoredReplicas r);
                case s of Some err \<Rightarrow> ret (emptyResult, Some err) | None \<Rightarrow> finishRestore K r
              }
        }) (\<lambda>_. goodNext p RestoreRun k)"
    using resumed_run [OF K p(1) *(2) side same *(3) st _ wait always] *(1) by simp
qed

section \<open>The steps of the actors\<close>

lemma restore_run:
  assumes K: "watches W K" "controller_law (k_Lib K)" "finalizer_laws (k_Lib K)"
    and p: "runnable p" "holdsObjects p v r db d" "sideObjects p v" "occurring (lr_Phase r)"
    and st: "inPhase p (lr_Phase r) (lr_Status r) (isPaused db) d (so_Jobs v (jobKey p)) (so_Leases v (lockKey p))"
    and k: "k = rankOf (lr_Phase r) (isPaused db) (configIn p v) (jobDone p v) (wt_replicas d) (runningReplicas d)"
    and always: "wt_Always W = steady p k"
  shows "endsIn W v (RestoreReconcile K (rkey p)) (\<lambda>_. goodNext p RestoreRun k)"
proof (rule restore_start [OF K(1,3) p(1,2)])
  assume "terminal (lr_Phase r)"
  then have "lr_Phase r = RestorePhaseCompleted"
    using p(4) unfolding terminal_def occurring_def by (auto simp: restore_phase_neq(1-8) [symmetric])
  then show "goodNext p RestoreRun k v"
    using st k by (intro goodNextI [OF p(2) _ p(3)]) auto
next
  have run: "reconcilePhase K r db = reconcilePending K r db" if "lr_Phase r = [] \<or> lr_Phase r = RestorePhasePending"
    using that by (simp add: reconcilePhase_def Let_def)
  assume "\<not> terminal (lr_Phase r)"
  with p(4) consider "lr_Phase r = [] \<or> lr_Phase r = RestorePhasePending"
    | "lr_Phase r = RestorePhaseAcquiringLock" | "lr_Phase r = RestorePhaseFencing"
    | "lr_Phase r = RestorePhaseRestoring" | "lr_Phase r = RestorePhaseResuming"
    unfolding occurring_def terminal_def by blast
  then show "endsIn W v (reconcilePhase K r db) (\<lambda>_. goodNext p RestoreRun k)"
  proof cases
    case 1
    then show ?thesis using run pending_run [OF K(1) p(1-3)] st k always by auto
  next
    case 2
    then show ?thesis
      using acquiring_run [OF K(1,2) p(1-3) _ _ 2] st k always by (simp add: reconcilePhase_def Let_def)
  next
    case 3
    then show ?thesis
      using fencing_run [OF K(1,2) p(1-3) _ _ 3 _ k always] st by (simp add: reconcilePhase_def Let_def)
  next
    case 4
    then show ?thesis
      using restoring_run [OF K(1) p(1-3) 4 st k always] by (simp add: reconcilePhase_def Let_def)
  next
    case 5
    then show ?thesis
      using resuming_run [OF K(1) p(1-3) 5 _ k always] st by (simp add: reconcilePhase_def Let_def)
  qed
qed

text \<open>A run to its end, and a run that ends at a call.\<close>

lemma after_world:
  assumes "endsIn (plainWatch view G) (view w) m (\<lambda>_. Q)" "G (view w)"
  shows "Q (view (runWorld m w))"
proof -
  obtain a s' where run: "run_state m \<lparr>world = w, trace = []\<rparr> = (a, s')" by fastforce
  then show ?thesis
    using endsInD(1) [OF assms(1) _ _ run] assms(2) by (simp add: plainWatch_def runWorld_def)
qed

lemma after_cut:
  assumes "endsIn (logWatch view G) (view w) m Q" "G (view w)"
  shows "G (view (cutWorld m n w))"
proof -
  obtain a s' where run: "run_state m \<lparr>world = (w, []), trace = []\<rparr> = (a, s')" by fastforce
  obtain w' ws where s': "world s' = (w', ws)" by fastforce
  have "G (view w') \<and> list_all (\<lambda>x. G (view x)) ws"
    using endsInD(2,3) [OF assms(1) _ _ run] assms(2) s'
    by (simp add: logWatch_def went_def list.pred_map comp_def)
  then have "\<forall>x \<in> set (w # ws). G (view x)" "G (view w')"
    using assms(2) by (simp_all add: list_all_iff)
  moreover from this have "G (view ((w # ws) ! n))" if "n \<le> length ws"
    using that by (metis length_Cons less_Suc_eq_le nth_mem)
  ultimately show ?thesis by (simp add: cutWorld_def runWorld_def run s')
qed

lemma turns: "range turn = {RestoreRun, ReplicaRun, WorkloadController, JobController}"
proof
  show "range turn \<subseteq> {RestoreRun, ReplicaRun, WorkloadController, JobController}"
    by (auto simp: turn_def)
  have "turn 11 = RestoreRun" "turn 2 = ReplicaRun" "turn 7 = WorkloadController" "turn 5 = JobController"
    by (simp_all add: turn_def)
  then show "{RestoreRun, ReplicaRun, WorkloadController, JobController} \<subseteq> range turn"
    by (metis (full_types) empty_subsetI insert_subset rangeI)
qed

lemma actor_advances:
  assumes C: "clusterOK C" and p: "runnable p" and under: "underway p (cl_View C w)"
  shows "goodNext p a (rank p (cl_View C w)) (cl_View C (actorStep C (rkey p) (dkey p) a w))"
proof -
  let ?k = "rank p (cl_View C w)"
  let ?P = "plainWatch (cl_View C) (steady p ?k)" and ?L = "logWatch (cl_View C) (steady p ?k)"
  have K: "watches ?P (cl_Kube C)" "controller_law (k_Lib (cl_Kube C))" "finalizer_laws (k_Lib (cl_Kube C))"
    using C by (simp_all add: clusterOK_def watches_plain)
  have L: "watches ?L (withLog (cl_Kube C))" "controller_law (k_Lib (withLog (cl_Kube C)))"
    "finalizer_laws (k_Lib (withLog (cl_Kube C)))"
    using C by (simp_all add: clusterOK_def watches_logged)
  have always: "wt_Always ?P = steady p ?k" "wt_Always ?L = steady p ?k"
    by (simp_all add: plainWatch_def logWatch_def)
  have first: "steady p ?k (cl_View C w)" by (rule underway_steady [OF under])
  show ?thesis
  proof (rule goodNext_phases [OF under])
    fix r db d
    assume *: "holdsObjects p (cl_View C w) r db d" "sideObjects p (cl_View C w)" "occurring (lr_Phase r)"
      "inPhase p (lr_Phase r) (lr_Status r) (isPaused db) d (so_Jobs (cl_View C w) (jobKey p))
         (so_Leases (cl_View C w) (lockKey p))"
    note k = rank_holds [OF *(1)]
    note ran = replicaRan_next [OF _ *(2-4), folded k]
    have "goodNext p a ?k (cl_View C (actorStep C (rkey p) (dkey p) a w))"
    proof (cases a)
      case RestoreRun
      show ?thesis unfolding RestoreRun actorStep.simps
        by (rule after_world [OF restore_run [OF K p * k always(1)] first])
    next
      case ReplicaRun
      show ?thesis unfolding ReplicaRun actorStep.simps
        by (rule ran, rule after_world [OF replica_run [OF K p *(1,2)] first], simp only: always)
           (rule goodNext_steady [OF ran])
    next
      case WorkloadController
      then show ?thesis using settle_advances [OF under] C by (simp add: clusterOK_def)
    next
      case JobController
      then show ?thesis using finish_advances [OF under] C by (simp add: clusterOK_def)
    next
      case (RestoreCut n)
      have "steady p ?k (cl_View C (actorStep C (rkey p) (dkey p) a w))"
        unfolding RestoreCut actorStep.simps by (rule after_cut [where view = "cl_View C" and w = w and G = "steady p ?k", OF restore_run [OF L p * k always(2)] first])
      then show ?thesis by (rule steady_cut) (simp add: RestoreCut turns)
    next
      case (ReplicaCut n)
      have "endsIn ?L (cl_View C w) (ReplicaReconcile (withLog (cl_Kube C)) (dkey p))
          (\<lambda>_. replicaRan p (cl_View C w) r db d)"
        by (rule replica_run [OF L p *(1,2)], simp only: always) (rule goodNext_steady [OF ran])
      then have "steady p ?k (cl_View C (actorStep C (rkey p) (dkey p) a w))"
        unfolding ReplicaCut actorStep.simps by (rule after_cut [where view = "cl_View C" and w = w and G = "steady p ?k", OF _ first])
      then show ?thesis by (rule steady_cut) (simp add: ReplicaCut turns)
    qed
    then show "goodNext p a (rankOf (lr_Phase r) (isPaused db) (configIn p (cl_View C w)) (jobDone p (cl_View C w))
        (wt_replicas d) (runningReplicas d)) (cl_View C (actorStep C (rkey p) (dkey p) a w))"
      by (simp only: k)
  qed
qed

lemma actor_steps:
  assumes "clusterOK C" "runnable p" "underway p (cl_View C w)"
  shows "underway p (cl_View C (actorStep C (rkey p) (dkey p) a w))"
    "rank p (cl_View C (actorStep C (rkey p) (dkey p) a w)) \<le> rank p (cl_View C w)"
    "0 < rank p (cl_View C w) \<Longrightarrow> turn (rank p (cl_View C w)) = a \<Longrightarrow>
     rank p (cl_View C (actorStep C (rkey p) (dkey p) a w)) < rank p (cl_View C w)"
  using actor_advances [OF assms, of a] by (simp_all add: goodNext_def)

interpretation restoring: fair_actors "actorStep C (rkey p) (dkey p)"
  "\<lambda>w. clusterOK C \<and> runnable p \<and> underway p (cl_View C w)" "\<lambda>w. rank p (cl_View C w)" turn for C p
  by unfold_locales (simp_all add: actor_steps)

section \<open>Completion\<close>

text \<open>The start: the objects as they are, a restore that has not run, and nothing in its way.\<close>

definition begins :: "project \<Rightarrow> store \<Rightarrow> bool" where
  "begins p v \<longleftrightarrow>
     so_Restores v (rkey p) = Some (pj_Restore p) \<and> so_Replicas v (dkey p) = Some (pj_Replica p) \<and>
     targetIn p v = Some (pj_Workload p) \<and>
     (lr_Phase (pj_Restore p) = [] \<or> lr_Phase (pj_Restore p) = RestorePhasePending) \<and>
     st_OriginalReplicas (lr_Status (pj_Restore p)) = None \<and> so_Jobs v (jobKey p) = None \<and> sideObjects p v"

definition completed :: "project \<Rightarrow> store \<Rightarrow> bool" where
  "completed p v \<longleftrightarrow>
     (\<exists>r db d. so_Restores v (rkey p) = Some r \<and> lr_Phase r = RestorePhaseCompleted \<and>
        so_Replicas v (dkey p) = Some db \<and> \<not> isPaused db \<and>
        targetIn p v = Some d \<and> desiredReplicas d = replicaTarget p \<and>
        so_Leases v (lockKey p) = None)"

lemma begins_underway:
  assumes "begins p v"
  shows "underway p v \<and> rank p v = 11"
proof -
  have 1: "holdsObjects p v (pj_Restore p) (pj_Replica p) (pj_Workload p)"
    using assms by (auto simp: begins_def holdsObjects_def sameRestore_def sameReplica_def sameWorkload_def
        intro: exI [of _ "om_Annotations (db_Meta (pj_Replica p))"])
  moreover have "inPhase p (lr_Phase (pj_Restore p)) (lr_Status (pj_Restore p)) (isPaused (pj_Replica p))
      (pj_Workload p) (so_Jobs v (jobKey p)) (so_Leases v (lockKey p))"
    using assms by (auto simp: begins_def)
  moreover have "rank p v = 11"
    unfolding rank_holds [OF 1] using assms by (auto simp: begins_def)
  ultimately show ?thesis using assms unfolding underway_def begins_def by blast
qed

lemma rank_zero:
  assumes "underway p v" "rank p v = 0"
  shows "completed p v"
proof -
  obtain r db d where *: "holdsObjects p v r db d"
      "inPhase p (lr_Phase r) (lr_Status r) (isPaused db) d (so_Jobs v (jobKey p)) (so_Leases v (lockKey p))"
    using assms(1) unfolding underway_def by blast
  have "lr_Phase r = RestorePhaseCompleted"
    using assms(2) inPhase_occurring [OF *(2)] unfolding rank_holds [OF *(1)] occurring_def
    by (auto split: if_splits)
  then show ?thesis using * by (auto simp: completed_def holdsObjects_def)
qed

text \<open>C1. A restore in place completes, whatever the interleaving and wherever the operator is stopped.
  From a restore that has not run, eleven rounds in which both reconcilers, the workload controller
  and the Job controller each take at least one step, in any order and however often, bring the
  restore to Completed, with the desired replica count of the workload, a Deployment or a StatefulSet, as it was before the restore
  (any positive number), the pause annotation of the replica gone and the lock released. Any number
  of interrupted runs may come in between: runs of either reconciler of which only the first \<open>n\<close>
  calls to the API server were made. The cluster is any that serves as documented, the resources any
  that can run.\<close>

theorem restore_completes:
  assumes "clusterOK C" "runnable p" "begins p (cl_View C w)"
    and "length rounds \<ge> 11" "list_all (\<lambda>as. {RestoreRun, ReplicaRun, WorkloadController, JobController} \<subseteq> set as) rounds"
  shows "completed p (cl_View C (runSchedule (actorStep C (rkey p) (dkey p)) rounds w))"
  using restoring.schedule_ends [of C p w rounds, unfolded turns] begins_underway [OF assms(3)] rank_zero assms
  by simp

section \<open>A cluster that serves\<close>

text \<open>The stored objects as the world, each call as documented; only used to show that it can be.\<close>

definition getIn :: "(store \<Rightarrow> nsname \<Rightarrow> 'o option) \<Rightarrow> nsname \<Rightarrow> store \<Rightarrow> (goerr + 'o) \<times> store" where
  "getIn objs n v = (case objs v n of None \<Rightarrow> Inl missing | Some x \<Rightarrow> Inr x, v)"

definition patchIn :: "(store \<Rightarrow> nsname \<Rightarrow> 'o option) \<Rightarrow> ((nsname \<Rightarrow> 'o option) \<Rightarrow> store \<Rightarrow> store) \<Rightarrow>
    ('o \<Rightarrow> objectMeta) \<Rightarrow> ('o \<Rightarrow> 'o \<Rightarrow> 'o \<Rightarrow> 'o) \<Rightarrow> 'o \<Rightarrow> 'o \<Rightarrow> store \<Rightarrow> (goerr + 'o) \<times> store" where
  "patchIn objs put meta merge b n v = (case objs v (objectKey (meta n)) of
     None \<Rightarrow> (Inl missing, v)
   | Some s \<Rightarrow> (Inr (merge b n s), put ((objs v)(objectKey (meta n) \<mapsto> merge b n s)) v))"

definition createIn :: "(store \<Rightarrow> nsname \<Rightarrow> 'o option) \<Rightarrow> ((nsname \<Rightarrow> 'o option) \<Rightarrow> store \<Rightarrow> store) \<Rightarrow>
    ('o \<Rightarrow> objectMeta) \<Rightarrow> 'o \<Rightarrow> store \<Rightarrow> goerr option \<times> store" where
  "createIn objs put meta n v = (case objs v (objectKey (meta n)) of
     Some s \<Rightarrow> (Some (ApiError AlreadyExists ''exists''), v)
   | None \<Rightarrow> (None, put ((objs v)(objectKey (meta n) \<mapsto> n)) v))"

definition upsertIn :: "configMap \<Rightarrow> (configMap \<Rightarrow> goerr + configMap) \<Rightarrow> store \<Rightarrow> goerr option \<times> store" where
  "upsertIn c g v = (case g (case so_ConfigMaps v (objectKey (cm_Meta c)) of None \<Rightarrow> c | Some s \<Rightarrow> s) of
     Inl e \<Rightarrow> (Some e, v)
   | Inr n \<Rightarrow> (None, v\<lparr>so_ConfigMaps := (so_ConfigMaps v)(objectKey (cm_Meta c) \<mapsto> n)\<rparr>))"

definition storeServer :: "store kube" where
  "storeServer = emptyCluster
     \<lparr>k_GetRestore := getIn so_Restores, k_GetReplica := getIn so_Replicas,
      k_GetDeployment := getIn so_Deployments, k_GetStatefulSet := getIn so_StatefulSets,
      k_GetConfigMap := getIn so_ConfigMaps,
      k_GetJob := getIn so_Jobs, k_GetLease := getIn so_Leases,
      k_PatchRestoreStatus := patchIn so_Restores (\<lambda>x v. v\<lparr>so_Restores := x\<rparr>) lr_Meta mergeRestoreStatus,
      k_PatchReplica := patchIn so_Replicas (\<lambda>x v. v\<lparr>so_Replicas := x\<rparr>) db_Meta mergeReplica,
      k_PatchReplicaStatus := patchIn so_Replicas (\<lambda>x v. v\<lparr>so_Replicas := x\<rparr>) db_Meta mergeReplicaStatus,
      k_PatchDeployment := patchIn so_Deployments (\<lambda>x v. v\<lparr>so_Deployments := x\<rparr>) dp_Meta mergeDeployment,
      k_PatchStatefulSet := patchIn so_StatefulSets (\<lambda>x v. v\<lparr>so_StatefulSets := x\<rparr>) ss_Meta mergeStatefulSet,
      k_CreateOrUpdateConfigMap := upsertIn,
      k_CreateJob := createIn so_Jobs (\<lambda>x v. v\<lparr>so_Jobs := x\<rparr>) jb_Meta,
      k_CreateLease := createIn so_Leases (\<lambda>x v. v\<lparr>so_Leases := x\<rparr>) ls_Meta,
      k_DeleteLease := (\<lambda>l v. (None, v\<lparr>so_Leases := (so_Leases v)(objectKey (ls_Meta l) := None)\<rparr>))\<rparr>"

definition storeCluster :: "store cluster" where
  "storeCluster = \<lparr>cl_Kube = storeServer, cl_View = (\<lambda>v. v),
     cl_Settle = settledStore,
     cl_Finish = (\<lambda>v. v\<lparr>so_Jobs := (\<lambda>k. map_option completedJob (so_Jobs v k))\<rparr>)\<rparr>"

lemma calls_serve:
  "reads (\<lambda>v. v) objs (getIn objs)" "patches (\<lambda>v. v) objs put meta merge (patchIn objs put meta merge)"
  "creates (\<lambda>v. v) objs put meta (createIn objs put meta)" "upserts (\<lambda>v. v) upsertIn"
  by (auto simp: reads_def gets_def getIn_def patches_def patchIn_def creates_def createIn_def upserts_def
      upsertIn_def Let_def split: option.splits sum.splits)

lemma storeCluster_OK: "clusterOK storeCluster"
proof -
  have "controller_law sampleLib" by (simp add: controller_law_def sampleLib_def)
  then show ?thesis
    by (simp add: clusterOK_def storeCluster_def serves_def storeServer_def emptyCluster_def calls_serve
        deletes_def quiet_def Let_def finalizer_laws_sampleLib)
qed

text \<open>A Deployment and a StatefulSet with three replicas, and a restore of its database.\<close>

definition sampleProject :: project where
  "sampleProject =
     \<lparr>pj_Restore = (sampleRestore RestoreModeInPlace [])\<lparr>lr_Status :=
        (lr_Status (sampleRestore RestoreModeInPlace []))\<lparr>st_OriginalReplicas := None\<rparr>\<rparr>,
      pj_Replica = sampleReplica\<lparr>db_Meta := (db_Meta sampleReplica)\<lparr>om_Finalizers := [replicaFinalizerName]\<rparr>\<rparr>,
      pj_Workload = WDeployment (sampleDeployment\<lparr>dp_Replicas := Some 3, dp_StatusReplicas := 3\<rparr>)\<rparr>"

definition statefulProject :: project where
  "statefulProject = sampleProject
     \<lparr>pj_Replica := (pj_Replica sampleProject)\<lparr>db_Spec := (db_Spec sampleReplica)
        \<lparr>sp_TargetDeployment := [], sp_TargetStatefulSet := ''app''\<rparr>\<rparr>,
      pj_Workload := WStatefulSet \<lparr>ss_Meta = dp_Meta sampleDeployment, ss_Replicas = Some 3, ss_Selector = None,
        ss_Template = dp_Template sampleDeployment, ss_StatusReplicas = 3, ss_StatusReadyReplicas = 3\<rparr>\<rparr>"

definition storeOf :: "project \<Rightarrow> store" where
  "storeOf p =
     \<lparr>so_Restores = [rkey p \<mapsto> pj_Restore p], so_Replicas = [dkey p \<mapsto> pj_Replica p],
      so_Deployments = (\<lambda>k. case pj_Workload p of WDeployment d \<Rightarrow> Some d | WStatefulSet _ \<Rightarrow> None),
      so_StatefulSets = (\<lambda>k. case pj_Workload p of WStatefulSet s \<Rightarrow> Some s | WDeployment _ \<Rightarrow> None),
      so_ConfigMaps = Map.empty, so_Jobs = Map.empty, so_Leases = Map.empty\<rparr>"

lemma samples_runnable: "runnable sampleProject" "runnable statefulProject"
  by (simp_all add: runnable_def sampleProject_def statefulProject_def sample_defs const_defs Let_def deleting_def
      IsZero_def objectKey_def hasBackup_def locateDatabase_def restoreContainer_def restoreMount_scan_def HasPrefix_def)

lemma samples_begin: "begins sampleProject (storeOf sampleProject)" "begins statefulProject (storeOf statefulProject)"
  by (simp_all add: begins_def storeOf_def sideObjects_def targetIn_def)
    (simp_all add: statefulProject_def sampleProject_def sampleRestore_def)

lemma samples_target: "replicaTarget sampleProject = 3" "replicaTarget statefulProject = 3"
  by (simp_all add: statefulProject_def sampleProject_def)

abbreviation sampleRound :: "actor list" where
  "sampleRound \<equiv> [RestoreCut 3, RestoreRun, RestoreCut 5, JobController, ReplicaCut 2, ReplicaRun, WorkloadController]"

abbreviation elevenRounds :: "project \<Rightarrow> store" where
  "elevenRounds p \<equiv> runSchedule (actorStep storeCluster (rkey p) (dkey p)) (replicate 11 sampleRound) (storeOf p)"

theorem restore_completes_witness:
  "completed sampleProject (elevenRounds sampleProject) \<and> completed statefulProject (elevenRounds statefulProject) \<and>
   replicaTarget sampleProject = 3 \<and> replicaTarget statefulProject = 3"
proof (intro conjI samples_target)
  have view: "cl_View storeCluster v = v" for v by (simp add: storeCluster_def)
  have rounds: "list_all (\<lambda>as. {RestoreRun, ReplicaRun, WorkloadController, JobController} \<subseteq> set as)
      (replicate 11 sampleRound)"
    by (simp add: list_all_iff)
  show "completed sampleProject (elevenRounds sampleProject)"
    using restore_completes [OF storeCluster_OK samples_runnable(1) _ _ rounds, of "storeOf sampleProject"]
    by (simp only: view samples_begin length_replicate simp_thms order_refl)
  show "completed statefulProject (elevenRounds statefulProject)"
    using restore_completes [OF storeCluster_OK samples_runnable(2) _ _ rounds, of "storeOf statefulProject"]
    by (simp only: view samples_begin length_replicate simp_thms order_refl)
qed

end
