(* ===== verification/Restore_Interrupted.thy ===== *)
theory Restore_Interrupted
  imports Restore_Completion
begin

text \<open>
  What an interruption can do to a second restore. \<open>finishRestore\<close> releases the lock before it records
  the phase \<open>Completed\<close>. A restore whose operator stops in between stays in \<open>Resuming\<close> without the
  lock; when it runs again it looks at nothing but its own phase and the ConfigMap.
\<close>

section \<open>Runs that pass a state\<close>

text \<open>\<open>passes W v m P\<close>: every run of \<open>m\<close> from \<open>v\<close> enters a state with \<open>P\<close> into the history.\<close>

definition passes :: "'w watch \<Rightarrow> store \<Rightarrow> ('w, 'e, 'a) prog \<Rightarrow> (store \<Rightarrow> bool) \<Rightarrow> bool" where
  "passes W v m P \<longleftrightarrow> (\<forall>s. wt_Stored W (world s) = v \<longrightarrow>
     (\<exists>vs. wt_History W (world (snd (run_state m s))) = wt_History W (world s) @ vs \<and> (\<exists>u \<in> set vs. P u)))"

definition anything :: "store \<Rightarrow> bool" where "anything v \<longleftrightarrow> True"

lemma passes_later:
  assumes "endsIn W v m (\<lambda>a v'. passes W v' (f a) P)" "wt_Always W v"
  shows "passes W v (State_Monad.bind m f) P"
  unfolding passes_def
proof (intro allI impI)
  fix s :: "('a, 'b) sys"
  assume s: "wt_Stored W (world s) = v"
  obtain a s1 where 1: "run_state m s = (a, s1)" by fastforce
  note m = endsInD [OF assms(1,2) s 1]
  obtain vs where vs: "wt_History W (world s1) = wt_History W (world s) @ vs"
    using m(3) by (auto simp: went_def)
  obtain us where us: "wt_History W (world (snd (run_state (f a) s1))) = wt_History W (world s1) @ us"
      "\<exists>u \<in> set us. P u"
    using m(1) unfolding passes_def by blast
  show "\<exists>vs. wt_History W (world (snd (run_state (State_Monad.bind m f) s))) = wt_History W (world s) @ vs \<and>
      (\<exists>u \<in> set vs. P u)"
    by (rule exI [of _ "vs @ us"]) (use 1 vs us in auto)
qed

lemma passes_now:
  assumes "passes W v m P" "\<And>a. keeps W anything (f a)"
  shows "passes W v (State_Monad.bind m f) P"
  unfolding passes_def
proof (intro allI impI)
  fix s :: "('a, 'b) sys"
  assume s: "wt_Stored W (world s) = v"
  obtain a s1 where 1: "run_state m s = (a, s1)" by fastforce
  obtain vs where vs: "wt_History W (world s1) = wt_History W (world s) @ vs" "\<exists>u \<in> set vs. P u"
    using assms(1) s 1 unfolding passes_def by (metis snd_conv)
  obtain us where us: "wt_History W (world (snd (run_state (f a) s1))) = wt_History W (world s1) @ us"
    using assms(2) [of a] by (auto simp: keeps_def Let_def anything_def went_def dest!: spec [of _ s1])
  show "\<exists>vs. wt_History W (world (snd (run_state (State_Monad.bind m f) s))) = wt_History W (world s) @ vs \<and>
      (\<exists>u \<in> set vs. P u)"
    by (rule exI [of _ "vs @ us"]) (use 1 vs us in auto)
qed

lemma passes_call:
  fixes f :: "'w \<Rightarrow> 'r \<times> 'w" and ev :: "'r \<Rightarrow> 'e"
  assumes "\<And>w. view w = v \<Longrightarrow> P (view (snd (f w)))"
  shows "passes (logWatch view G) v (call (logCall f) ev) P"
  unfolding passes_def
proof (intro allI impI)
  fix s :: "('w \<times> 'w list, 'e) sys"
  assume "wt_Stored (logWatch view G) (world s) = v"
  then have "P (view (snd (f (fst (world s)))))"
    using assms by (simp add: logWatch_def)
  then show "\<exists>vs. wt_History (logWatch view G) (world (snd (run_state (call (logCall f) ev) s))) =
      wt_History (logWatch view G) (world s) @ vs \<and> (\<exists>u \<in> set vs. P u)"
    by (intro exI [of _ "[view (snd (f (fst (world s))))]"])
       (simp add: logWatch_def logCall_def split: prod.splits)
qed

text \<open>A state that a run passes is one in which it can be stopped.\<close>

lemma cut_there:
  assumes "passes (logWatch view G) (view w) m P"
  shows "\<exists>n. P (view (cutWorld m n w))"
proof -
  obtain w' ws where run: "runWorld m (w, []) = (w', ws)" by fastforce
  then obtain u where "u \<in> set ws" "P (view u)"
    using assms unfolding passes_def runWorld_def logWatch_def
    by (auto dest!: spec [of _ "\<lparr>world = (w, []), trace = []\<rparr>"])
  then obtain i where "i < length ws" "P (view (ws ! i))" by (auto simp: in_set_conv_nth)
  then have "P (view (cutWorld m (Suc i) w))" by (simp add: cutWorld_def run)
  then show ?thesis ..
qed

section \<open>The lock is released before the phase is recorded\<close>

lemma passes_found:
  assumes "reads (wt_Stored W) objs f \<and> (\<forall>n. enters W (f n))" "objs v n = Some x"
    and "passes W v (g (Inr x)) P" "wt_Always W v"
  shows "passes W v (State_Monad.bind (call (f n) ev) g) P"
  by (rule passes_later [OF after_reads [OF assms(1)] assms(4)]) (use assms(2,3) in auto)

definition unlocked :: "project \<Rightarrow> store \<Rightarrow> bool" where
  "unlocked p v \<longleftrightarrow> (\<exists>r. so_Restores v (rkey p) = Some r \<and> lr_Phase r = RestorePhaseResuming) \<and>
     so_Leases v (lockKey p) = None"

abbreviation freely :: "('w \<Rightarrow> store) \<Rightarrow> ('w \<times> 'w list) watch" where
  "freely view \<equiv> logWatch view anything"

lemma always_freely [simp]: "wt_Always (freely view) v"
  by (simp add: logWatch_def anything_def)

lemma setStatus_keeps_anything:
  assumes "watches W K"
  shows "keeps W anything (setStatus K b ph j m orig t ct)"
  unfolding setStatus_def by (intro keeps_intros keeps_api [OF assms]) (simp_all add: anything_def)

lemma release_passes:
  assumes K: "serves view K" and p: "holdsObjects p v r db d" "sideObjects p v" "lr_Phase r = RestorePhaseResuming"
    and l: "so_Leases v (lockKey p) = Some l"
  shows "passes (freely view) v (releaseRestoreLock (withLog K) r) (unlocked p)"
proof -
  note W = watches_logged [OF K, of anything]
  have l': "objectKey (ls_Meta l) = lockKey p" "ls_HolderIdentity l = Some (lr_Name r)"
    using p(2) l same_keys [OF p(1)] by (auto simp: sideObjects_def)
  have deleted: "passes (freely view) v (call (k_DeleteLease (withLog K) l) (DeleteLease l)) (unlocked p)"
    unfolding withLog_def kube.simps
  proof (rule passes_call)
    fix w
    assume "view w = v"
    then have "view (snd (k_DeleteLease K l w)) = v\<lparr>so_Leases := (so_Leases v)(lockKey p := None)\<rparr>"
      using K l'(1) by (simp add: serves_def deletes_def Let_def)
    then show "unlocked p (view (snd (k_DeleteLease K l w)))"
      using p(3) same_keys(13) [OF p(1)] by (simp add: unlocked_def)
  qed
  show ?thesis
    unfolding releaseRestoreLock_def same_keys(4,11) [OF p(1)]
    by (rule passes_found [OF served(6) [OF W] l])
       (simp_all add: l'(2) passes_now [OF deleted] keeps_ret)
qed

lemma finish_passes:
  assumes K: "serves view K" and p: "runnable p" "holdsObjects p v r db d" "sideObjects p v"
      "lr_Phase r = RestorePhaseResuming"
    and l: "so_Leases v (lockKey p) = Some l"
  shows "passes (freely view) v (finishRestore (withLog K) r) (unlocked p)"
proof -
  note W = watches_logged [OF K, of anything]
  have mode: "lr_Mode r \<noteq> RestoreModeToPVC" using runnableD [OF p(1)] same_keys [OF p(2)] by simp
  show ?thesis
    unfolding finishRestore_def if_P [OF mode]
    by (rule passes_now [OF release_passes [OF K p(2-4) l]])
       (unfold withResult_def advance_def Let_def, intro keeps_intros keeps_api [OF W] setStatus_keeps_anything [OF W])
qed

lemma resuming_passes:
  assumes K: "serves view K" and p: "runnable p" "holdsObjects p v r db d" "sideObjects p v"
      "lr_Phase r = RestorePhaseResuming"
    and st: "st_OriginalReplicas (lr_Status r) = Some (replicaTarget p)" "\<not> isPaused db"
      "configIn p v = Some c" "c \<noteq> pausedConfig"
    and l: "so_Leases v (lockKey p) = Some l"
  shows "passes (freely view) v (reconcileResuming (withLog K) r db) (unlocked p)"
proof -
  note W = watches_logged [OF K, of anything]
  have resumed: "resumeReplication (withLog K) db = ret None"
    using st(2) by (simp add: resumeReplication_def isPaused_def)
  have same: "sameReplica (pj_Replica p) db" using p(2) by (simp add: holdsObjects_def)
  have up: "passes (freely view) v (do {
      s \<leftarrow> scaleUp (withLog K) db (restoredReplicas r);
      case s of Some err \<Rightarrow> ret (emptyResult, Some err) | None \<Rightarrow> finishRestore (withLog K) r
    }) (unlocked p)"
    unfolding restoredReplicas_def st(1) option.case
  proof (rule passes_later [OF after_weaken [OF scaleUp_run [OF W p(1,2) same]]])
    fix e :: "goerr option" and v'
    assume "e = None \<and> (\<exists>d'. holdsObjects p v' r db d' \<and>
        desiredReplicas d' = replicaTarget p \<and> rescaled v v')"
    then show "passes (freely view) v' (case e of Some err \<Rightarrow> ret (emptyResult, Some err)
        | None \<Rightarrow> finishRestore (withLog K) r) (unlocked p)"
      using finish_passes [OF K p(1) _ _ p(4), of v' db _ l] p(3) l by (auto simp: rescaled_def)
  qed simp_all
  show ?thesis
    unfolding reconcileResuming_def resumed State_Monad.bind_left_identity option.case
    by (rule passes_later [OF read_config [OF W p(2)]]) (use up st(3,4) in auto)
qed

lemma reconcile_passes:
  assumes K: "serves view K" "finalizer_laws (k_Lib K)" and p: "runnable p" "holdsObjects p v r db d"
    and r: "lr_Phase r = RestorePhaseResuming"
    and run: "passes (freely view) v (reconcileResuming (withLog K) r db) P"
  shows "passes (freely view) v (RestoreReconcile (withLog K) (rkey p)) P"
proof -
  note W = watches_logged [OF K(1), of anything]
  have *: "so_Restores v (rkey p) = Some r" "so_Replicas v (dkey p) = Some db"
    "(lr_Namespace r, lr_Source r) = dkey p" "hasBackup db"
    "l_ContainsFinalizer (k_Lib K) (lr_Meta r) restoreFinalizerName" "IsZero (om_DeletionTimestamp (lr_Meta r))"
    using p K(2) by (auto simp: holdsObjects_def runnable_def Let_def finalizer_laws_def sameRestore_def
        hasBackup_def deleting_def sameReplica_simps)
  have phase: "reconcilePhase (withLog K) r db = reconcileResuming (withLog K) r db"
    using r by (simp add: reconcilePhase_def Let_def)
  show ?thesis
    unfolding RestoreReconcile_def
    by (rule passes_found [OF served(1) [OF W] *(1)])
       (simp_all add: * r phase passes_found [OF served(2) [OF W] *(2)] run)
qed

text \<open>So a run that is stopped at the right call leaves the restore in \<open>Resuming\<close> without the lock.\<close>

theorem interrupted_release:
  assumes C: "clusterOK C" and p: "runnable p" and v: "underway p (cl_View C w)" "rank p (cl_View C w) = 1"
  shows "\<exists>n. unlocked p (cl_View C (actorStep C (rkey p) (dkey p) (RestoreCut n) w))"
proof -
  have K: "serves (cl_View C) (cl_Kube C)" "finalizer_laws (k_Lib (cl_Kube C))"
    using C by (simp_all add: clusterOK_def)
  obtain r db d where *: "holdsObjects p (cl_View C w) r db d" "sideObjects p (cl_View C w)"
      "inPhase p (lr_Phase r) (lr_Status r) (isPaused db) d (so_Jobs (cl_View C w) (jobKey p))
         (so_Leases (cl_View C w) (lockKey p))"
    using v(1) unfolding underway_def by blast
  have rank: "rankOf (lr_Phase r) (isPaused db) (configIn p (cl_View C w)) (jobDone p (cl_View C w))
      (wt_replicas d) (runningReplicas d) = 1"
    using v(2) rank_holds [OF *(1)] by simp
  have r: "lr_Phase r = RestorePhaseResuming" "\<not> isPaused db"
    and c: "configIn p (cl_View C w) \<noteq> None" "configIn p (cl_View C w) \<noteq> Some pausedConfig"
    using rank unfolding rankOf_def by (auto split: if_splits)
  have st: "st_OriginalReplicas (lr_Status r) = Some (replicaTarget p)" using *(3) r(1) by simp
  show ?thesis
  proof (cases "so_Leases (cl_View C w) (lockKey p)")
    case None
    then have "unlocked p (cl_View C (actorStep C (rkey p) (dkey p) (RestoreCut 0) w))"
      using same_keys(13) [OF *(1)] r by (auto simp: cutWorld_def unlocked_def split: prod.split)
    then show ?thesis ..
  next
    case (Some l)
    obtain c where "configIn p (cl_View C w) = Some c" "c \<noteq> pausedConfig" using c by auto
    then have "passes (freely (cl_View C)) (cl_View C w) (RestoreReconcile (withLog (cl_Kube C)) (rkey p)) (unlocked p)"
      by (intro reconcile_passes [OF K p *(1) r(1)] resuming_passes [OF K(1) p *(1,2) r(1) st r(2) _ _ Some])
    from cut_there [OF this] show ?thesis by simp
  qed
qed

section \<open>A restore that runs again without the lock\<close>

text \<open>A restore in \<open>Resuming\<close>, while another one has the lock and replication is paused for it.\<close>

definition heldByOther :: "project \<Rightarrow> store \<Rightarrow> bool" where
  "heldByOther p v \<longleftrightarrow>
     (\<exists>r db d. holdsObjects p v r db d \<and> lr_Phase r = RestorePhaseResuming \<and>
        st_OriginalReplicas (lr_Status r) = Some (replicaTarget p)) \<and>
     (\<exists>l. so_Leases v (lockKey p) = Some l \<and> ls_HolderIdentity l \<noteq> Some (lr_Name (pj_Restore p))) \<and>
     configIn p v = Some pausedConfig \<and>
     (\<forall>cm. so_ConfigMaps v (ckey p) = Some cm \<longrightarrow> ownedOnlyBy (db_Name (pj_Replica p)) (cm_Meta cm))"

abbreviation plainly :: "('w \<Rightarrow> store) \<Rightarrow> 'w watch" where
  "plainly view \<equiv> plainWatch view anything"

lemma always_plainly [simp]: "wt_Always (plainly view) v"
  by (simp add: plainWatch_def anything_def)

lemma unpauses_run:
  assumes K: "watches W K" "finalizer_laws (k_Lib K)" and W: "\<And>v. wt_Always W v"
    and p: "runnable p" "holdsObjects p v r db d"
    and st: "lr_Phase r = RestorePhaseResuming" "configIn p v = Some pausedConfig"
  shows "endsIn W v (RestoreReconcile K (rkey p)) (\<lambda>_ v'. \<exists>db' x. v' = v\<lparr>so_Replicas := x\<rparr> \<and>
    holdsObjects p v' r db' d \<and> \<not> isPaused db')"
proof (rule restore_start [OF K p])
  show "endsIn W v (reconcilePhase K r db) (\<lambda>_ v'. \<exists>db' x. v' = v\<lparr>so_Replicas := x\<rparr> \<and>
      holdsObjects p v' r db' d \<and> \<not> isPaused db')"
    unfolding reconcilePhase_def Let_def reconcileResuming_def
    apply (simp add: st(1))
    apply (rule after_bindI [OF resume_run [OF K(1) p(2) W]], clarsimp)
    subgoal premises * for db' x
      unfolding same_keys(8,9) [OF p(2), folded same_keys(8,9) [OF *(1)]]
      by (rule after_bind, rule read_config [OF K(1) *(1)])
         (use st(2) * in \<open>auto simp: same_keys [OF p(2)] intro!: after_ret\<close>)
    done
qed (use st(1) in \<open>simp add: terminal_def\<close>)

text \<open>Releasing a lock that another restore holds does nothing; the rest of the run goes on.\<close>

lemma foreign_release:
  assumes "watches W K" "holdsObjects p v r db d" "so_Leases v (lockKey p) = Some l"
    and "ls_HolderIdentity l \<noteq> Some (lr_Name (pj_Restore p))"
  shows "endsIn W v (releaseRestoreLock K r) (\<lambda>_ v'. v' = v)"
  unfolding releaseRestoreLock_def same_keys(4,5,11) [OF assms(2)]
  by (rule after_found_bind [OF served(6) [OF assms(1)] assms(3)]) (simp add: assms(4) after_ret)

text \<open>Nothing but workloads and the status of restores has changed.\<close>

definition resumedFrom :: "store \<Rightarrow> store \<Rightarrow> bool" where
  "resumedFrom v v' \<longleftrightarrow> so_Leases v' = so_Leases v \<and> so_Jobs v' = so_Jobs v \<and> so_Replicas v' = so_Replicas v"

lemma foreign_finish:
  assumes K: "watches W K" and W: "\<And>v. wt_Always W v" and p: "runnable p" "holdsObjects p v r db d"
    and l: "so_Leases v (lockKey p) = Some l" "ls_HolderIdentity l \<noteq> Some (lr_Name (pj_Restore p))"
  shows "endsIn W v (finishRestore K r) (\<lambda>_ v'. resumedFrom v v' \<and> targetIn p v' = targetIn p v)"
proof -
  have mode: "lr_Mode r \<noteq> RestoreModeToPVC" using runnableD [OF p(1)] same_keys [OF p(2)] by simp
  show ?thesis
    unfolding finishRestore_def if_P [OF mode] withResult_def advance_def setStatus_def
    apply (rule after_bindI [OF foreign_release [OF K p(2) l]])
    apply (intro after_intros after_api [OF K])
    using W by (auto simp: resumedFrom_def intro!: after_ret)
qed

lemma resumes_run:
  assumes K: "watches W K" "finalizer_laws (k_Lib K)" and W: "\<And>v. wt_Always W v"
    and p: "runnable p" "holdsObjects p v r db d"
    and st: "lr_Phase r = RestorePhaseResuming" "st_OriginalReplicas (lr_Status r) = Some (replicaTarget p)"
      "\<not> isPaused db" "configIn p v = Some c" "c \<noteq> pausedConfig"
    and l: "so_Leases v (lockKey p) = Some l" "ls_HolderIdentity l \<noteq> Some (lr_Name (pj_Restore p))"
  shows "endsIn W v (RestoreReconcile K (rkey p)) (\<lambda>_ v'. resumedFrom v v' \<and>
    (\<exists>d'. targetIn p v' = Some d' \<and> desiredReplicas d' = replicaTarget p))"
proof (rule restore_start [OF K p])
  let ?Q = "\<lambda>v'. resumedFrom v v' \<and> (\<exists>d'. targetIn p v' = Some d' \<and> desiredReplicas d' = replicaTarget p)"
  have resumed: "resumeReplication K db = ret None"
    using st(3) by (simp add: resumeReplication_def isPaused_def)
  have same: "sameReplica (pj_Replica p) db" using p(2) by (simp add: holdsObjects_def)
  have up: "endsIn W v (do {
      s \<leftarrow> scaleUp K db (restoredReplicas r);
      case s of Some err \<Rightarrow> ret (emptyResult, Some err) | None \<Rightarrow> finishRestore K r
    }) (\<lambda>_. ?Q)"
    unfolding restoredReplicas_def st(2) option.case
  proof (rule after_bindI [OF scaleUp_run [OF K(1) p same W]])
    fix e :: "goerr option" and v'
    assume "e = None \<and> (\<exists>d'. holdsObjects p v' r db d' \<and>
        desiredReplicas d' = replicaTarget p \<and> rescaled v v')"
    then obtain d' where *: "e = None" "holdsObjects p v' r db d'" "desiredReplicas d' = replicaTarget p"
        "rescaled v v'" by blast
    note kept = rescaledD(4,5,7) [OF *(4)]
    have "endsIn W v' (finishRestore K r) (\<lambda>_ v''. resumedFrom v' v'' \<and> targetIn p v'' = targetIn p v')"
      using l kept by (intro foreign_finish [OF K(1) W p(1) *(2)]) simp_all
    then show "endsIn W v' (case e of Some err \<Rightarrow> ret (emptyResult, Some err) | None \<Rightarrow> finishRestore K r) (\<lambda>_. ?Q)"
      using same_keys(15) [OF *(2)] *(1,3) kept by (auto simp: resumedFrom_def elim!: after_weaken)
  qed
  have phase: "reconcilePhase K r db = reconcileResuming K r db"
    using st(1) by (simp add: reconcilePhase_def Let_def)
  show "endsIn W v (reconcilePhase K r db) (\<lambda>_. ?Q)"
    unfolding phase reconcileResuming_def resumed State_Monad.bind_left_identity option.case
    by (rule after_bind, rule read_config [OF K(1) p(2)]) (use up st(4,5) in auto)
qed (use st(1) in \<open>simp add: terminal_def\<close>)

text \<open>C32. A restore that resumes does not look at the lock. Let a restore be in \<open>Resuming\<close> without the
  lock, as a run that was stopped after the release leaves it (\<open>interrupted_release\<close>), and let another
  restore of the replica have the lock and the replica paused, at any point of its work. Two more runs
  of the first one, with a run of the replica controller in between, take away the pause and bring
  the application back to its replica count, while the Lease and the Job of the other restore stay as
  they are: the Job then writes the database of a running application.\<close>

theorem resumption_ignores_lock:
  assumes "clusterOK C" "runnable p" "heldByOther p (cl_View C w)"
    and "v' = cl_View C (fold (actorStep C (rkey p) (dkey p)) [RestoreRun, ReplicaRun, RestoreRun] w)"
  shows "so_Leases v' = so_Leases (cl_View C w) \<and> so_Jobs v' = so_Jobs (cl_View C w) \<and>
    (\<exists>db. so_Replicas v' (dkey p) = Some db \<and> \<not> isPaused db) \<and>
    (\<exists>d. targetIn p v' = Some d \<and> desiredReplicas d = replicaTarget p)"
proof -
  let ?view = "cl_View C" and ?K = "cl_Kube C" and ?v = "cl_View C w"
  let ?w1 = "runWorld (RestoreReconcile ?K (rkey p)) w"
  let ?w2 = "runWorld (ReplicaReconcile ?K (dkey p)) ?w1"
  have K: "watches (plainly ?view) ?K" "controller_law (k_Lib ?K)" "finalizer_laws (k_Lib ?K)"
    using assms(1) by (simp_all add: clusterOK_def watches_plain)
  have any: "anything u" for u by (simp add: anything_def)
  obtain r db d l where r: "holdsObjects p ?v r db d" "lr_Phase r = RestorePhaseResuming"
      "st_OriginalReplicas (lr_Status r) = Some (replicaTarget p)" "configIn p ?v = Some pausedConfig"
    and l: "so_Leases ?v (lockKey p) = Some l" "ls_HolderIdentity l \<noteq> Some (lr_Name (pj_Restore p))"
    and owner: "\<And>cm. so_ConfigMaps ?v (ckey p) = Some cm \<Longrightarrow> ownedOnlyBy (db_Name (pj_Replica p)) (cm_Meta cm)"
    using assms(3) unfolding heldByOther_def by blast
  obtain db1 x where 1: "?view ?w1 = ?v\<lparr>so_Replicas := x\<rparr>" "holdsObjects p (?view ?w1) r db1 d" "\<not> isPaused db1"
    using after_world [OF unpauses_run [OF K(1,3) always_plainly assms(2) r(1,2,4)] any] by blast
  have "replicaRan p (?view ?w1) r db1 d (?view ?w2)"
    by (rule after_world [OF replica_run_owner [OF K assms(2) 1(2)] any])
       (use 1(1) owner in simp_all)
  then obtain db2 d2 cm where 2: "holdsObjects p (?view ?w2) r db2 d2" "\<not> isPaused db2"
      "so_Jobs (?view ?w2) = so_Jobs ?v" "so_Leases (?view ?w2) = so_Leases ?v"
      "configIn p (?view ?w2) = Some (currentConfig db1)"
    unfolding replicaRan_def configIn_def using 1(1,3) by (auto simp: isPaused_def)
  have config: "currentConfig db1 \<noteq> pausedConfig" using 1(3) by (simp add: currentConfig_paused)
  have "resumedFrom (?view ?w2) v' \<and> (\<exists>d. targetIn p v' = Some d \<and> desiredReplicas d = replicaTarget p)"
    using after_world [OF resumes_run [OF K(1,3) always_plainly assms(2) 2(1) r(2,3) 2(2,5) config
        l(1) [folded 2(4)] l(2)] any] unfolding assms(4) by simp
  then show ?thesis
    using 2 same_keys(14) [OF 2(1)] by (simp add: resumedFrom_def)
qed

text \<open>The restore \<open>r1\<close> of the sample in \<open>Resuming\<close>, and \<open>r2\<close> with the lock.\<close>

definition foreignLease :: lease where
  "foreignLease = \<lparr>ls_Meta = emptyMeta\<lparr>om_Namespace := ''ns'', om_Name := ''litestream-restore-app-db''\<rparr>,
     ls_HolderIdentity = Some ''r2'', ls_AcquireTime = Some 1, ls_LeaseDurationSeconds = Some 3600\<rparr>"

definition resumingRestore :: litestreamRestore where
  "resumingRestore = (pj_Restore sampleProject)\<lparr>lr_Status := (lr_Status (pj_Restore sampleProject))
     \<lparr>st_Phase := RestorePhaseResuming, st_OriginalReplicas := Some 3\<rparr>\<rparr>"

definition foreignStore :: store where
  "foreignStore = (storeOf sampleProject)
     \<lparr>so_Restores := [rkey sampleProject \<mapsto> resumingRestore],
      so_Replicas := [dkey sampleProject \<mapsto> setPause (pj_Replica sampleProject)],
      so_Deployments := [wkey sampleProject \<mapsto> sampleDeployment\<lparr>dp_Replicas := Some 0, dp_StatusReplicas := 0\<rparr>],
      so_ConfigMaps := [ckey sampleProject \<mapsto> \<lparr>cm_Meta = (emptyMeta :: objectMeta)
        \<lparr>om_Namespace := ''ns'', om_Name := ''app-db-litestream'', om_OwnerReferences := [''app-db'']\<rparr>,
        cm_Data = [litestreamConfigKey \<mapsto> pausedConfig]\<rparr>],
      so_Leases := [lockKey sampleProject \<mapsto> foreignLease]\<rparr>"

lemma foreignStore_held: "heldByOther sampleProject foreignStore"
proof -
  have names: "lr_Name (pj_Restore sampleProject) = ''r1''" "db_Name (pj_Replica sampleProject) = ''app-db''"
    by (simp_all add: sampleProject_def sample_defs)
  let ?d = "WDeployment (sampleDeployment\<lparr>dp_Replicas := Some 0, dp_StatusReplicas := 0\<rparr>)"
  have "holdsObjects sampleProject foreignStore resumingRestore (setPause (pj_Replica sampleProject)) ?d"
    by (auto simp: holdsObjects_def foreignStore_def sameRestore_def sameReplica_def sameWorkload_def
        resumingRestore_def setPause_def targetIn_def) (simp_all add: sampleProject_def)
  moreover note samples_target(1)
  ultimately show ?thesis
    unfolding heldByOther_def
    by (intro conjI exI [of _ resumingRestore] exI [of _ "setPause (pj_Replica sampleProject)"] exI [of _ ?d]
        exI [of _ foreignLease])
       (simp_all add: foreignStore_def resumingRestore_def foreignLease_def names configIn_def lookup_def ownedOnlyBy_def)
qed

theorem resumption_ignores_lock_witness:
  "let v' = fold (actorStep storeCluster (rkey sampleProject) (dkey sampleProject))
       [RestoreRun, ReplicaRun, RestoreRun] foreignStore
   in so_Leases v' (lockKey sampleProject) = Some foreignLease \<and>
     (\<exists>d. targetIn sampleProject v' = Some d \<and> desiredReplicas d = 3)"
proof -
  have view: "cl_View storeCluster v = v" for v by (simp add: storeCluster_def)
  note samples_target(1)
  moreover have "so_Leases foreignStore (lockKey sampleProject) = Some foreignLease"
    by (simp add: foreignStore_def)
  ultimately show ?thesis
    using resumption_ignores_lock [OF storeCluster_OK samples_runnable(1) _ refl, of foreignStore]
    unfolding view Let_def by (metis foreignStore_held)
qed

end
