(* ===== verification/Restore_To_Pvc.thy ===== *)
theory Restore_To_Pvc
  imports Restore_Completion
begin

text \<open>
  The other mode: a restore into a claim of its own. It needs no lock and no fence; from the first
  phase it starts its Job, and completes when the Job has. The world and the actors are those of
  \<open>Restore_World\<close>. The theorem says that the restore completes, and that neither controller touches
  a lock, a pause or a replica count meanwhile, whatever the state of the replica's workload is.
\<close>

section \<open>The objects\<close>

text \<open>A restore that can run: as in \<open>runnable\<close>, without a claim about the workload.\<close>

definition runnableToPvc :: "project \<Rightarrow> bool" where
  "runnableToPvc p \<longleftrightarrow>
     (let r = pj_Restore p; db = pj_Replica p in
      restoreFinalizerName \<in> set (om_Finalizers (lr_Meta r)) \<and> \<not> deleting r \<and> lr_Mode r = RestoreModeToPVC \<and>
      rsp_Target (lr_Spec r) \<noteq> None \<and> replicaFinalizerName \<in> set (om_Finalizers (db_Meta db)) \<and>
      IsZero (om_DeletionTimestamp (db_Meta db)) \<and> hasBackup db \<and>
      (lr_Namespace r, lr_Source r) = objectKey (db_Meta db) \<and> lr_Name r \<noteq> db_Name db)"

text \<open>Locks, pauses (they are annotations) and replica counts are as they were in \<open>v0\<close>.\<close>

definition untouched :: "store \<Rightarrow> store \<Rightarrow> bool" where
  "untouched v0 v \<longleftrightarrow> so_Leases v = so_Leases v0 \<and>
     (\<forall>k. map_option db_Meta (so_Replicas v k) = map_option db_Meta (so_Replicas v0 k)) \<and>
     (\<forall>k. map_option dp_Replicas (so_Deployments v k) = map_option dp_Replicas (so_Deployments v0 k)) \<and>
     (\<forall>k. map_option ss_Replicas (so_StatefulSets v k) = map_option ss_Replicas (so_StatefulSets v0 k))"

definition holdsPvc :: "project \<Rightarrow> store \<Rightarrow> store \<Rightarrow> litestreamRestore \<Rightarrow> litestreamReplica \<Rightarrow> bool" where
  "holdsPvc p v0 v r db \<longleftrightarrow>
     so_Restores v (rkey p) = Some r \<and> sameRestore (pj_Restore p) r \<and>
     so_Replicas v (dkey p) = Some db \<and> db_Meta db = db_Meta (pj_Replica p) \<and> db_Spec db = db_Spec (pj_Replica p) \<and>
     (\<forall>cm. so_ConfigMaps v (jobConfigKey p) = Some cm \<longrightarrow> ownedOnlyBy (lr_Name (pj_Restore p)) (cm_Meta cm)) \<and>
     untouched v0 v"

text \<open>The phases, what is left to do in each, and whose step is next.\<close>

definition pvcPhase :: "project \<Rightarrow> litestreamRestore \<Rightarrow> job option \<Rightarrow> bool" where
  "pvcPhase p r j \<longleftrightarrow>
     (lr_Phase r = [] \<or> lr_Phase r = RestorePhasePending) \<and> (case j of None \<Rightarrow> True | Some x \<Rightarrow> jobFine x) \<or>
     lr_Phase r = RestorePhaseRestoring \<and> st_JobName (lr_Status r) = restoreJobName (pj_Restore p) \<and>
       (case j of None \<Rightarrow> False | Some x \<Rightarrow> jobFine x) \<or>
     lr_Phase r = RestorePhaseCompleted"

definition pvcRank :: "string \<Rightarrow> bool \<Rightarrow> nat" where
  "pvcRank phase finished =
     (if phase = RestorePhaseCompleted then 0
      else if phase = RestorePhaseRestoring then (if finished then 1 else 2) else 3)"

definition pvcTurn :: "nat \<Rightarrow> actor" where
  "pvcTurn k = (if k = 2 then JobController else RestoreRun)"

definition pvcLeft :: "project \<Rightarrow> store \<Rightarrow> nat" where
  "pvcLeft p v = (case so_Restores v (rkey p) of None \<Rightarrow> 4 | Some r \<Rightarrow> pvcRank (lr_Phase r) (jobDone p v))"

definition pvcUnderway :: "project \<Rightarrow> store \<Rightarrow> store \<Rightarrow> bool" where
  "pvcUnderway p v0 v \<longleftrightarrow> (\<exists>r db. holdsPvc p v0 v r db \<and> pvcPhase p r (so_Jobs v (jobKey p)))"

lemma pvcRank_simps [simp]:
  "pvcRank [] j = 3" "pvcRank RestorePhasePending j = 3" "pvcRank RestorePhaseRestoring j = (if j then 1 else 2)"
  "pvcRank RestorePhaseCompleted j = 0"
  by (simp_all add: pvcRank_def restore_phase_neq(1-8) [symmetric])

lemma pvc_turns: "range pvcTurn = {RestoreRun, JobController}"
proof
  have "pvcTurn 1 = RestoreRun" "pvcTurn 2 = JobController" by (simp_all add: pvcTurn_def)
  then show "{RestoreRun, JobController} \<subseteq> range pvcTurn"
    by (metis (full_types) empty_subsetI insert_subset rangeI)
qed (auto simp: pvcTurn_def)

lemma untouched_refl [simp]: "untouched v v"
  by (simp add: untouched_def)

text \<open>A step of an actor to the store \<open>v'\<close>, and what holds after every call of a run.\<close>

definition pvcSteady :: "project \<Rightarrow> store \<Rightarrow> nat \<Rightarrow> store \<Rightarrow> bool" where
  "pvcSteady p v0 k v' \<longleftrightarrow> pvcUnderway p v0 v' \<and> pvcLeft p v' \<le> k"

definition pvcNext :: "project \<Rightarrow> store \<Rightarrow> actor \<Rightarrow> nat \<Rightarrow> store \<Rightarrow> bool" where
  "pvcNext p v0 a k v' \<longleftrightarrow> pvcSteady p v0 k v' \<and> (k > 0 \<and> pvcTurn k = a \<longrightarrow> pvcLeft p v' < k)"

lemma pvcSteadyI:
  "holdsPvc p v0 v' r db \<Longrightarrow> pvcPhase p r (so_Jobs v' (jobKey p)) \<Longrightarrow> pvcRank (lr_Phase r) (jobDone p v') \<le> k \<Longrightarrow>
   pvcSteady p v0 k v'"
  unfolding pvcSteady_def pvcUnderway_def pvcLeft_def by (auto simp: holdsPvc_def)

lemma pvcNextI:
  "holdsPvc p v0 v' r db \<Longrightarrow> pvcPhase p r (so_Jobs v' (jobKey p)) \<Longrightarrow> pvcRank (lr_Phase r) (jobDone p v') \<le> k \<Longrightarrow>
   (k > 0 \<Longrightarrow> pvcTurn k = a \<Longrightarrow> pvcRank (lr_Phase r) (jobDone p v') < k) \<Longrightarrow> pvcNext p v0 a k v'"
  using pvcSteadyI [of p v0 v' r db k] unfolding pvcNext_def pvcLeft_def by (auto simp: holdsPvc_def)

lemma pvc_runnableD:
  assumes "runnableToPvc p"
  shows "lr_Mode (pj_Restore p) = RestoreModeToPVC" "rsp_Target (lr_Spec (pj_Restore p)) \<noteq> None"
    "hasBackup (pj_Replica p)" "IsZero (om_DeletionTimestamp (db_Meta (pj_Replica p)))"
    "(lr_Namespace (pj_Restore p), lr_Source (pj_Restore p)) = dkey p" "ckey p \<noteq> jobConfigKey p"
    "\<not> deleting (pj_Restore p)" "restoreFinalizerName \<in> set (om_Finalizers (lr_Meta (pj_Restore p)))"
    "replicaFinalizerName \<in> set (om_Finalizers (db_Meta (pj_Replica p)))"
  using assms by (auto simp: runnableToPvc_def Let_def)

lemma pvc_keys:
  assumes "holdsPvc p v0 v r db"
  shows "lr_Meta r = lr_Meta (pj_Restore p)" "lr_Spec r = lr_Spec (pj_Restore p)"
    "db_Meta db = db_Meta (pj_Replica p)" "db_Spec db = db_Spec (pj_Replica p)"
    "so_Restores v (rkey p) = Some r" "so_Replicas v (dkey p) = Some db"
    "restoreJobName r = restoreJobName (pj_Restore p)"
  using assms by (auto simp: holdsPvc_def sameRestore_def restoreJobName_def)

section \<open>A run of the replica controller\<close>

definition besides :: "project \<Rightarrow> store \<Rightarrow> store \<Rightarrow> bool" where
  "besides p v v' \<longleftrightarrow> so_Restores v' = so_Restores v \<and> so_Jobs v' = so_Jobs v \<and>
     so_ConfigMaps v' (jobConfigKey p) = so_ConfigMaps v (jobConfigKey p) \<and> untouched v v' \<and>
     (\<forall>k. map_option db_Spec (so_Replicas v' k) = map_option db_Spec (so_Replicas v k))"

lemma besides_writes:
  "besides p v u \<Longrightarrow> so_Replicas u k = Some s \<Longrightarrow>
   besides p v (u\<lparr>so_Replicas := (so_Replicas u)(k \<mapsto> mergeReplicaStatus b n s)\<rparr>)"
  "besides p v u \<Longrightarrow> so_Deployments u k = Some d \<Longrightarrow>
   besides p v (u\<lparr>so_Deployments := (so_Deployments u)(k \<mapsto> mergeDeployment c (c\<lparr>dp_Template := t\<rparr>) d)\<rparr>)"
  "besides p v u \<Longrightarrow> so_StatefulSets u k = Some e \<Longrightarrow>
   besides p v (u\<lparr>so_StatefulSets := (so_StatefulSets u)(k \<mapsto> mergeStatefulSet f (f\<lparr>ss_Template := t\<rparr>) e)\<rparr>)"
  "besides p v u \<Longrightarrow> k \<noteq> jobConfigKey p \<Longrightarrow>
   besides p v (u\<lparr>so_ConfigMaps := (so_ConfigMaps u)(k \<mapsto> x)\<rparr>)"
  unfolding besides_def untouched_def by (auto split: if_splits) (metis option.simps(9))+

lemma replica_keeps_besides:
  assumes "watches W K"
  shows "keeps W (besides p v) (reconcileBootstrapConfig K x)"
    "keeps W (besides p v) (reconcileTargetAnnotation K x)" "keeps W (besides p v) (updateStatus K x)"
    "(db_Namespace x, db_Name x @ ''-litestream'') \<noteq> jobConfigKey p \<Longrightarrow>
     keeps W (besides p v) (reconcileLitestreamConfig K x)"
  unfolding reconcileBootstrapConfig_def reconcileTargetAnnotation_def updateStatus_def getTargetWorkload_def
    patchWorkloadPodTemplate_def patchTarget_def updateBackupHealth_def litestreamContainerState_def
    refineByLag_def scrapeReplicationLag_def fetchLastSyncTime_def sendStatus_def reconcileLitestreamConfig_def Let_def
  by (intro keeps_intros keeps_api [OF assms];
      simp add: besides_writes namedConfigMap_def objectKey_def config_names_differ)+

lemma pvc_replica_run:
  assumes K: "watches W K" "finalizer_laws (k_Lib K)" and p: "runnableToPvc p" "holdsPvc p v0 v r db"
    and always: "\<And>v'. besides p v v' \<Longrightarrow> wt_Always W v'"
  shows "endsIn W v (ReplicaReconcile K (dkey p)) (\<lambda>_. besides p v)"
proof -
  have db: "so_Replicas v (dkey p) = Some db" "IsZero (om_DeletionTimestamp (db_Meta db))"
    "l_ContainsFinalizer (k_Lib K) (db_Meta db) replicaFinalizerName"
    "(db_Namespace db, db_Name db @ ''-litestream'') \<noteq> jobConfigKey p"
    using pvc_runnableD [OF p(1)] pvc_keys [OF p(2)] K(2) by (simp_all add: finalizer_laws_def)
  have start: "besides p v v" by (simp add: besides_def)
  have rest: "keeps W (besides p v) (do {
      c \<leftarrow> reconcileLitestreamConfig K db;
      case c of
        Some err \<Rightarrow> ret (emptyResult, Some err)
      | None \<Rightarrow> do {
          b \<leftarrow> reconcileBootstrapConfig K db;
          case b of
            Inl err \<Rightarrow> ret (emptyResult, Some err)
          | Inr db \<Rightarrow> do {
              a \<leftarrow> reconcileTargetAnnotation K db;
              case a of
                Some err \<Rightarrow> ret (emptyResult, Some err)
              | None \<Rightarrow> do {
                  s \<leftarrow> updateStatus K db;
                  case s of
                    Some err \<Rightarrow> ret (emptyResult, Some err)
                  | None \<Rightarrow> ret (requeueAfter statusSyncInterval, None)
                }
            }
        }
    })"
    by (intro keeps_intros replica_keeps_besides(1-3) [OF K(1)] replica_keeps_besides(4) [OF K(1) db(4)])
  show ?thesis
    unfolding ReplicaReconcile_def
    by (rule after_found_bind [OF served(2) [OF K(1)] db(1)])
       (simp add: db(2,3), rule after_keeps [OF rest start always])
qed

lemma pvc_replica_next:
  assumes "holdsPvc p v0 v r db" "pvcPhase p r (so_Jobs v (jobKey p))" "besides p v v'"
  shows "pvcNext p v0 ReplicaRun (pvcRank (lr_Phase r) (jobDone p v)) v'"
proof -
  have same: "so_Restores v' = so_Restores v" "so_Jobs v' = so_Jobs v"
    "so_ConfigMaps v' (jobConfigKey p) = so_ConfigMaps v (jobConfigKey p)" "untouched v v'"
    and spec: "map_option db_Spec (so_Replicas v' (dkey p)) = map_option db_Spec (so_Replicas v (dkey p))"
    using assms(3) unfolding besides_def by blast+
  have meta: "map_option db_Meta (so_Replicas v' (dkey p)) = map_option db_Meta (so_Replicas v (dkey p))"
    using same(4) unfolding untouched_def by blast
  obtain db' where db': "so_Replicas v' (dkey p) = Some db'" "db_Meta db' = db_Meta db" "db_Spec db' = db_Spec db"
    using spec meta pvc_keys(6) [OF assms(1)] by (auto simp: map_option_case split: option.splits)
  have "untouched v0 v'"
    using same(4) assms(1) unfolding holdsPvc_def untouched_def by simp
  then have "holdsPvc p v0 v' r db'"
    using assms(1) same db' unfolding holdsPvc_def by simp
  moreover have "jobDone p v' = jobDone p v" by (simp add: jobDone_def same)
  ultimately show ?thesis
    using assms(2) by (intro pvcNextI) (auto simp: same pvcTurn_def split: if_splits)
qed

section \<open>A run of the restore controller\<close>

text \<open>The writes of the run: the status, the ConfigMap of the Job, the Job.\<close>

lemma pvc_writes:
  assumes "holdsPvc p v0 v r db"
  shows "holdsPvc p v0 (v\<lparr>so_Restores := (so_Restores v)(rkey p \<mapsto> mergeRestoreStatus b n r)\<rparr>)
      (mergeRestoreStatus b n r) db"
    "ownedOnlyBy (lr_Name (pj_Restore p)) (cm_Meta cm) \<Longrightarrow>
     holdsPvc p v0 (v\<lparr>so_ConfigMaps := (so_ConfigMaps v)(jobConfigKey p \<mapsto> cm)\<rparr>) r db"
    "holdsPvc p v0 (v\<lparr>so_Jobs := x\<rparr>) r db"
  using assms by (auto simp: holdsPvc_def sameRestore_def untouched_def)

lemma pvc_setStatus:
  assumes K: "watches W K" and p: "holdsPvc p v0 v r db" "lr_Meta b = lr_Meta r"
    and next_: "\<And>n. n = mergeRestoreStatus b (withStatus ph j m orig t ct b) r \<Longrightarrow>
      pvcPhase p n (so_Jobs v (jobKey p)) \<and> pvcRank (lr_Phase n) (jobDone p v) < k"
    and always: "wt_Always W = pvcSteady p v0 k"
  shows "endsIn W v (setStatus K b ph j m orig t ct) (\<lambda>_. pvcNext p v0 RestoreRun k)"
proof -
  let ?n = "withStatus ph j m orig t ct b"
  have "pvcNext p v0 RestoreRun k (v\<lparr>so_Restores := (so_Restores v)(rkey p \<mapsto> mergeRestoreStatus b ?n r)\<rparr>)"
    using next_ [OF refl] by (intro pvcNextI [OF pvc_writes(1) [OF p(1)]]) auto
  moreover from this have "pvcSteady p v0 k (v\<lparr>so_Restores := (so_Restores v)(rkey p \<mapsto> mergeRestoreStatus b ?n r)\<rparr>)"
    by (simp add: pvcNext_def)
  ultimately show ?thesis
    unfolding setStatus_def
    by (intro after_intros after_api [OF K])
       (auto simp: p(2) always pvc_keys [OF p(1)] intro!: after_ret)
qed

lemma pvc_store:
  assumes K: "watches W K" and p: "holdsPvc p v0 v r db"
    and always: "\<And>v' r'. holdsPvc p v0 v' r' db \<Longrightarrow> lr_Phase r' = lr_Phase r \<Longrightarrow> so_Jobs v' = so_Jobs v \<Longrightarrow>
      wt_Always W v'"
  shows "endsIn W v (storeResolved K r x y z) (\<lambda>a v'. \<exists>r'. a = Inr r' \<and> holdsPvc p v0 v' r' db \<and>
    lr_Phase r' = lr_Phase r \<and> so_Jobs v' = so_Jobs v)"
proof -
  let ?n = "withResolved x y z r"
  note stored = pvc_writes(1) [OF p, of r ?n]
  have "wt_Always W (v\<lparr>so_Restores := (so_Restores v)(rkey p \<mapsto> mergeRestoreStatus r ?n r)\<rparr>)"
    by (rule always [OF stored]) simp_all
  then show ?thesis
    unfolding storeResolved_def using stored p pvc_keys [OF p]
    by (intro after_if after_ret after_api [OF K]) auto
qed

text \<open>Launching the Job, or taking over the one of a run that was stopped after its creation.\<close>

lemma pvc_launched:
  assumes K: "watches W K" and p: "holdsPvc p v0 v r db" "lr_Phase r = [] \<or> lr_Phase r = RestorePhasePending"
    and j: "so_Jobs v (jobKey p) = Some j" "jobFine j"
    and always: "wt_Always W = pvcSteady p v0 3"
  shows "endsIn W v (jobLaunched K r note orig) (\<lambda>_. pvcNext p v0 RestoreRun 3)"
  unfolding jobLaunched_def withResult_def using p(2) j pvc_keys(7) [OF p(1)]
  by (auto simp: mergeField_def pvcPhase_def intro!: after_bind after_ret after_api [OF K]
      after_weaken [OF pvc_setStatus [OF K p(1), where k = 3]] always)

lemma pvc_launch:
  assumes K: "watches W K" "controller_law (k_Lib K)" and r: "runnableToPvc p"
    and p: "holdsPvc p v0 v r db" "lr_Phase r = [] \<or> lr_Phase r = RestorePhasePending"
      "case so_Jobs v (jobKey p) of None \<Rightarrow> True | Some x \<Rightarrow> jobFine x"
    and always: "wt_Always W = pvcSteady p v0 3"
  shows "endsIn W v (launchRestoreJob K r db x y z note orig) (\<lambda>_. pvcNext p v0 RestoreRun 3)"
proof -
  note keys = pvc_keys [OF p(1)]
  have steady: "wt_Always W v'" if "holdsPvc p v0 v' r db" "case so_Jobs v' (jobKey p) of None \<Rightarrow> True | Some x \<Rightarrow> jobFine x"
    for v' unfolding always by (rule pvcSteadyI [OF that(1)]) (use p(2) that(2) in \<open>auto simp: pvcPhase_def\<close>)
  have config: "endsIn W v (reconcileRestoreConfig K r db) (\<lambda>e v'. e = None \<and> holdsPvc p v0 v' r db \<and>
      so_Jobs v' = so_Jobs v)"
  proof -
    have owner: "ownedOnlyBy (om_Name (lr_Meta r)) (cm_Meta c)"
      if "so_ConfigMaps v (lr_Namespace r, lr_Name r @ ''-litestream'') = Some c" for c
      using that p(1) keys(1) by (simp add: holdsPvc_def)
    show ?thesis
      unfolding reconcileRestoreConfig_def
      by (rule after_weaken [OF config_run [OF K owner]])
         (use pvc_writes(2) [OF p(1)] keys(1) p(3) in \<open>auto intro!: steady\<close>)
  qed
  have "hasBackup db" using pvc_runnableD(3) [OF r] keys(4) by (simp add: hasBackup_def)
  then obtain j where j: "buildRestoreJob r db (restoreJobName r) x y z = Some j"
    "om_OwnerReferences (jb_Meta j) = []" "om_Name (jb_Meta j) = restoreJobName r"
    "om_Namespace (jb_Meta j) = lr_Namespace r" "jb_Conditions j = []"
    using buildRestoreJob_some by blast
  let ?j = "j\<lparr>jb_Meta := (jb_Meta j)\<lparr>om_OwnerReferences := [lr_Name r]\<rparr>\<rparr>"
  have owner: "l_SetControllerReference (k_Lib K) (lr_Meta r) (jb_Meta j) =
      Inr ((jb_Meta j)\<lparr>om_OwnerReferences := [lr_Name r]\<rparr>)"
    using K(2) j(2) by (simp add: controller_law_def)
  have key: "objectKey (jb_Meta ?j) = jobKey p" using keys(1,7) by (simp add: objectKey_def j)
  have fine: "jobFine ?j" by (simp add: jobFine_def jobVerdict_def j)
  have create: "endsIn W v' (do { e \<leftarrow> createJob K ?j; case e of
      None \<Rightarrow> jobLaunched K r note orig
    | Some err \<Rightarrow> if IsAlreadyExists err then jobLaunched K r note orig
                  else ret (emptyResult, Some (Wrapped ''creating restore Job'' err)) })
    (\<lambda>_. pvcNext p v0 RestoreRun 3)" if v': "holdsPvc p v0 v' r db" "so_Jobs v' = so_Jobs v" for v'
  proof -
    let ?v = "v'\<lparr>so_Jobs := (so_Jobs v')(jobKey p \<mapsto> ?j)\<rparr>"
    have made: "holdsPvc p v0 ?v r db" "wt_Always W ?v"
      using pvc_writes(3) [OF v'(1)] fine by (auto intro!: steady)
    show ?thesis
      by (rule after_bind, rule after_api [OF K(1)], unfold key)
         (use made pvc_launched [OF K(1) made(1) p(2) _ fine always] pvc_launched [OF K(1) v'(1) p(2) _ _ always]
            p(3) v'(2) in \<open>simp_all split: option.splits\<close>)
  qed
  show ?thesis
    unfolding launchRestoreJob_def
    by (rule after_bindI [OF config]) (clarsimp simp: j owner create)
qed

text \<open>The two phases in which there is something to do.\<close>

lemma pvc_pending:
  assumes K: "watches W K" "controller_law (k_Lib K)" and r: "runnableToPvc p"
    and p: "holdsPvc p v0 v r db" "lr_Phase r = [] \<or> lr_Phase r = RestorePhasePending"
      "pvcPhase p r (so_Jobs v (jobKey p))"
    and always: "wt_Always W = pvcSteady p v0 3"
  shows "endsIn W v (reconcilePending K r db) (\<lambda>_. pvcNext p v0 RestoreRun 3)"
proof -
  obtain t where t: "rsp_Target (lr_Spec r) = Some t"
    using pvc_runnableD(2) [OF r] pvc_keys(2) [OF p(1)] by auto
  have mode: "lr_Mode r' = RestoreModeToPVC" if "holdsPvc p v0 v' r' db" for r' v'
    using pvc_runnableD(1) [OF r] pvc_keys(2) [OF that] by simp
  have resolved: "resolveRestoreTarget K r db = ret (Inr (rt_PVC t, rt_Path t, []))"
    by (simp add: resolveRestoreTarget_def mode [OF p(1)] t)
  have j: "case so_Jobs v (jobKey p) of None \<Rightarrow> True | Some x \<Rightarrow> jobFine x"
    using p(2,3) unfolding pvcPhase_def by (auto simp: restore_phase_neq(1-8) [symmetric])
  show ?thesis
    unfolding reconcilePending_def resolved State_Monad.bind_left_identity sum.case prod.case
  proof (rule after_bindI [OF pvc_store [OF K(1) p(1)]])
    fix v' r'
    assume "holdsPvc p v0 v' r' db" "lr_Phase r' = lr_Phase r" "so_Jobs v' = so_Jobs v"
    then show "wt_Always W v'"
      unfolding always using p(2) j by (intro pvcSteadyI) (auto simp: pvcPhase_def)
  next
    fix a :: "goerr + litestreamRestore" and v'
    assume "\<exists>r'. a = Inr r' \<and> holdsPvc p v0 v' r' db \<and> lr_Phase r' = lr_Phase r \<and> so_Jobs v' = so_Jobs v"
    then obtain r' where "a = Inr r'" "holdsPvc p v0 v' r' db" "lr_Phase r' = lr_Phase r" "so_Jobs v' = so_Jobs v"
      by blast
    then show "endsIn W v' (case a of
        Inl err \<Rightarrow> ret (emptyResult, Some (Wrapped ''storing resolved target in status'' err))
      | Inr restore \<Rightarrow>
          if lr_Mode restore = RestoreModeToPVC then
            launchRestoreJob K restore db (rt_PVC t) (rt_Path t) [] '' (mode: ToPVC)'' None
          else do {
            w \<leftarrow> getTargetWorkloadForRestore K db;
            case (case w of Inr wt \<Rightarrow> Inr (desiredReplicas wt)
                  | Inl err \<Rightarrow> if IsNotFound err then Inr 0 else Inl err) of
              Inl err \<Rightarrow> withResult emptyResult
                (failRestore K restore (''getting target workload for LitestreamReplica '' @
                   fmt_q (db_Name db) @ '': '' @ errText err))
            | Inr originalReplicas \<Rightarrow> do {
                t \<leftarrow> now K;
                withResult (requeueAfter restoreRequeueInterval)
                  (setStatus K restore RestorePhaseAcquiringLock (st_JobName (lr_Status restore))
                    ''acquiring restore lock'' (Some originalReplicas) (Some t) None)
              }
          }) (\<lambda>_. pvcNext p v0 RestoreRun 3)"
      using pvc_launch [OF K r _ _ _ always] mode p(2) j by simp
  qed
qed

lemma pvc_restoring:
  assumes K: "watches W K" and r: "runnableToPvc p" and p: "holdsPvc p v0 v r db"
    "lr_Phase r = RestorePhaseRestoring" "pvcPhase p r (so_Jobs v (jobKey p))"
    and k: "k = (if jobDone p v then 1 else 2)" and always: "wt_Always W = pvcSteady p v0 k"
  shows "endsIn W v (reconcileRestoring K r db) (\<lambda>_. pvcNext p v0 RestoreRun k)"
proof -
  note keys = pvc_keys [OF p(1)]
  obtain j where j: "so_Jobs v (jobKey p) = Some j" "\<And>c. jobVerdict j = Some c \<Longrightarrow> jc_Type c = JobComplete"
    and name: "st_JobName (lr_Status r) = restoreJobName (pj_Restore p)"
    using p(2,3) by (auto simp: pvcPhase_def jobFine_def split: option.splits)
  have mode: "lr_Mode r = RestoreModeToPVC" using pvc_runnableD(1) [OF r] keys(2) by simp
  have wait: "pvcNext p v0 RestoreRun k v" if "jobVerdict j = None"
    by (rule pvcNextI [OF p(1,3)]) (use p(2) that k j in \<open>simp_all add: pvcTurn_def jobDone_def\<close>)
  have finished: "endsIn W v (restoreJobSucceeded K r) (\<lambda>_. pvcNext p v0 RestoreRun k)" if "jobVerdict j \<noteq> None"
  proof -
    have "k = 1" using that k j by (simp add: jobDone_def)
    then show ?thesis
      unfolding restoreJobSucceeded_def withResult_def advance_def using p(2) mode always
      by (auto simp: mergeField_def pvcPhase_def intro!: after_bind after_ret after_api [OF K] after_let
          after_weaken [OF pvc_setStatus [OF K p(1), where k = 1]])
  qed
  have key: "(lr_Namespace r, st_JobName (lr_Status r)) = jobKey p" using name keys(1) by simp
  show ?thesis
    unfolding reconcileRestoring_def key
    by (rule after_found_bind [OF served(5) [OF K] j(1)])
       (use wait finished j(2) in \<open>auto intro!: after_ret split: option.split\<close>)
qed

lemma pvc_run:
  assumes K: "watches W K" "controller_law (k_Lib K)" "finalizer_laws (k_Lib K)" and r: "runnableToPvc p"
    and p: "holdsPvc p v0 v r db" "pvcPhase p r (so_Jobs v (jobKey p))"
    and k: "k = pvcRank (lr_Phase r) (jobDone p v)" and always: "wt_Always W = pvcSteady p v0 k"
  shows "endsIn W v (RestoreReconcile K (rkey p)) (\<lambda>_. pvcNext p v0 RestoreRun k)"
proof -
  note keys = pvc_keys [OF p(1)] and laws = pvc_runnableD [OF r]
  have objects: "(lr_Namespace r, lr_Source r) = dkey p" "hasBackup db"
    "l_ContainsFinalizer (k_Lib K) (lr_Meta r) restoreFinalizerName" "IsZero (om_DeletionTimestamp (lr_Meta r))"
    using laws keys K(3) by (simp_all add: finalizer_laws_def hasBackup_def deleting_def)
  have phase: "endsIn W v (reconcilePhase K r db) (\<lambda>_. pvcNext p v0 RestoreRun k)"
    if ph: "lr_Phase r \<noteq> RestorePhaseCompleted"
  proof -
    consider "lr_Phase r = [] \<or> lr_Phase r = RestorePhasePending" | "lr_Phase r = RestorePhaseRestoring"
      using p(2) ph unfolding pvcPhase_def by blast
    then show ?thesis
    proof cases
      case 1
      then show ?thesis
        using pvc_pending [OF K(1,2) r p(1) 1 p(2)] k always by (auto simp: reconcilePhase_def Let_def)
    next
      case 2
      then show ?thesis
        using pvc_restoring [OF K(1) r p(1) 2 p(2) _ always] k by (simp add: reconcilePhase_def Let_def)
    qed
  qed
  have ended: "pvcNext p v0 RestoreRun k v" if "lr_Phase r = RestorePhaseCompleted"
    using that k p(2) by (intro pvcNextI [OF p]) auto
  have notFailed: "lr_Phase r \<noteq> RestorePhaseFailed"
    using p(2) unfolding pvcPhase_def by (auto simp: restore_phase_neq(1-8) [symmetric])
  have run: "endsIn W v (do {
      s \<leftarrow> getReplica K (lr_Namespace r, lr_Source r);
      case s of
        Inl err \<Rightarrow> g err
      | Inr sourceDB \<Rightarrow>
          if \<not> IsZero (om_DeletionTimestamp (lr_Meta r)) then handleFinalization K r (Some sourceDB)
          else if lr_Phase r = RestorePhaseCompleted \<or> lr_Phase r = RestorePhaseFailed then ret (emptyResult, None)
          else if \<not> hasBackup sourceDB
          then withResult emptyResult (failRestore K r (''LitestreamReplica '' @ fmt_q (lr_Source r) @
                 '' does not have backup enabled with an S3 destination''))
          else reconcilePhase K r sourceDB
    }) (\<lambda>_. pvcNext p v0 RestoreRun k)" for g
    unfolding objects(1)
    by (rule after_found_bind [OF served(2) [OF K(1)] keys(6)])
       (use objects notFailed phase ended in \<open>simp add: after_ret\<close>)
  show ?thesis
    unfolding RestoreReconcile_def
    by (rule after_found_bind [OF served(1) [OF K(1)] keys(5)]) (simp add: objects(3) run)
qed

section \<open>Completion\<close>

lemma pvc_advances:
  assumes C: "clusterOK C" and r: "runnableToPvc p" and under: "pvcUnderway p v0 (cl_View C w)"
  shows "pvcNext p v0 a (pvcLeft p (cl_View C w)) (cl_View C (actorStep C (rkey p) (dkey p) a w))"
proof -
  let ?v = "cl_View C w" and ?v' = "cl_View C (actorStep C (rkey p) (dkey p) a w)"
  let ?k = "pvcLeft p ?v"
  let ?P = "plainWatch (cl_View C) (pvcSteady p v0 ?k)" and ?L = "logWatch (cl_View C) (pvcSteady p v0 ?k)"
  have K: "watches ?P (cl_Kube C)" "controller_law (k_Lib (cl_Kube C))" "finalizer_laws (k_Lib (cl_Kube C))"
    using C by (simp_all add: clusterOK_def watches_plain)
  have L: "watches ?L (withLog (cl_Kube C))" "controller_law (k_Lib (withLog (cl_Kube C)))"
    "finalizer_laws (k_Lib (withLog (cl_Kube C)))"
    using C by (simp_all add: clusterOK_def watches_logged)
  have always: "wt_Always ?P = pvcSteady p v0 ?k" "wt_Always ?L = pvcSteady p v0 ?k"
    by (simp_all add: plainWatch_def logWatch_def)
  have first: "pvcSteady p v0 ?k ?v" using under by (simp add: pvcSteady_def)
  have cut: "pvcNext p v0 a ?k ?v'" if "pvcSteady p v0 ?k ?v'" "a \<notin> range pvcTurn"
    using that by (auto simp: pvcNext_def)
  obtain r db where p: "holdsPvc p v0 ?v r db" "pvcPhase p r (so_Jobs ?v (jobKey p))"
    using under unfolding pvcUnderway_def by blast
  have k: "?k = pvcRank (lr_Phase r) (jobDone p ?v)"
    using pvc_keys(5) [OF p(1)] by (simp add: pvcLeft_def)
  note ran = pvc_replica_next [OF p, folded k]
  have steady: "besides p ?v v' \<Longrightarrow> pvcSteady p v0 ?k v'" for v'
    using ran by (simp add: pvcNext_def)
  show ?thesis
  proof (cases a)
    case RestoreRun
    show ?thesis unfolding RestoreRun actorStep.simps
      by (rule after_world [OF pvc_run [OF K r p k always(1)] first])
  next
    case ReplicaRun
    show ?thesis unfolding ReplicaRun actorStep.simps
      by (rule ran, rule after_world [OF pvc_replica_run [OF K(1,3) r p(1)] first], simp only: always)
         (rule steady)
  next
    case WorkloadController
    have v': "?v' = settledStore ?v" using C WorkloadController by (simp add: clusterOK_def)
    have "untouched v0 ?v'"
      using p(1) unfolding v' holdsPvc_def untouched_def settledStore_def
      by (simp add: option.map_comp comp_def settledDeployment_def settledStatefulSet_def)
    then have "holdsPvc p v0 ?v' r db" "jobDone p ?v' = jobDone p ?v" "so_Jobs ?v' = so_Jobs ?v"
      using p(1) unfolding v' by (simp_all add: holdsPvc_def jobDone_def)
    then show ?thesis
      using p(2) k by (intro pvcNextI) (auto simp: pvcTurn_def WorkloadController split: if_splits)
  next
    case JobController
    have v': "?v' = ?v\<lparr>so_Jobs := (\<lambda>k. map_option completedJob (so_Jobs ?v k))\<rparr>"
      using C JobController by (simp add: clusterOK_def)
    have "holdsPvc p v0 ?v' r db" unfolding v' by (rule pvc_writes(3) [OF p(1)])
    moreover have "pvcPhase p r (so_Jobs ?v' (jobKey p))"
      using p(2) unfolding v' pvcPhase_def by (auto split: option.splits)
    moreover have "jobDone p ?v' \<longleftrightarrow> so_Jobs ?v (jobKey p) \<noteq> None" "jobDone p ?v \<Longrightarrow> so_Jobs ?v (jobKey p) \<noteq> None"
      by (auto simp: v' jobDone_def split: option.splits)
    moreover have "lr_Phase r = RestorePhaseRestoring \<Longrightarrow> so_Jobs ?v (jobKey p) \<noteq> None"
      using p(2) unfolding pvcPhase_def by (auto simp: restore_phase_neq(1-8) [symmetric] split: option.splits)
    ultimately show ?thesis
      unfolding k by (intro pvcNextI) (auto simp: pvcRank_def pvcTurn_def JobController split: if_splits)
  next
    case (RestoreCut n)
    have "pvcSteady p v0 ?k ?v'"
      unfolding RestoreCut actorStep.simps
      by (rule after_cut [where view = "cl_View C" and w = w and G = "pvcSteady p v0 ?k",
            OF pvc_run [OF L r p k always(2)] first])
    then show ?thesis by (rule cut) (simp add: RestoreCut pvc_turns)
  next
    case (ReplicaCut n)
    have "endsIn ?L ?v (ReplicaReconcile (withLog (cl_Kube C)) (dkey p)) (\<lambda>_. besides p ?v)"
      by (rule pvc_replica_run [OF L(1,3) r p(1)], simp only: always) (rule steady)
    then have "pvcSteady p v0 ?k ?v'"
      unfolding ReplicaCut actorStep.simps
      by (rule after_cut [where view = "cl_View C" and w = w and G = "pvcSteady p v0 ?k", OF _ first])
    then show ?thesis by (rule cut) (simp add: ReplicaCut pvc_turns)
  qed
qed

interpretation to_pvc: fair_actors "actorStep C (rkey p) (dkey p)"
  "\<lambda>w. clusterOK C \<and> runnableToPvc p \<and> pvcUnderway p v0 (cl_View C w)" "\<lambda>w. pvcLeft p (cl_View C w)" pvcTurn for C p v0
proof unfold_locales
  fix w a
  assume "clusterOK C \<and> runnableToPvc p \<and> pvcUnderway p v0 (cl_View C w)"
  then have 1: "clusterOK C" "runnableToPvc p" "pvcUnderway p v0 (cl_View C w)" by blast+
  note next_ = pvc_advances [OF 1]
  show "clusterOK C \<and> runnableToPvc p \<and> pvcUnderway p v0 (cl_View C (actorStep C (rkey p) (dkey p) a w))"
    using next_ [of a] 1 by (simp add: pvcNext_def pvcSteady_def)
  show "pvcLeft p (cl_View C (actorStep C (rkey p) (dkey p) a w)) \<le> pvcLeft p (cl_View C w)"
    using next_ [of a] by (simp add: pvcNext_def pvcSteady_def)
next
  fix w
  assume "clusterOK C \<and> runnableToPvc p \<and> pvcUnderway p v0 (cl_View C w)" "0 < pvcLeft p (cl_View C w)"
  then show "pvcLeft p (cl_View C (actorStep C (rkey p) (dkey p) (pvcTurn (pvcLeft p (cl_View C w))) w))
      < pvcLeft p (cl_View C w)"
    using pvc_advances [of C p v0 w "pvcTurn (pvcLeft p (cl_View C w))"] by (simp add: pvcNext_def)
qed

text \<open>The start: the restore and the replica as they are, and no Job, or one that has not failed.\<close>

definition beginsToPvc :: "project \<Rightarrow> store \<Rightarrow> bool" where
  "beginsToPvc p v \<longleftrightarrow>
     so_Restores v (rkey p) = Some (pj_Restore p) \<and> so_Replicas v (dkey p) = Some (pj_Replica p) \<and>
     (lr_Phase (pj_Restore p) = [] \<or> lr_Phase (pj_Restore p) = RestorePhasePending) \<and>
     (case so_Jobs v (jobKey p) of None \<Rightarrow> True | Some j \<Rightarrow> jobFine j) \<and>
     (\<forall>cm. so_ConfigMaps v (jobConfigKey p) = Some cm \<longrightarrow> ownedOnlyBy (lr_Name (pj_Restore p)) (cm_Meta cm))"

text \<open>C2. A restore into a claim completes and leaves the application alone. From a restore that has
  not run, three rounds in which the restore controller and the Job controller each take at least one
  step bring it to Completed, however the steps of the replica controller, of the workload
  controllers and of interrupted runs of the operator are mixed in. Meanwhile neither controller has
  changed a Lease, the metadata of a replica - so no pause was set or taken away - or the replica
  count of any workload. Nothing is assumed of the replica's workload.\<close>

theorem restore_to_pvc_completes:
  assumes "clusterOK C" "runnableToPvc p" "beginsToPvc p (cl_View C w)"
    and "length rounds \<ge> 3" "list_all (\<lambda>as. {RestoreRun, JobController} \<subseteq> set as) rounds"
    and "v' = cl_View C (runSchedule (actorStep C (rkey p) (dkey p)) rounds w)"
  shows "(\<exists>r. so_Restores v' (rkey p) = Some r \<and> lr_Phase r = RestorePhaseCompleted) \<and>
    untouched (cl_View C w) v'"
proof -
  let ?v = "cl_View C w"
  have "holdsPvc p ?v ?v (pj_Restore p) (pj_Replica p)" "pvcPhase p (pj_Restore p) (so_Jobs ?v (jobKey p))"
    using assms(3) by (auto simp: beginsToPvc_def holdsPvc_def sameRestore_def pvcPhase_def)
  then have "pvcUnderway p ?v ?v" unfolding pvcUnderway_def by blast
  moreover have "pvcLeft p ?v = 3"
    using assms(3) by (auto simp: beginsToPvc_def pvcLeft_def)
  ultimately have "pvcUnderway p ?v v'" "pvcLeft p v' = 0"
    using to_pvc.schedule_ends [of C p ?v w rounds, unfolded pvc_turns] assms by simp_all
  then obtain r db where "holdsPvc p ?v v' r db" "pvcPhase p r (so_Jobs v' (jobKey p))"
      "pvcRank (lr_Phase r) (jobDone p v') = 0"
    unfolding pvcUnderway_def by (auto simp: pvcLeft_def holdsPvc_def)
  then show ?thesis
    by (auto simp: holdsPvc_def pvcRank_def split: if_splits)
qed

text \<open>The sample restore into the claim of its target, in a cluster without any workload.\<close>

definition pvcProject :: project where
  "pvcProject = sampleProject\<lparr>pj_Restore := (sampleRestore RestoreModeToPVC [])
     \<lparr>lr_Status := (lr_Status (sampleRestore RestoreModeToPVC []))\<lparr>st_OriginalReplicas := None\<rparr>\<rparr>\<rparr>"

definition pvcStore :: store where
  "pvcStore = (storeOf pvcProject)\<lparr>so_Deployments := Map.empty, so_StatefulSets := Map.empty\<rparr>"

lemma pvcProject_runnable: "runnableToPvc pvcProject"
  by (simp add: runnableToPvc_def pvcProject_def sampleProject_def sample_defs const_defs Let_def deleting_def
      IsZero_def objectKey_def hasBackup_def)

lemma pvcStore_begins: "beginsToPvc pvcProject pvcStore"
  by (simp add: beginsToPvc_def pvcStore_def storeOf_def) (simp add: pvcProject_def sampleRestore_def)

theorem restore_to_pvc_completes_witness:
  "let v' = runSchedule (actorStep storeCluster (rkey pvcProject) (dkey pvcProject))
       (replicate 3 [RestoreCut 4, RestoreRun, ReplicaRun, JobController]) pvcStore
   in (\<exists>r. so_Restores v' (rkey pvcProject) = Some r \<and> lr_Phase r = RestorePhaseCompleted) \<and>
     so_Leases v' = Map.empty"
proof -
  have view: "cl_View storeCluster v = v" for v by (simp add: storeCluster_def)
  have rounds: "list_all (\<lambda>as. {RestoreRun, JobController} \<subseteq> set as)
      (replicate 3 [RestoreCut 4, RestoreRun, ReplicaRun, JobController])"
    by (simp add: list_all_iff)
  have "so_Leases pvcStore = Map.empty" by (simp add: pvcStore_def storeOf_def)
  then show ?thesis
    using restore_to_pvc_completes [OF storeCluster_OK pvcProject_runnable _ _ rounds refl, of pvcStore]
    unfolding view Let_def untouched_def by (simp add: pvcStore_begins)
qed

end
