(* ===== verification/Restore_Phases.thy ===== *)
theory Restore_Phases
  imports Restore_Runs "HOL-Library.Sublist"
begin

text \<open>
  The phases of a restore. \<open>phase_step\<close> is an abstract machine for them, and every status patch of
  the reconciler is one of its steps. \<open>lifetime\<close> chains runs of the reconciler by the phase that one
  run writes and a later run reads; invariants of the machine hold along it.

  The machine is the one the code has, which is not the one of the README (\<open>documentedPhases\<close>): the
  README lists \<open>Pending\<close> first and \<open>Validating\<close> between \<open>Restoring\<close> and \<open>Resuming\<close>, and no run ever
  writes one of the two. A restore starts with the empty phase, the integrity check is part of the
  restore Job, and \<open>Validating\<close> is only understood when it is found.
\<close>

section \<open>The abstract machine\<close>

inductive phase_step :: "string \<Rightarrow> string \<Rightarrow> string \<Rightarrow> bool" for mode where
  resolved: "p = [] \<or> p = RestorePhasePending \<Longrightarrow> mode \<noteq> RestoreModeToPVC \<Longrightarrow>
    phase_step mode p RestorePhaseAcquiringLock"
| copying: "p = [] \<or> p = RestorePhasePending \<Longrightarrow> mode = RestoreModeToPVC \<Longrightarrow>
    phase_step mode p RestorePhaseRestoring"
| waiting: "mode \<noteq> RestoreModeToPVC \<Longrightarrow>
    phase_step mode RestorePhaseAcquiringLock RestorePhaseAcquiringLock"
| locked: "phase_step mode RestorePhaseAcquiringLock RestorePhaseFencing"
| fenced: "phase_step mode RestorePhaseFencing RestorePhaseRestoring"
| restored: "mode \<noteq> RestoreModeToPVC \<Longrightarrow> phase_step mode RestorePhaseRestoring RestorePhaseResuming"
| copied: "mode = RestoreModeToPVC \<Longrightarrow> phase_step mode RestorePhaseRestoring RestorePhaseCompleted"
| legacy: "phase_step mode RestorePhaseValidating
    (if mode = RestoreModeToPVC then RestorePhaseCompleted else RestorePhaseResuming)"
| resumed: "phase_step mode RestorePhaseResuming RestorePhaseCompleted"
| failed: "phase_step mode p RestorePhaseFailed"

code_pred (modes: i \<Rightarrow> i \<Rightarrow> i \<Rightarrow> bool) phase_step .

inductive_simps phase_step_simps:
  "phase_step mode [] q" "phase_step mode RestorePhasePending q"
  "phase_step mode RestorePhaseAcquiringLock q" "phase_step mode RestorePhaseFencing q"
  "phase_step mode RestorePhaseRestoring q" "phase_step mode RestorePhaseValidating q"
  "phase_step mode RestorePhaseResuming q" "phase_step mode RestorePhaseCompleted q"
  "phase_step mode RestorePhaseFailed q"

text \<open>The phases of an InPlace restore in the order of the README (\<open>Failed\<close> apart).\<close>

definition documentedPhases :: "string list" where
  "documentedPhases =
     [RestorePhasePending, RestorePhaseAcquiringLock, RestorePhaseFencing, RestorePhaseRestoring,
      RestorePhaseValidating, RestorePhaseResuming, RestorePhaseCompleted]"

section \<open>Refinement\<close>

text \<open>
  A status patch stores the resolved target of a restore that has not started, without changing the
  phase, or makes a step of the machine from the phase that was read. Only the loss of its source
  moves a finished restore.
\<close>

definition notStarted :: "litestreamRestore \<Rightarrow> bool" where
  "notStarted r \<longleftrightarrow> lr_Phase r = [] \<or> lr_Phase r = RestorePhasePending"

definition advances :: "litestreamRestore \<Rightarrow> litestreamRestore \<Rightarrow> litestreamRestore \<Rightarrow> bool" where
  "advances r base new \<longleftrightarrow>
     phase_step (lr_Mode base) (lr_Phase r) (lr_Phase new) \<and>
     lr_Phase new \<noteq> RestorePhasePending \<and> lr_Phase new \<noteq> RestorePhaseValidating"

lemma advances_step: "advances r base new \<longleftrightarrow> phase_step (lr_Mode base) (lr_Phase r) (lr_Phase new)"
  by (auto simp: advances_def elim!: phase_step.cases simp: const_defs split: if_splits)

definition refinesPhase :: "action list \<Rightarrow> litestreamRestore \<Rightarrow> litestreamRestore \<Rightarrow> bool" where
  "refinesPhase h base new \<longleftrightarrow>
     (\<exists>r. readRestore h = Some r \<and>
        (terminal (lr_Phase r) \<longrightarrow> sourceMissing h \<and> lr_Phase new = RestorePhaseFailed) \<and>
        (base = r \<and> notStarted r \<and> lr_Phase new = lr_Phase r \<or> advances r base new))"

fun phaseGuard :: "action list \<Rightarrow> action \<Rightarrow> bool" where
  "phaseGuard h (PatchRestoreStatus base new res) = refinesPhase h base new"
| "phaseGuard h _ = True"

text \<open>Within a run that found its source, the guard depends on the restore that was read only.\<close>

fun stepsFrom :: "litestreamRestore \<Rightarrow> action \<Rightarrow> bool" where
  "stepsFrom r (PatchRestoreStatus base new res) \<longleftrightarrow>
     base = r \<and> notStarted r \<and> lr_Phase new = lr_Phase r \<or>
     phase_step (lr_Mode base) (lr_Phase r) (lr_Phase new)"
| "stepsFrom r _ \<longleftrightarrow> True"

lemma guards_stepsFrom:
  assumes "runStart h = Some (r, db)" "\<not> terminal (lr_Phase r)" "emits (stepsFrom r) m"
  shows "guards phaseGuard h m"
proof -
  have "guarded phaseGuard h' tr" if "list_all (stepsFrom r) tr" "readRestore h' = Some r" for h' tr
    using that
  proof (induction tr arbitrary: h')
    case (Cons a tr)
    then have "phaseGuard h' a"
      using assms(2) by (cases a) (auto simp: refinesPhase_def advances_step)
    with Cons show ?case by simp
  qed simp
  then show ?thesis
    using assms(3) runStart_readRestore [OF assms(1)] unfolding guards_def emits_def
    by (auto elim!: yields_weaken)
qed

lemma phase_failRestore:
  "readRestore h = Some r \<Longrightarrow> sourceMissing h \<or> \<not> terminal (lr_Phase r) \<Longrightarrow>
   guards phaseGuard h (failRestore K r msg)"
  unfolding failRestore_def setStatus_def
  by (auto intro!: guards_intros simp: refinesPhase_def advances_step phase_step.failed)

lemma steps_setStatus:
  "phase_step (lr_Mode b) (lr_Phase r) ph \<Longrightarrow> emits (stepsFrom r) (setStatus K b ph j m o' st ct)"
  "phase_step (lr_Mode b) (lr_Phase r) ph \<Longrightarrow> emits (stepsFrom r) (advance K b ph m ct)"
  "emits (stepsFrom r) (failRestore K b msg)"
  unfolding advance_def setStatus_def failRestore_def
  by (auto intro!: emits_intros simp: phase_step.failed)

lemma steps_quiet:
  "emits (stepsFrom r) (getTargetWorkloadForRestore K db)"
  "emits (stepsFrom r) (releaseRestoreLock K b)" "emits (stepsFrom r) (resumeReplication K db)"
  "emits (stepsFrom r) (pauseReplication K db)" "emits (stepsFrom r) (scaleWorkload K wt n)"
  "emits (stepsFrom r) (restoreJobPodLogs K ns n')" "emits (stepsFrom r) (resolveRestoreTarget K b db)"
  "emits (stepsFrom r) (reconcileRestoreConfig K b db)"
  "notStarted r \<Longrightarrow> emits (stepsFrom r) (storeResolved K r pvc p sp)"
  unfolding getTargetWorkloadForRestore_def releaseRestoreLock_def resumeReplication_def
    pauseReplication_def restoreJobPodLogs_def resolveRestoreTarget_def storeResolved_def
    reconcileRestoreConfig_def
  by (cases wt; auto intro!: emits_intros simp: scaleWorkload_def)+

lemmas steps_intros = emits_intros steps_setStatus steps_quiet

lemma steps_handlers:
  "lr_Phase r = [] \<or> lr_Phase r = RestorePhasePending \<Longrightarrow> emits (stepsFrom r) (reconcilePending K r db)"
  "lr_Phase r = RestorePhaseAcquiringLock \<Longrightarrow> emits (stepsFrom r) (reconcileAcquiringLock K r db)"
  "lr_Phase r = RestorePhaseFencing \<Longrightarrow> emits (stepsFrom r) (reconcileFencing K r db)"
  "lr_Phase r = RestorePhaseRestoring \<Longrightarrow> emits (stepsFrom r) (reconcileRestoring K r db)"
  "lr_Phase r = RestorePhaseResuming \<Longrightarrow> emits (stepsFrom r) (reconcileResuming K r db)"
  unfolding reconcilePending_def reconcileAcquiringLock_def reconcileFencing_def fenceWorkload_def
    reconcileRestoring_def reconcileResuming_def launchRestoreJob_def jobLaunched_def lockAcquired_def
    lockHeld_def restoreJobSucceeded_def restoreJobFailed_def failRestoreWithCleanup_def scaleUp_def
    finishRestore_def withResult_def Let_def
  by (intro steps_intros; auto simp: phase_step_simps notStarted_def)+

lemma steps_finalization: "emits (stepsFrom r) (handleFinalization K b db)"
  unfolding handleFinalization_def by (intro steps_intros; simp)+

lemma phase_finalization: "guards phaseGuard h (handleFinalization K b db)"
proof -
  have "emits (\<lambda>a. \<forall>h. phaseGuard h a) (handleFinalization K b db)"
    unfolding handleFinalization_def releaseRestoreLock_def resumeReplication_def
    by (auto intro!: emits_intros split: option.splits)
  then show ?thesis by (rule guards_emits) simp
qed

lemma phases_refined: "guards phaseGuard [] (RestoreReconcile K req)"
proof (rule RestoreReconcile_guards)
  fix r db and h :: "action list"
  assume start: "runStart h = Some (r, db)" and live: "\<not> terminal (lr_Phase r)"
  note steps = guards_stepsFrom [OF start live]
  have legacy: "emits (stepsFrom r) (advance K r p m None)"
    if "lr_Phase r = RestorePhaseValidating"
      "p = (if lr_Mode r = RestoreModeToPVC then RestorePhaseCompleted else RestorePhaseResuming)" for p m
    using that by (intro steps_setStatus) (simp add: phase_step_simps)
  show "guards phaseGuard h (reconcilePhase K r db)"
    by (intro reconcilePhase_guards steps steps_handlers legacy)
qed (auto intro: phase_finalization phase_failRestore dest: runStart_readRestore)

text \<open>C8. Every status patch of a run is a step of the phase machine of this theory from the phase that
  the run read, in the mode of the patched restore, or the storing of the resolved target of a
  restore that has not started, which keeps the phase. No step leads to \<open>Pending\<close> or \<open>Validating\<close>:
  where the README has \<open>Restoring\<close>, \<open>Validating\<close>, \<open>Resuming\<close>, the code goes from \<open>Restoring\<close> to \<open>Resuming\<close>.
  A run that reads a finished restore patches only to \<open>Failed\<close>, and only when the source of the
  restore is gone.\<close>

theorem restore_refines_phases:
  "guards (\<lambda>h a. case a of PatchRestoreStatus base new res \<Rightarrow> refinesPhase h base new | _ \<Rightarrow> True) []
     (RestoreReconcile K req)"
proof -
  have "phaseGuard = (\<lambda>h a. case a of PatchRestoreStatus base new res \<Rightarrow> refinesPhase h base new | _ \<Rightarrow> True)"
    by (intro ext, case_tac a; simp)
  then show ?thesis using phases_refined by metis
qed

section \<open>Lifetimes\<close>

text \<open>
  The phases of one restore, newest first. A run may start at any time and in any state of the
  cluster; its read returns the phase that was written last, and the mode does not change.
\<close>

inductive lifetime :: "'w kube \<Rightarrow> nsname \<Rightarrow> string \<Rightarrow> string list \<Rightarrow> bool" for K req mode where
  created: "lifetime K req mode [[]]"
| written: "lifetime K req mode (p # ps) \<Longrightarrow>
    run_state (RestoreReconcile K req) s = (a, s') \<Longrightarrow> trace s' = trace s @ tr \<Longrightarrow>
    readRestore tr = Some r \<Longrightarrow> lr_Phase r = p \<Longrightarrow>
    PatchRestoreStatus base new (Inr res) \<in> set tr \<Longrightarrow> lr_Mode base = mode \<Longrightarrow>
    lifetime K req mode (lr_Phase new # p # ps)"

lemma readRestore_prefix: "readRestore pre = Some r' \<Longrightarrow> readRestore (pre @ post) = Some r \<Longrightarrow> r' = r"
  by simp

lemma written_step:
  assumes "run_state (RestoreReconcile K req) s = (a, s')" "trace s' = trace s @ tr"
    "readRestore tr = Some r" "PatchRestoreStatus base new (Inr res) \<in> set tr"
  shows "lr_Phase new = lr_Phase r \<or> phase_step (lr_Mode base) (lr_Phase r) (lr_Phase new)"
    "terminal (lr_Phase r) \<Longrightarrow> lr_Phase new = RestorePhaseFailed"
proof -
  have tr: "guarded phaseGuard [] tr"
    using guardsD [OF phases_refined assms(1)] assms(2) by auto
  obtain pre post where split: "tr = pre @ PatchRestoreStatus base new (Inr res) # post"
    using assms(4) by (meson split_list)
  have "refinesPhase pre base new"
    using guarded_split [OF tr split] by simp
  then obtain r' where "readRestore pre = Some r'"
    "terminal (lr_Phase r') \<longrightarrow> lr_Phase new = RestorePhaseFailed"
    "(base = r' \<and> lr_Phase new = lr_Phase r') \<or> phase_step (lr_Mode base) (lr_Phase r') (lr_Phase new)"
    by (auto simp: refinesPhase_def advances_step)
  moreover from this have "r' = r" using assms(3) split readRestore_prefix by blast
  ultimately show "lr_Phase new = lr_Phase r \<or> phase_step (lr_Mode base) (lr_Phase r) (lr_Phase new)"
    "terminal (lr_Phase r) \<Longrightarrow> lr_Phase new = RestorePhaseFailed"
    by auto
qed

text \<open>The courses of the two modes, newest phase first.\<close>

definition course :: "string \<Rightarrow> string list" where
  "course mode =
     (if mode = RestoreModeToPVC then [RestorePhaseCompleted, RestorePhaseRestoring, []]
      else [RestorePhaseCompleted, RestorePhaseResuming, RestorePhaseRestoring, RestorePhaseFencing,
            RestorePhaseAcquiringLock, []])"

text \<open>The course of an InPlace restore is the documented one without the two phases never written.\<close>

lemma course_documented:
  "rev (course RestoreModeInPlace) =
     [] # filter (\<lambda>p. p \<noteq> RestorePhasePending \<and> p \<noteq> RestorePhaseValidating) documentedPhases"
  by (simp add: course_def documentedPhases_def const_defs)

definition onCourse :: "string \<Rightarrow> string list \<Rightarrow> bool" where
  "onCourse mode xs \<longleftrightarrow> xs \<noteq> [] \<and>
     (suffix xs (course mode) \<or> (\<exists>ys. xs = RestorePhaseFailed # ys \<and> suffix ys (course mode) \<and> ys \<noteq> []))"

lemma course_step:
  assumes "suffix (p # qs) (course mode)" "phase_step mode p q" "q \<noteq> p" "q \<noteq> RestorePhaseFailed"
    "\<not> terminal p"
  shows "suffix (q # p # qs) (course mode)"
proof (cases "mode = RestoreModeToPVC")
  case True
  with assms(1) consider "p = RestorePhaseCompleted" | "p = RestorePhaseRestoring" "qs = [[]]" | "p = []" "qs = []"
    by (auto simp: course_def suffix_Cons)
  then show ?thesis
    using assms(2-) True restore_phase_neq(1-8) [symmetric]
    by cases (simp_all add: course_def suffix_Cons phase_step_simps terminal_def)
next
  case False
  with assms(1) consider "p = RestorePhaseCompleted" | "p = RestorePhaseResuming"
      "qs = [RestorePhaseRestoring, RestorePhaseFencing, RestorePhaseAcquiringLock, []]"
    | "p = RestorePhaseRestoring" "qs = [RestorePhaseFencing, RestorePhaseAcquiringLock, []]"
    | "p = RestorePhaseFencing" "qs = [RestorePhaseAcquiringLock, []]"
    | "p = RestorePhaseAcquiringLock" "qs = [[]]" | "p = []" "qs = []"
    by (auto simp: course_def suffix_Cons)
  then show ?thesis
    using assms(2-) False restore_phase_neq(1-8) [symmetric]
    by cases (simp_all add: course_def suffix_Cons phase_step_simps terminal_def)
qed

lemma onCourse_step:
  assumes "onCourse mode (p # qs)" "phase_step mode p q" "terminal p \<Longrightarrow> q = RestorePhaseFailed" "q \<noteq> p"
  shows "onCourse mode (q # p # qs)"
proof -
  have "p \<noteq> RestorePhaseFailed" using assms(3,4) by (auto simp: terminal_def)
  then have sfx: "suffix (p # qs) (course mode)" using assms(1) by (simp add: onCourse_def)
  show ?thesis
  proof (cases "q = RestorePhaseFailed")
    case True
    then show ?thesis using sfx by (simp add: onCourse_def)
  next
    case False
    then have "suffix (q # p # qs) (course mode)" using sfx assms by (intro course_step) auto
    then show ?thesis by (simp add: onCourse_def)
  qed
qed

lemma lifetime_on_course: "lifetime K req mode ps \<Longrightarrow> ps \<noteq> [] \<and> onCourse mode (remdups_adj ps)"
proof (induction rule: lifetime.induct)
  case created
  then show ?case by (simp add: onCourse_def course_def suffix_Cons)
next
  case (written p ps s a s' tr r base new res)
  note step = written_step [OF written.hyps(2,3,4,6)]
  obtain qs where qs: "remdups_adj (p # ps) = p # qs"
    by (metis hd_remdups_adj list.distinct(1) list.exhaust_sel list.sel(1) remdups_adj_Nil_iff)
  show ?case
  proof (cases "lr_Phase new = p")
    case False
    have "onCourse mode (lr_Phase new # p # qs)"
      by (rule onCourse_step) (use written step qs False in auto)
    then show ?thesis using False qs by simp
  qed (use written.IH in simp)
qed

text \<open>C9. Suppose that every run reads the phase that was written last and that the mode of the restore
  never changes. Then, leaving out repetitions, the phases of a restore follow the course of its
  mode without a gap, and may leave it for \<open>Failed\<close> once. The InPlace course is the README's
  without \<open>Pending\<close> and \<open>Validating\<close>: a restore that completed went through the lock, the fence, the
  Job and the resumption, in this order. A ToPVC restore never took the lock and never fenced or
  resumed a workload.\<close>

theorem restore_course:
  assumes "lifetime K req mode ps"
  shows "onCourse mode (remdups_adj ps)"
  using lifetime_on_course [OF assms] by simp

definition sampleCopy :: "unit kube" where
  "sampleCopy = sampleCluster (sampleRestore RestoreModeToPVC []) sampleReplica"

lemma sampleCopy_run:
  "readRestore (trace (snd (run_state (RestoreReconcile sampleCopy req) start)))
     = Some (sampleRestore RestoreModeToPVC []) \<and>
   (\<exists>base new. PatchRestoreStatus base new (Inr new) \<in>
      set (trace (snd (run_state (RestoreReconcile sampleCopy req) start))) \<and>
      lr_Mode base = RestoreModeToPVC \<and> lr_Phase new = RestorePhaseRestoring)"
  by (simp add: RestoreReconcile_def reconcilePhase_def step_defs sampleCopy_def sampleCluster_def
      emptyCluster_def sample_defs sampleLib_def start_def buildRestoreJob_def IsZero_def hasBackup_def
      restoreFinalizerName_def ownedConfigMap_def namedConfigMap_def restore_phase_neq(1-8) [symmetric])

lemma sampleCopy_lifetime: "lifetime sampleCopy req RestoreModeToPVC [RestorePhaseRestoring, []]"
proof -
  let ?run = "run_state (RestoreReconcile sampleCopy req) start"
  obtain base new where patch: "PatchRestoreStatus base new (Inr new) \<in> set (trace (snd ?run))"
    "lr_Mode base = RestoreModeToPVC" "lr_Phase new = RestorePhaseRestoring"
    using sampleCopy_run by blast
  have "lifetime sampleCopy req RestoreModeToPVC (lr_Phase new # [] # [])"
    by (rule lifetime.written [where tr = "trace (snd ?run)", OF lifetime.created prod.collapse [symmetric]])
       (use patch sampleCopy_run [of req] in \<open>auto simp: start_def sampleRestore_def\<close>)
  then show ?thesis using patch(3) by simp
qed

theorem restore_course_witness: "onCourse RestoreModeToPVC [RestorePhaseRestoring, []]"
  using restore_course [OF sampleCopy_lifetime] by simp

end
