(* ===== verification/Restore_Safety.thy ===== *)
theory Restore_Safety
  imports Restore_Phases
begin

text \<open>
  Safety of a restore run: what must have happened before the Job is created, before a workload is
  scaled, before replication is paused, before a success is reported, and who may release the lock.
  Each is a guard over the trace, so it holds whatever the cluster answers and whoever else acts.
\<close>

section \<open>Evidence in a trace\<close>

fun targetGone :: "action \<Rightarrow> bool" where
  "targetGone (GetDeployment n (Inl e)) = IsNotFound e"
| "targetGone (GetStatefulSet n (Inl e)) = IsNotFound e"
| "targetGone _ = False"

fun scaled :: "int \<Rightarrow> workloadTarget \<Rightarrow> workloadTarget" where
  "scaled n (WDeployment d) = WDeployment (d\<lparr>dp_Replicas := Some n\<rparr>)"
| "scaled n (WStatefulSet s) = WStatefulSet (s\<lparr>ss_Replicas := Some n\<rparr>)"

fun answersPatch :: "action \<Rightarrow> workloadTarget option" where
  "answersPatch (PatchDeployment d d' (Inr d'')) = Some (WDeployment d'')"
| "answersPatch (PatchStatefulSet s s' (Inr s'')) = Some (WStatefulSet s'')"
| "answersPatch _ = None"

text \<open>
  The workload has no pods: it does not exist, or it was read (and where necessary patched) with
  zero replicas wanted, and the last answer shows none running.
\<close>

definition fencedBy :: "litestreamReplica \<Rightarrow> action list \<Rightarrow> bool" where
  "fencedBy db h \<longleftrightarrow>
     (\<exists>a\<in>set h. asksTarget db a \<and>
        (targetGone a \<or>
         (\<exists>wt. readsTarget a = Some wt \<and>
            (scaled 0 wt = wt \<and> runningReplicas wt \<le> 0 \<or>
             (\<exists>b\<in>set h. \<exists>wt'. patchesTarget b = Some (wt, scaled 0 wt) \<and>
                answersPatch b = Some wt' \<and> runningReplicas wt' \<le> 0)))))"

lemma fencedBy_append [simp]: "fencedBy db xs \<Longrightarrow> fencedBy db (h @ xs)" "fencedBy db h \<Longrightarrow> fencedBy db (h @ xs)"
  unfolding fencedBy_def by auto

lemma fencedBy_append_Cons [simp]: "fencedBy db xs \<Longrightarrow> fencedBy db (h @ a # xs)"
  using fencedBy_append(1) [of db xs "h @ [a]"] by simp

definition configRead :: "litestreamReplica \<Rightarrow> (string \<Rightarrow> bool) \<Rightarrow> action list \<Rightarrow> bool" where
  "configRead db P h \<longleftrightarrow>
     (\<exists>cm. GetConfigMap (db_Namespace db, db_Name db @ ''-litestream'') (Inr cm) \<in> set h \<and>
           P (lookup (cm_Data cm) litestreamConfigKey))"

lemma configRead_append [simp]: "configRead db P h \<Longrightarrow> configRead db P (h @ xs)"
  unfolding configRead_def by auto

definition received :: "litestreamRestore \<Rightarrow> action list \<Rightarrow> bool" where
  "received r h \<longleftrightarrow> readRestore h = Some r \<or> (\<exists>b n. PatchRestoreStatus b n (Inr r) \<in> set h)"

lemma received_append [simp]: "received r h \<Longrightarrow> received r (h @ xs)"
  unfolding received_def by auto

lemma received_start: "runStart h = Some (r, db) \<Longrightarrow> received r h"
  by (simp add: received_def runStart_readRestore)

section \<open>What each phase may do\<close>

text \<open>The calls that change something, by what they change.\<close>

datatype actKind = Reads | Announces | SendsStatus | PatchesReplica | Scales | CreatesJob | WritesConfig
  | TakesLock | ReleasesLock | UpdatesRestore | UpdatesReplica

fun kind :: "action \<Rightarrow> actKind" where
  "kind (PatchRestoreStatus b n r) = SendsStatus"
| "kind (PatchReplica b d r) = PatchesReplica"
| "kind (PatchDeployment d d' r) = Scales"
| "kind (PatchStatefulSet s s' r) = Scales"
| "kind (CreateJob j r) = CreatesJob"
| "kind (CreateLease l r) = TakesLock"
| "kind (DeleteLease l r) = ReleasesLock"
| "kind (CreateOrUpdateConfigMap cm f r) = WritesConfig"
| "kind (UpdateRestore b r) = UpdatesRestore"
| "kind (UpdateReplica d r) = UpdatesReplica"
| "kind (PatchReplicaStatus b d r) = UpdatesReplica"
| "kind (RecordEvent e) = Announces"
| "kind _ = Reads"

lemma kind_reads:
  assumes "Reads \<in> X"
  shows "emits (\<lambda>a. kind a \<in> X) (getTargetWorkloadForRestore K db)"
    "emits (\<lambda>a. kind a \<in> X) (resolveRestoreTarget K r db)"
    "emits (\<lambda>a. kind a \<in> X) (restoreJobPodLogs K ns n)"
  using assms unfolding getTargetWorkloadForRestore_def resolveRestoreTarget_def restoreJobPodLogs_def
  by (auto intro!: emits_intros)

lemma kind_status:
  assumes "SendsStatus \<in> X"
  shows "emits (\<lambda>a. kind a \<in> X) (setStatus K r ph j m o' st ct)"
    "emits (\<lambda>a. kind a \<in> X) (advance K r ph m ct)"
    "Announces \<in> X \<Longrightarrow> emits (\<lambda>a. kind a \<in> X) (failRestore K r msg)"
    "emits (\<lambda>a. kind a \<in> X) (storeResolved K r pvc p sp)"
  using assms unfolding advance_def setStatus_def failRestore_def storeResolved_def
  by (auto intro!: emits_intros)

lemma kind_changes:
  assumes "Reads \<in> X"
  shows "PatchesReplica \<in> X \<Longrightarrow> emits (\<lambda>a. kind a \<in> X) (pauseReplication K db)"
    "PatchesReplica \<in> X \<Longrightarrow> emits (\<lambda>a. kind a \<in> X) (resumeReplication K db)"
    "ReleasesLock \<in> X \<Longrightarrow> emits (\<lambda>a. kind a \<in> X) (releaseRestoreLock K r)"
    "Scales \<in> X \<Longrightarrow> emits (\<lambda>a. kind a \<in> X) (scaleWorkload K wt n)"
    "WritesConfig \<in> X \<Longrightarrow> emits (\<lambda>a. kind a \<in> X) (reconcileRestoreConfig K r db)"
  using assms unfolding pauseReplication_def resumeReplication_def releaseRestoreLock_def scaleWorkload_def
    reconcileRestoreConfig_def
  by (auto intro!: emits_intros)

lemmas kind_intros = emits_intros kind_reads kind_status kind_changes

lemma kind_handlers:
  "emits (\<lambda>a. kind a \<in> {Reads, Announces, SendsStatus, WritesConfig, CreatesJob}) (reconcilePending K r db)"
  "emits (\<lambda>a. kind a \<in> {Reads, Announces, SendsStatus, PatchesReplica, TakesLock}) (reconcileAcquiringLock K r db)"
  "emits (\<lambda>a. kind a \<in> {Reads, Announces, SendsStatus, PatchesReplica, Scales, WritesConfig, CreatesJob})
     (reconcileFencing K r db)"
  "emits (\<lambda>a. kind a \<in> {Reads, Announces, SendsStatus, PatchesReplica, ReleasesLock}) (reconcileRestoring K r db)"
  "emits (\<lambda>a. kind a \<in> {Reads, Announces, SendsStatus, PatchesReplica, Scales, ReleasesLock})
     (reconcileResuming K r db)"
  "emits (\<lambda>a. kind a \<in> {Reads, Announces, PatchesReplica, ReleasesLock, UpdatesRestore}) (handleFinalization K r db')"
  unfolding reconcilePending_def reconcileAcquiringLock_def reconcileFencing_def fenceWorkload_def
    reconcileRestoring_def reconcileResuming_def launchRestoreJob_def jobLaunched_def lockAcquired_def
    lockHeld_def restoreJobSucceeded_def restoreJobFailed_def failRestoreWithCleanup_def scaleUp_def
    finishRestore_def handleFinalization_def withResult_def Let_def
  by (intro kind_intros; simp)+

text \<open>A guard that concerns other kinds only holds of a handler.\<close>

lemma guards_kind: "emits (\<lambda>a. kind a \<in> X) m \<Longrightarrow> (\<And>h a. kind a \<in> X \<Longrightarrow> G h a) \<Longrightarrow> guards G h m"
  by (rule guards_emits)





section \<open>The Job is created behind a fence\<close>

definition fenceEvidence :: "action list \<Rightarrow> bool" where
  "fenceEvidence h \<longleftrightarrow>
     (\<exists>r db. runStart h = Some (r, db) \<and>
        ((lr_Phase r = [] \<or> lr_Phase r = RestorePhasePending) \<and>
           (\<exists>x. received x h \<and> lr_Mode x = RestoreModeToPVC) \<or>
         lr_Phase r = RestorePhaseFencing \<and> isPaused db \<and>
           configRead db (\<lambda>c. c = pausedConfig) h \<and> fencedBy db h))"

fun jobGuard :: "action list \<Rightarrow> action \<Rightarrow> bool" where
  "jobGuard h (CreateJob j r) = fenceEvidence h"
| "jobGuard h _ = True"

lemma jobGuard_kind: "kind a \<noteq> CreatesJob \<Longrightarrow> jobGuard h a"
  by (cases a) auto

lemma fenceEvidence_append [simp]: "fenceEvidence h \<Longrightarrow> fenceEvidence (h @ x)"
  unfolding fenceEvidence_def by (metis configRead_append fencedBy_append(2) received_append runStart_append)

lemma yields_fenceWorkload:
  "yields (\<lambda>a tr. a = None \<longrightarrow> fencedBy db tr) (fenceWorkload K r db)"
  unfolding fenceWorkload_def getTargetWorkloadForRestore_def scaleWorkload_def
    failRestore_def setStatus_def
  by (intro yields_intros; auto simp: fencedBy_def asksTarget_def)

lemma job_launch: "fenceEvidence h \<Longrightarrow> guards jobGuard h (launchRestoreJob K r db pvc p sp note o')"
  unfolding launchRestoreJob_def jobLaunched_def reconcileRestoreConfig_def setStatus_def withResult_def
  by (intro guards_intros; simp)

lemma job_pending:
  assumes "runStart h = Some (r, db)" "lr_Phase r = [] \<or> lr_Phase r = RestorePhasePending"
  shows "guards jobGuard h (reconcilePending K r db)"
  unfolding reconcilePending_def storeResolved_def resolveRestoreTarget_def
    getTargetWorkloadForRestore_def failRestore_def setStatus_def withResult_def
  using assms
  by (intro guards_intros job_launch; auto simp: fenceEvidence_def received_def runStart_readRestore)

lemma job_fencing:
  assumes "runStart h = Some (r, db)" "lr_Phase r = RestorePhaseFencing"
  shows "guards jobGuard h (reconcileFencing K r db)"
proof -
  have fence: "guards jobGuard h' (fenceWorkload K r db)" for h'
    unfolding fenceWorkload_def getTargetWorkloadForRestore_def scaleWorkload_def failRestore_def
      setStatus_def
    by (intro guards_intros; simp)
  show ?thesis
    unfolding reconcileFencing_def pauseReplication_def
    using assms
    by (intro guards_intros guards_bind [OF fence yields_fenceWorkload] job_launch;
        auto simp: fenceEvidence_def isPaused_def configRead_def)
qed

text \<open>C4. A restore Job is created only by a run that, before the creation, either works on a ToPVC
  restore in its first phase, or is in the phase \<open>Fencing\<close> and has seen in this very run that the
  replica carries the pause annotation, that \<open>litestream.yml\<close> is the paused one, and that the target
  workload does not exist or wants zero replicas and runs none.\<close>

theorem restore_job_behind_fence: "guards jobGuard [] (RestoreReconcile K req)"
proof (rule RestoreReconcile_guards)
  fix r db and h :: "action list"
  assume "runStart h = Some (r, db)"
  then show "guards jobGuard h (reconcilePhase K r db)"
    by (intro reconcilePhase_guards job_pending job_fencing)
       (auto intro!: guards_kind [OF kind_handlers(2)] guards_kind [OF kind_handlers(4)]
          guards_kind [OF kind_handlers(5)] guards_kind [OF kind_status(2) [of "{Reads, SendsStatus}"]]
          jobGuard_kind)
qed (auto intro!: guards_kind [OF kind_handlers(6)] guards_kind [OF kind_status(3) [of "{Announces, SendsStatus}"]]
       jobGuard_kind)

end
