(* ===== verification/Restore_Lock.thy ===== *)
theory Restore_Lock
  imports Restore_Safety
begin

text \<open>
  The lock of a restore (a Lease named after the replica) and the scaling of the workload: who
  acquires and releases the lock, what is done only under it, and when and to what count the
  workload is scaled.
\<close>

section \<open>Acting under the lock\<close>

definition leaseKey :: "litestreamRestore \<Rightarrow> nsname" where
  "leaseKey r = (lr_Namespace r, leaseName r)"

definition holdsLock :: "litestreamRestore \<Rightarrow> action list \<Rightarrow> bool" where
  "holdsLock r h \<longleftrightarrow>
     (\<exists>l. GetLease (leaseKey r) (Inr l) \<in> set h \<and> ls_HolderIdentity l = Some (lr_Name r)) \<or>
     (\<exists>l. CreateLease l None \<in> set h \<and> ls_HolderIdentity l = Some (lr_Name r))"

lemma holdsLock_append [simp]: "holdsLock r h \<Longrightarrow> holdsLock r (h @ x)"
  unfolding holdsLock_def by auto

text \<open>
  The pause and the phase \<open>Fencing\<close> begin under the lock: in the phase \<open>AcquiringLock\<close>, by a run that has
  the Lease in its own name. From then on the phase stands for the lock, and a run that reads
  \<open>Fencing\<close> may set a lost pause again without another look at the Lease.
\<close>

definition lockEvidence :: "action list \<Rightarrow> bool" where
  "lockEvidence h \<longleftrightarrow>
     (\<exists>r db. runStart h = Some (r, db) \<and> \<not> deleting r \<and> lr_Phase r = RestorePhaseAcquiringLock \<and>
        lr_Mode r \<noteq> RestoreModeToPVC \<and> holdsLock r h)"

definition pauseEvidence :: "action list \<Rightarrow> bool" where
  "pauseEvidence h \<longleftrightarrow>
     lockEvidence h \<or>
     (\<exists>r db. runStart h = Some (r, db) \<and> \<not> deleting r \<and> lr_Phase r = RestorePhaseFencing \<and> \<not> isPaused db)"

definition fencingEvidence :: "action list \<Rightarrow> bool" where
  "fencingEvidence h \<longleftrightarrow>
     lockEvidence h \<or>
     (\<exists>r db. runStart h = Some (r, db) \<and> \<not> deleting r \<and> lr_Phase r = RestorePhaseAcquiringLock \<and>
        lr_Mode r = RestoreModeToPVC)"

definition clearEvidence :: "action list \<Rightarrow> bool" where
  "clearEvidence h \<longleftrightarrow>
     (\<exists>r. readRestore h = Some r \<and>
        (deleting r \<or> lr_Phase r = RestorePhaseRestoring \<or> lr_Phase r = RestorePhaseResuming))"

definition freeLock :: "action list \<Rightarrow> lease \<Rightarrow> bool" where
  "freeLock h l \<longleftrightarrow>
     (\<exists>r db e. runStart h = Some (r, db) \<and> lr_Phase r = RestorePhaseAcquiringLock \<and>
        lr_Mode r \<noteq> RestoreModeToPVC \<and> ls_HolderIdentity l = Some (lr_Name r) \<and>
        GetLease (leaseKey r) (Inl e) \<in> set h \<and> IsNotFound e)"

fun lockGuard :: "action list \<Rightarrow> action \<Rightarrow> bool" where
  "lockGuard h (PatchReplica b d r) \<longleftrightarrow>
     d = setPause b \<and> pauseEvidence h \<or> d = clearPause b \<and> clearEvidence h"
| "lockGuard h (PatchRestoreStatus b n r) \<longleftrightarrow> lr_Phase n = RestorePhaseFencing \<longrightarrow> fencingEvidence h"
| "lockGuard h (CreateLease l r) \<longleftrightarrow> freeLock h l"
| "lockGuard h _ \<longleftrightarrow> True"

lemma lockGuard_kind: "kind a \<notin> {PatchesReplica, SendsStatus, TakesLock} \<Longrightarrow> lockGuard h a"
  by (cases a) auto

lemma lock_status:
  "ph \<noteq> RestorePhaseFencing \<Longrightarrow> guards lockGuard h (setStatus K r ph j m o' st ct)"
  "ph \<noteq> RestorePhaseFencing \<Longrightarrow> guards lockGuard h (advance K r ph m ct)"
  "guards lockGuard h (failRestore K r msg)"
  "lr_Phase r \<noteq> RestorePhaseFencing \<Longrightarrow> guards lockGuard h (storeResolved K r pvc p sp)"
  unfolding advance_def setStatus_def failRestore_def storeResolved_def
  by (auto intro!: guards_intros)

lemma evidence_append [simp]:
  "lockEvidence h \<Longrightarrow> lockEvidence (h @ x)" "pauseEvidence h \<Longrightarrow> pauseEvidence (h @ x)"
  "fencingEvidence h \<Longrightarrow> fencingEvidence (h @ x)" "clearEvidence h \<Longrightarrow> clearEvidence (h @ x)"
  unfolding lockEvidence_def pauseEvidence_def fencingEvidence_def clearEvidence_def by fastforce+

lemma lock_quiet:
  "guards lockGuard h (getTargetWorkloadForRestore K db)"
  "guards lockGuard h (resolveRestoreTarget K r db)"
  "guards lockGuard h (restoreJobPodLogs K ns n)"
  "guards lockGuard h (reconcileRestoreConfig K r db)"
  "guards lockGuard h (scaleWorkload K wt n')"
  "guards lockGuard h (releaseRestoreLock K r)"
  "clearEvidence h \<Longrightarrow> guards lockGuard h (resumeReplication K db)"
  "pauseEvidence h \<Longrightarrow> guards lockGuard h (pauseReplication K db)"
  unfolding getTargetWorkloadForRestore_def resolveRestoreTarget_def restoreJobPodLogs_def
    reconcileRestoreConfig_def scaleWorkload_def releaseRestoreLock_def resumeReplication_def
    pauseReplication_def
  by (intro guards_intros; simp)+

lemma lockAcquired_guards: "lockEvidence h \<Longrightarrow> guards lockGuard h (lockAcquired K r db)"
  unfolding lockAcquired_def advance_def setStatus_def withResult_def Let_def
  by (intro guards_intros guards_any [OF lock_quiet(8)]; simp add: pauseEvidence_def fencingEvidence_def)

lemma lock_lock:
  assumes start: "runStart h = Some (r, db)" "\<not> deleting r" and ph: "lr_Phase r = RestorePhaseAcquiringLock"
  shows "guards lockGuard h (reconcileAcquiringLock K r db)"
proof -
  have key: "leaseKey r = (lr_Namespace r, leaseName r)" by (simp add: leaseKey_def)
  show ?thesis
  proof (cases "lr_Mode r = RestoreModeToPVC")
    case True
    then show ?thesis
      using start ph unfolding reconcileAcquiringLock_def advance_def setStatus_def withResult_def
      by (auto intro!: guards_intros simp: fencingEvidence_def)
  next
    case False
    then have got: "lockEvidence (h @ x)" if "holdsLock r x" for x
      using start ph that by (auto simp: lockEvidence_def holdsLock_def)
    show ?thesis
      unfolding reconcileAcquiringLock_def lockHeld_def withResult_def Let_def
      using start ph False
      by (intro guards_intros lockAcquired_guards guards_any [OF lock_status(2)];
          auto simp: freeLock_def key newLease_def got holdsLock_def)
  qed
qed

lemma lock_launch: "guards lockGuard h (launchRestoreJob K r db pvc p sp note o')"
  unfolding launchRestoreJob_def jobLaunched_def withResult_def
  by (intro guards_intros guards_any [OF lock_quiet(4)] guards_any [OF lock_status(1)]; simp)

lemma lock_fencing:
  assumes "runStart h = Some (r, db)" "\<not> deleting r" "lr_Phase r = RestorePhaseFencing"
  shows "guards lockGuard h (reconcileFencing K r db)"
proof -
  have again: "pauseEvidence h" if "lookup (db_Annotations db) pauseAnnotation \<noteq> injectEnabled"
    using assms that by (auto simp: pauseEvidence_def isPaused_def)
  show ?thesis
    unfolding reconcileFencing_def fenceWorkload_def Let_def
    by (intro guards_intros lock_launch guards_any [OF lock_quiet(1)] guards_any [OF lock_quiet(5)]
          guards_any [OF lock_quiet(8)] guards_any [OF lock_status(3)];
        simp add: again)
qed

lemma lock_pending: "lr_Phase r \<noteq> RestorePhaseFencing \<Longrightarrow> guards lockGuard h (reconcilePending K r db)"
  unfolding reconcilePending_def withResult_def
  by (intro guards_intros lock_launch guards_any [OF lock_quiet(1)] guards_any [OF lock_quiet(2)]
        guards_any [OF lock_status(1)] guards_any [OF lock_status(3)] guards_any [OF lock_status(4)]; simp)

lemma lock_restoring: "clearEvidence h \<Longrightarrow> guards lockGuard h (reconcileRestoring K r db)"
  unfolding reconcileRestoring_def restoreJobSucceeded_def restoreJobFailed_def
    failRestoreWithCleanup_def withResult_def Let_def
  by (intro guards_intros guards_any [OF lock_quiet(3)] guards_any [OF lock_quiet(6)]
        guards_any [OF lock_quiet(7)] guards_any [OF lock_status(2)]
        guards_any [OF lock_status(1)]; simp)

lemma lock_resuming: "clearEvidence h \<Longrightarrow> guards lockGuard h (reconcileResuming K r db)"
  unfolding reconcileResuming_def scaleUp_def finishRestore_def withResult_def Let_def
  by (intro guards_intros guards_any [OF lock_quiet(1)] guards_any [OF lock_quiet(5)]
        guards_any [OF lock_quiet(6)] guards_any [OF lock_quiet(7)] guards_any [OF lock_status(2)]; simp)

lemma lock_finalization: "clearEvidence h \<Longrightarrow> guards lockGuard h (handleFinalization K r db)"
  unfolding handleFinalization_def
  by (intro guards_intros guards_any [OF lock_quiet(6)] guards_any [OF lock_quiet(7)]; simp)

text \<open>C5. Whatever a run does to the lock, the pause and the phase \<open>Fencing\<close>: it creates a Lease only in
  its own name, in the phase \<open>AcquiringLock\<close> of an InPlace restore, after reading that there is none. It
  writes the phase \<open>Fencing\<close> only from \<open>AcquiringLock\<close>, and for an InPlace restore only after this very
  run has read the Lease with its own name as the holder or has created it. It sets the pause only
  under the same evidence, or when it reads the phase \<open>Fencing\<close> and finds the pause gone. It clears
  the pause only when the restore is deleted or in the phases \<open>Restoring\<close> and \<open>Resuming\<close>, and changes
  nothing else of a replica.\<close>

theorem restore_lock_discipline: "guards lockGuard [] (RestoreReconcile K req)"
proof (rule RestoreReconcile_guards)
  fix r db and h :: "action list"
  assume start: "runStart h = Some (r, db)" "\<not> deleting r" "\<not> terminal (lr_Phase r)"
  have clear: "clearEvidence h" if "lr_Phase r = RestorePhaseRestoring \<or> lr_Phase r = RestorePhaseResuming"
    using that runStart_readRestore [OF start(1)] by (auto simp: clearEvidence_def)
  show "guards lockGuard h (reconcilePhase K r db)"
    by (intro reconcilePhase_guards lock_pending lock_lock lock_fencing lock_restoring lock_resuming
          lock_status(2) start clear) (auto simp: restore_phase_neq(1-8) [symmetric])
next
  fix r db and h :: "action list"
  assume "readRestore h = Some r" "deleting r"
  then show "guards lockGuard h (handleFinalization K r db)"
    by (intro lock_finalization) (auto simp: clearEvidence_def)
qed (simp_all add: lock_status)

section \<open>Releasing the lock\<close>

fun releaseGuard :: "action list \<Rightarrow> action \<Rightarrow> bool" where
  "releaseGuard h (DeleteLease l r) \<longleftrightarrow>
     (\<exists>x. readRestore h = Some x \<and> lr_Mode x \<noteq> RestoreModeToPVC \<and>
        (deleting x \<or> lr_Phase x = RestorePhaseRestoring \<or> lr_Phase x = RestorePhaseResuming) \<and>
        GetLease (leaseKey x) (Inr l) \<in> set h \<and> ls_HolderIdentity l = Some (lr_Name x))"
| "releaseGuard h _ \<longleftrightarrow> True"

lemma releaseGuard_kind: "kind a \<noteq> ReleasesLock \<Longrightarrow> releaseGuard h a"
  by (cases a) auto

lemma release_release:
  "readRestore h = Some x \<Longrightarrow> lr_Mode x \<noteq> RestoreModeToPVC \<Longrightarrow>
   deleting x \<or> lr_Phase x = RestorePhaseRestoring \<or> lr_Phase x = RestorePhaseResuming \<Longrightarrow>
   guards releaseGuard h (releaseRestoreLock K x)"
  unfolding releaseRestoreLock_def by (intro guards_intros; auto simp: leaseKey_def)

lemmas release_quiet = guards_kind [where G = releaseGuard, OF _ releaseGuard_kind]

lemma release_others:
  "guards releaseGuard h (advance K r ph m ct)" "guards releaseGuard h (setStatus K r ph j m o' st ct)"
  "guards releaseGuard h (failRestore K r msg)" "guards releaseGuard h (getTargetWorkloadForRestore K db)"
  "guards releaseGuard h (restoreJobPodLogs K ns n)" "guards releaseGuard h (scaleWorkload K wt n')"
  "guards releaseGuard h (resumeReplication K db)"
  by (rule release_quiet [where X = "{Reads, Announces, SendsStatus, Scales, PatchesReplica}"],
      (intro kind_status kind_reads kind_changes; simp), force)+

lemma release_restoring:
  "readRestore h = Some r \<Longrightarrow> lr_Phase r = RestorePhaseRestoring \<Longrightarrow>
   guards releaseGuard h (reconcileRestoring K r db)"
  unfolding reconcileRestoring_def restoreJobSucceeded_def restoreJobFailed_def
    failRestoreWithCleanup_def withResult_def Let_def
  by (intro guards_intros guards_any [OF release_release] release_others [THEN guards_any]; simp)

lemma release_resuming:
  "readRestore h = Some r \<Longrightarrow> lr_Phase r = RestorePhaseResuming \<Longrightarrow>
   guards releaseGuard h (reconcileResuming K r db)"
  unfolding reconcileResuming_def scaleUp_def finishRestore_def withResult_def Let_def
  by (intro guards_intros guards_any [OF release_release] release_others [THEN guards_any]; simp)

lemma release_finalization:
  "readRestore h = Some r \<Longrightarrow> deleting r \<Longrightarrow> guards releaseGuard h (handleFinalization K r db)"
  unfolding handleFinalization_def
  by (intro guards_intros guards_any [OF release_release] release_others [THEN guards_any]; simp)

text \<open>C6. A Lease is deleted only when this very run read it under the name of its own replica and
  found its own restore as the holder, and only by a deleted restore or in the phases \<open>Restoring\<close> and
  \<open>Resuming\<close> of an InPlace restore: no restore ever takes the lock away from another one.\<close>

theorem restore_releases_own_lock: "guards releaseGuard [] (RestoreReconcile K req)"
proof (rule RestoreReconcile_guards)
  fix r db and h :: "action list"
  assume "runStart h = Some (r, db)"
  then have "readRestore h = Some r" by (rule runStart_readRestore)
  then show "guards releaseGuard h (reconcilePhase K r db)"
    by (intro reconcilePhase_guards release_restoring release_resuming release_others(1)
          kind_handlers [THEN release_quiet]) auto
qed (simp_all add: release_finalization release_others)

section \<open>Scaling the workload\<close>

definition scaleEvidence :: "action list \<Rightarrow> workloadTarget \<Rightarrow> workloadTarget \<Rightarrow> bool" where
  "scaleEvidence h wt wt' \<longleftrightarrow>
     (\<exists>r db n. runStart h = Some (r, db) \<and> wt' = scaled n wt \<and>
        (\<exists>a\<in>set h. asksTarget db a \<and> readsTarget a = Some wt) \<and>
        (lr_Phase r = RestorePhaseFencing \<and> n = 0 \<and> isPaused db \<and>
           configRead db (\<lambda>c. c = pausedConfig) h \<or>
         lr_Phase r = RestorePhaseResuming \<and> n = restoredReplicas r \<and> n > 0 \<and>
           configRead db (\<lambda>c. c \<noteq> pausedConfig) h))"

definition scaleGuard :: "action list \<Rightarrow> action \<Rightarrow> bool" where
  "scaleGuard h a \<longleftrightarrow> (\<forall>wt wt'. patchesTarget a = Some (wt, wt') \<longrightarrow> scaleEvidence h wt wt')"

lemma scaleGuard_simps [simp]:
  "scaleGuard h (PatchDeployment d d' r) \<longleftrightarrow> scaleEvidence h (WDeployment d) (WDeployment d')"
  "scaleGuard h (PatchStatefulSet s s' r2) \<longleftrightarrow> scaleEvidence h (WStatefulSet s) (WStatefulSet s')"
  "patchesTarget a = None \<Longrightarrow> scaleGuard h a"
  by (simp_all add: scaleGuard_def)

lemma scaleGuard_kind: "kind a \<noteq> Scales \<Longrightarrow> scaleGuard h a"
  by (cases a) auto

lemmas scale_quiet = guards_kind [where G = scaleGuard, OF _ scaleGuard_kind]

lemma scale_others:
  "guards scaleGuard h (advance K r ph m ct)" "guards scaleGuard h (setStatus K r ph j m o' st ct)"
  "guards scaleGuard h (failRestore K r msg)" "guards scaleGuard h (pauseReplication K db)"
  "guards scaleGuard h (resumeReplication K db)" "guards scaleGuard h (releaseRestoreLock K r)"
  by (rule scale_quiet [where X = "{Reads, Announces, SendsStatus, ReleasesLock, PatchesReplica}"],
      (intro kind_status kind_reads kind_changes; simp), force)+

lemma scale_launch: "guards scaleGuard h (launchRestoreJob K r db pvc p sp note o')"
  unfolding launchRestoreJob_def jobLaunched_def withResult_def reconcileRestoreConfig_def
  by (intro guards_intros scale_others [THEN guards_any]; simp)

lemma scale_fencing:
  "runStart h = Some (r, db) \<Longrightarrow> lr_Phase r = RestorePhaseFencing \<Longrightarrow>
   guards scaleGuard h (reconcileFencing K r db)"
  unfolding reconcileFencing_def fenceWorkload_def getTargetWorkloadForRestore_def scaleWorkload_def
  by (intro guards_intros scale_others [THEN guards_any] scale_launch;
      auto simp: scaleEvidence_def asksTarget_def configRead_def isPaused_def)

lemma scale_resuming:
  "runStart h = Some (r, db) \<Longrightarrow> lr_Phase r = RestorePhaseResuming \<Longrightarrow>
   guards scaleGuard h (reconcileResuming K r db)"
  unfolding reconcileResuming_def scaleUp_def finishRestore_def withResult_def Let_def
    getTargetWorkloadForRestore_def scaleWorkload_def
  by (intro guards_intros scale_others [THEN guards_any];
      auto simp: scaleEvidence_def asksTarget_def configRead_def)

text \<open>C7. A workload patch changes the replica count and nothing else, on the workload that the replica
  names as this run read it: to zero in the phase \<open>Fencing\<close>, with the pause annotation and the paused
  \<open>litestream.yml\<close> seen before, or to the recorded positive count in the phase \<open>Resuming\<close>, after a
  \<open>litestream.yml\<close> that is not paused has been seen.\<close>

theorem restore_scaling: "guards scaleGuard [] (RestoreReconcile K req)"
proof (rule RestoreReconcile_guards)
  fix r db and h :: "action list"
  assume "runStart h = Some (r, db)"
  then show "guards scaleGuard h (reconcilePhase K r db)"
    by (intro reconcilePhase_guards scale_fencing scale_resuming scale_others(1)
          kind_handlers [THEN scale_quiet]) auto
qed (auto simp: scale_others intro!: kind_handlers(6) [THEN scale_quiet])

end
