(* ===== verification/Restore_Exclusion.thy ===== *)
theory Restore_Exclusion
  imports Restore_Lock
begin

text \<open>
  The restores of a cluster together. The theories before this one speak of one run against an
  arbitrary cluster; here the runs of all restores interleave, call by call, over the Leases that
  the API server stores. A run can stop anywhere (it ends, fails or the process dies), a write may
  take effect although its answer is an error, and reads of Leases are current or, with the flag
  off, as old as an informer cache may return them.
\<close>

section \<open>The discipline of one run\<close>

definition restoreKey :: "litestreamRestore \<Rightarrow> nsname" where
  "restoreKey r = (lr_Namespace r, lr_Name r)"

definition leaseAt :: "lease \<Rightarrow> nsname" where
  "leaseAt l = (om_Namespace (ls_Meta l), om_Name (ls_Meta l))"

text \<open>\<open>SetControllerReference\<close> adds an owner reference; the object keeps its name.\<close>

definition owner_law :: "lib \<Rightarrow> bool" where
  "owner_law L \<longleftrightarrow> (\<forall>ow m m'. l_SetControllerReference L ow m = Inr m' \<longrightarrow>
     om_Name m' = om_Name m \<and> om_Namespace m' = om_Namespace m)"

definition acquiring :: "action list \<Rightarrow> litestreamRestore \<Rightarrow> bool" where
  "acquiring h r \<longleftrightarrow> readRestore h = Some r \<and> \<not> deleting r \<and> lr_Phase r = RestorePhaseAcquiringLock"

fun moveGuard :: "action list \<Rightarrow> action \<Rightarrow> bool" where
  "moveGuard h (CreateLease l x) \<longleftrightarrow>
     (\<exists>r. acquiring h r \<and> lr_Mode r \<noteq> RestoreModeToPVC \<and> leaseAt l = leaseKey r \<and>
        ls_HolderIdentity l = Some (lr_Name r))"
| "moveGuard h (DeleteLease l x) \<longleftrightarrow>
     (\<exists>r h'. readRestore h = Some r \<and> lr_Mode r \<noteq> RestoreModeToPVC \<and>
        (deleting r \<or> lr_Phase r = RestorePhaseRestoring \<or> lr_Phase r = RestorePhaseResuming) \<and>
        h = h' @ [GetLease (leaseKey r) (Inr l)] \<and> ls_HolderIdentity l = Some (lr_Name r))"
| "moveGuard h (PatchRestoreStatus b n x) \<longleftrightarrow>
     lr_Phase n = RestorePhaseFencing \<and> lr_Phase b \<noteq> RestorePhaseFencing \<longrightarrow>
       (\<exists>r. acquiring h r \<and> restoreKey b = restoreKey r \<and> lr_Spec b = lr_Spec r \<and>
          (lr_Mode r = RestoreModeToPVC \<or> holdsLock r h))"
| "moveGuard h _ \<longleftrightarrow> True"

lemma moveGuard_kind: "kind a \<notin> {SendsStatus, TakesLock, ReleasesLock} \<Longrightarrow> moveGuard h a"
  by (cases a) auto

lemmas move_quiet = guards_kind [where G = moveGuard, OF _ moveGuard_kind]

lemma move_status:
  "ph \<noteq> RestorePhaseFencing \<Longrightarrow> guards moveGuard h (setStatus K r ph j m o' st ct)"
  "ph \<noteq> RestorePhaseFencing \<Longrightarrow> guards moveGuard h (advance K r ph m ct)"
  "guards moveGuard h (failRestore K r msg)"
  "guards moveGuard h (storeResolved K r pvc p sp)"
  unfolding advance_def setStatus_def failRestore_def storeResolved_def
  by (auto intro!: guards_intros)

lemma move_others:
  "guards moveGuard h (getTargetWorkloadForRestore K db)"
  "guards moveGuard h (resolveRestoreTarget K r db)"
  "guards moveGuard h (restoreJobPodLogs K ns n)"
  "guards moveGuard h (reconcileRestoreConfig K r db)"
  "guards moveGuard h (scaleWorkload K wt n')"
  "guards moveGuard h (resumeReplication K db)"
  "guards moveGuard h (pauseReplication K db)"
  by (rule move_quiet [where X = "{Reads, Scales, PatchesReplica, WritesConfig}"],
      (intro kind_reads kind_changes; simp), force)+

lemma move_release:
  "readRestore h = Some r \<Longrightarrow> lr_Mode r \<noteq> RestoreModeToPVC \<Longrightarrow>
   deleting r \<or> lr_Phase r = RestorePhaseRestoring \<or> lr_Phase r = RestorePhaseResuming \<Longrightarrow>
   guards moveGuard h (releaseRestoreLock K r)"
  unfolding releaseRestoreLock_def by (intro guards_intros; auto simp: leaseKey_def)

lemma acquiring_append [simp]: "acquiring h r \<Longrightarrow> acquiring (h @ x) r"
  by (simp add: acquiring_def)

lemma move_acquired:
  assumes "acquiring h r" "lr_Mode r \<noteq> RestoreModeToPVC" "holdsLock r h"
  shows "guards moveGuard h (lockAcquired K r db)"
proof -
  have step: "moveGuard (h @ x) (PatchRestoreStatus b n y)"
    if "restoreKey b = restoreKey r" "lr_Spec b = lr_Spec r" for x b n y
    using that assms by (auto intro!: exI [of _ r])
  show ?thesis
    unfolding lockAcquired_def advance_def setStatus_def withResult_def Let_def
    by (intro guards_intros guards_any [OF move_others(7)])
       (simp_all only: append_assoc, auto intro!: step simp: restoreKey_def simp del: moveGuard.simps(3))
qed

lemma move_lock:
  assumes "owner_law (k_Lib K)" "acquiring h r"
  shows "guards moveGuard h (reconcileAcquiringLock K r db)"
proof (cases "lr_Mode r = RestoreModeToPVC")
  case True
  then show ?thesis
    using assms unfolding reconcileAcquiringLock_def advance_def setStatus_def withResult_def
    by (auto intro!: guards_intros)
next
  case False
  have owned: "leaseAt (newLease r t\<lparr>ls_Meta := m\<rparr>) = leaseKey r"
    if "l_SetControllerReference (k_Lib K) (lr_Meta r) (ls_Meta (newLease r t)) = Inr m" for t m
    using that assms(1) by (fastforce simp: owner_law_def leaseAt_def leaseKey_def newLease_def)
  have holder: "ls_HolderIdentity (newLease r t) = Some (lr_Name r)" for t by (simp add: newLease_def)
  show ?thesis
    unfolding reconcileAcquiringLock_def lockHeld_def withResult_def Let_def
    using assms(2) False
    by (intro guards_intros move_acquired guards_any [OF move_status(2)];
        auto simp: owned holder holdsLock_def leaseKey_def intro!: exI [of _ r])
qed

lemma move_restoring:
  "readRestore h = Some r \<Longrightarrow> lr_Phase r = RestorePhaseRestoring \<Longrightarrow>
   guards moveGuard h (reconcileRestoring K r db)"
  unfolding reconcileRestoring_def restoreJobSucceeded_def restoreJobFailed_def
    failRestoreWithCleanup_def withResult_def Let_def
  by (intro guards_intros guards_any [OF move_release] move_others [THEN guards_any]
        move_status(1,2) [THEN guards_any]; simp)

lemma move_resuming:
  "readRestore h = Some r \<Longrightarrow> lr_Phase r = RestorePhaseResuming \<Longrightarrow>
   guards moveGuard h (reconcileResuming K r db)"
  unfolding reconcileResuming_def scaleUp_def finishRestore_def withResult_def Let_def
  by (intro guards_intros guards_any [OF move_release] move_others [THEN guards_any]
        move_status(2) [THEN guards_any]; simp)

lemma move_pending: "guards moveGuard h (reconcilePending K r db)"
  unfolding reconcilePending_def launchRestoreJob_def jobLaunched_def withResult_def
  by (intro guards_intros move_others [THEN guards_any] move_status(1) [THEN guards_any]
        move_status(3,4) [THEN guards_any]; simp)

lemma move_fencing: "guards moveGuard h (reconcileFencing K r db)"
  unfolding reconcileFencing_def fenceWorkload_def launchRestoreJob_def jobLaunched_def withResult_def
    Let_def
  by (intro guards_intros move_others [THEN guards_any] move_status(1) [THEN guards_any]
        move_status(3) [THEN guards_any]; simp)

lemma move_finalization:
  "readRestore h = Some r \<Longrightarrow> deleting r \<Longrightarrow> guards moveGuard h (handleFinalization K r db)"
  unfolding handleFinalization_def
  by (intro guards_intros guards_any [OF move_release] move_others [THEN guards_any]; simp)

lemma run_moves: "owner_law (k_Lib K) \<Longrightarrow> guards moveGuard [] (RestoreReconcile K req)"
proof (rule RestoreReconcile_guards)
  fix r db and h :: "action list"
  assume law: "owner_law (k_Lib K)" and start: "runStart h = Some (r, db)" and live: "\<not> deleting r"
  note read = runStart_readRestore [OF start]
  have "acquiring h r" if "lr_Phase r = RestorePhaseAcquiringLock"
    using that live read by (simp add: acquiring_def)
  with law read show "guards moveGuard h (reconcilePhase K r db)"
    by (intro reconcilePhase_guards move_pending move_lock move_fencing move_restoring move_resuming
          move_status(2)) simp_all
qed (simp_all add: move_finalization move_status)

section \<open>All runs together\<close>

text \<open>
  The part of the cluster that matters: the holder of each Lease, every holder a Lease ever had,
  the phases and the deletion marks of the restores, the calls of the run each restore is in, and
  - a ghost - the restores that went to \<open>Fencing\<close> and have not released their Lease since.
\<close>

record system =
  sy_leases :: "nsname \<Rightarrow> string option option"
  sy_past :: "(nsname \<times> string option) set"
  sy_phase :: "nsname \<Rightarrow> string"
  sy_deleting :: "nsname set"
  sy_runs :: "nsname \<Rightarrow> action list"
  sy_inside :: "(nsname \<times> nsname) set"

definition emptySystem :: system where
  "emptySystem = \<lparr>sy_leases = Map.empty, sy_past = {}, sy_phase = (\<lambda>_. []), sy_deleting = {},
     sy_runs = (\<lambda>_. []), sy_inside = {}\<rparr>"

text \<open>
  A list of calls is (the beginning of) a run when the reconciler makes it against some cluster. A
  world that counts the calls can give any sequence of answers, so nothing is lost by fixing it.
\<close>

definition runTrace :: "nsname \<Rightarrow> action list \<Rightarrow> bool" where
  "runTrace req tr \<longleftrightarrow> (\<exists>(K :: nat kube) s rest. owner_law (k_Lib K) \<and>
     trace (snd (run_state (RestoreReconcile K req) s)) = trace s @ tr @ rest)"

text \<open>
  The answers that the API server may give. A restore is read as it is stored, with the spec it was
  created with. A Lease is read as it is stored, or - when reads are served from a cache - as it
  was at some earlier time. A Lease is created only when there is none.
\<close>

fun allowed :: "bool \<Rightarrow> (nsname \<Rightarrow> litestreamRestoreSpec) \<Rightarrow> system \<Rightarrow> action \<Rightarrow> bool" where
  "allowed fresh sp s (GetRestore n (Inr r)) \<longleftrightarrow>
     restoreKey r = n \<and> lr_Spec r = sp n \<and> lr_Phase r = sy_phase s n \<and> (deleting r \<longleftrightarrow> n \<in> sy_deleting s)"
| "allowed fresh sp s (GetLease n (Inr l)) \<longleftrightarrow> leaseAt l = n \<and>
     (if fresh then sy_leases s n = Some (ls_HolderIdentity l) else (n, ls_HolderIdentity l) \<in> sy_past s)"
| "allowed fresh sp s (CreateLease l None) \<longleftrightarrow> sy_leases s (leaseAt l) = None"
| "allowed fresh sp s _ \<longleftrightarrow> True"

fun succeeded :: "action \<Rightarrow> bool" where
  "succeeded (CreateLease l None) = True"
| "succeeded (DeleteLease l None) = True"
| "succeeded (PatchRestoreStatus b n (Inr r)) = True"
| "succeeded _ = False"

text \<open>What a call does to the store when it takes effect. Deletion is by name, without precondition.\<close>

fun stored :: "nsname \<Rightarrow> action \<Rightarrow> system \<Rightarrow> system" where
  "stored req (CreateLease l x) s =
     (if sy_leases s (leaseAt l) = None
      then s\<lparr>sy_leases := (sy_leases s)(leaseAt l \<mapsto> ls_HolderIdentity l),
             sy_past := insert (leaseAt l, ls_HolderIdentity l) (sy_past s)\<rparr>
      else s)"
| "stored req (DeleteLease l x) s =
     s\<lparr>sy_leases := (sy_leases s)(leaseAt l := None),
       sy_inside := sy_inside s - {(req, leaseAt l)}\<rparr>"
| "stored req (PatchRestoreStatus b n x) s =
     (if lr_Phase n = lr_Phase b then s
      else s\<lparr>sy_phase := (sy_phase s)(restoreKey b := lr_Phase n),
             sy_inside := (if lr_Phase n = RestorePhaseFencing \<and> lr_Mode b \<noteq> RestoreModeToPVC
               then insert (req, leaseKey b) (sy_inside s) else sy_inside s)\<rparr>)"
| "stored req _ s = s"

definition logged :: "nsname \<Rightarrow> action \<Rightarrow> system \<Rightarrow> system" where
  "logged req a s = s\<lparr>sy_runs := (sy_runs s)(req := sy_runs s req @ [a])\<rparr>"

inductive reaches :: "bool \<Rightarrow> (nsname \<Rightarrow> litestreamRestoreSpec) \<Rightarrow> system \<Rightarrow> bool" for fresh sp where
  initial: "reaches fresh sp emptySystem"
| effective: "reaches fresh sp s \<Longrightarrow> runTrace req (sy_runs s req @ [a]) \<Longrightarrow> allowed fresh sp s a \<Longrightarrow>
    reaches fresh sp (logged req a (stored req a s))"
| ineffective: "reaches fresh sp s \<Longrightarrow> runTrace req (sy_runs s req @ [a]) \<Longrightarrow> allowed fresh sp s a \<Longrightarrow>
    \<not> succeeded a \<Longrightarrow> reaches fresh sp (logged req a s)"
| stopped: "reaches fresh sp s \<Longrightarrow> reaches fresh sp (s\<lparr>sy_runs := (sy_runs s)(req := [])\<rparr>)"
| deleted: "reaches fresh sp s \<Longrightarrow> reaches fresh sp (s\<lparr>sy_deleting := insert req (sy_deleting s)\<rparr>)"

section \<open>The invariant\<close>

declare split_paired_All [simp del] split_paired_Ex [simp del]

definition keyOf :: "(nsname \<Rightarrow> litestreamRestoreSpec) \<Rightarrow> nsname \<Rightarrow> nsname" where
  "keyOf sp req = (fst req, ''litestream-restore-'' @ sr_Name (rsp_SourceRef (sp req)))"

definition owned :: "system \<Rightarrow> nsname \<Rightarrow> nsname \<Rightarrow> bool" where
  "owned s req n \<longleftrightarrow> sy_leases s n = Some (Some (snd req)) \<and> fst n = fst req"

definition insideOwned :: "system \<Rightarrow> bool" where
  "insideOwned s \<longleftrightarrow> (\<forall>req n. (req, n) \<in> sy_inside s \<longrightarrow> owned s req n)"

definition phaseInside :: "(nsname \<Rightarrow> litestreamRestoreSpec) \<Rightarrow> system \<Rightarrow> bool" where
  "phaseInside sp s \<longleftrightarrow> (\<forall>req. sy_phase s req = RestorePhaseFencing \<longrightarrow> req \<notin> sy_deleting s \<longrightarrow>
     rsp_Mode (sp req) \<noteq> RestoreModeToPVC \<longrightarrow> (req, keyOf sp req) \<in> sy_inside s)"

text \<open>What a run knows from its first read, and from a read of its Lease just before.\<close>

definition readOK :: "(nsname \<Rightarrow> litestreamRestoreSpec) \<Rightarrow> system \<Rightarrow> nsname \<Rightarrow> action list \<Rightarrow> litestreamRestore \<Rightarrow> bool" where
  "readOK sp s req h r \<longleftrightarrow>
     restoreKey r = req \<and> lr_Spec r = sp req \<and> (deleting r \<longrightarrow> req \<in> sy_deleting s) \<and>
     (lr_Phase r = RestorePhaseFencing \<longrightarrow> \<not> deleting r \<longrightarrow> lr_Mode r \<noteq> RestoreModeToPVC \<longrightarrow>
        (req, leaseKey r) \<in> sy_inside s) \<and>
     (lr_Phase r \<notin> {RestorePhaseAcquiringLock, RestorePhaseFencing} \<longrightarrow> sy_phase s req \<noteq> RestorePhaseFencing) \<and>
     (acquiring h r \<longrightarrow> lr_Mode r \<noteq> RestoreModeToPVC \<longrightarrow> holdsLock r h \<longrightarrow> owned s req (leaseKey r))"

definition lastOK :: "system \<Rightarrow> nsname \<Rightarrow> action list \<Rightarrow> bool" where
  "lastOK s req h \<longleftrightarrow> (\<forall>h' n l. h = h' @ [GetLease n (Inr l)] \<longrightarrow> leaseAt l = n \<and>
     (ls_HolderIdentity l = Some (snd req) \<longrightarrow> fst n = fst req \<longrightarrow> owned s req n))"

definition runOK :: "(nsname \<Rightarrow> litestreamRestoreSpec) \<Rightarrow> system \<Rightarrow> nsname \<Rightarrow> action list \<Rightarrow> bool" where
  "runOK sp s req h \<longleftrightarrow> guarded moveGuard [] h \<and> (\<forall>r. readRestore h = Some r \<longrightarrow> readOK sp s req h r) \<and>
     lastOK s req h"

definition systemOK :: "(nsname \<Rightarrow> litestreamRestoreSpec) \<Rightarrow> system \<Rightarrow> bool" where
  "systemOK sp s \<longleftrightarrow> insideOwned s \<and> phaseInside sp s \<and> (\<forall>req. runOK sp s req (sy_runs s req))"

lemma leaseKey_keyOf: "restoreKey r = req \<Longrightarrow> lr_Spec r = sp req \<Longrightarrow> leaseKey r = keyOf sp req"
  by (auto simp: leaseKey_def leaseName_def keyOf_def restoreKey_def)

lemma restoreKey_parts: "restoreKey r = req \<Longrightarrow> lr_Namespace r = fst req \<and> lr_Name r = snd req"
  by (auto simp: restoreKey_def)

lemma runTrace_guarded: "runTrace req tr \<Longrightarrow> guarded moveGuard [] tr"
proof -
  assume "runTrace req tr"
  then obtain K :: "nat kube" and s rest where law: "owner_law (k_Lib K)"
    and tr: "trace (snd (run_state (RestoreReconcile K req) s)) = trace s @ tr @ rest"
    unfolding runTrace_def by blast
  obtain a s' where run: "run_state (RestoreReconcile K req) s = (a, s')" by fastforce
  from guardsD [OF run_moves [OF law] run] tr run show ?thesis
    by (auto simp: guarded_append)
qed

lemma RestoreReconcile_first:
  "guards (\<lambda>h a. h = [] \<longrightarrow> (\<exists>x. a = GetRestore req x)) [] (RestoreReconcile K req)"
proof -
  have rest: "guards (\<lambda>h a. h = [] \<longrightarrow> (\<exists>x. a = GetRestore req x)) h m" if "h \<noteq> []" "emits (\<lambda>_. True) m"
    for h and m :: "('a, 'b) handler"
  proof -
    have "guarded (\<lambda>h a. h = [] \<longrightarrow> (\<exists>x. a = GetRestore req x)) h' tr" if "h' \<noteq> []" for h' tr
      using that by (induction tr arbitrary: h') auto
    then show ?thesis
      using that unfolding guards_def emits_def by (auto elim: yields_weaken)
  qed
  have any: "emits (\<lambda>_. True) m" if "emits P m" for P and m :: "('a, 'b) handler"
    using that by (rule emits_weaken) simp
  have phase: "emits (\<lambda>_. True) (reconcilePhase K r db)" for r db
    unfolding reconcilePhase_def withResult_def Let_def
    by (intro emits_intros kind_handlers [THEN any] kind_status(2) [of UNIV, THEN any]; simp)
  note others = phase kind_handlers(6) [THEN any] kind_status(3) [of UNIV, THEN any, OF UNIV_I UNIV_I]
  show ?thesis
    unfolding RestoreReconcile_def withResult_def
  proof (rule guards_call_bind, goal_cases)
    case (2 x)
    show ?case by (rule rest, simp) (intro emits_intros others; simp)
  qed simp
qed

lemma runTrace_first: "runTrace req (a # tr) \<Longrightarrow> \<exists>x. a = GetRestore req x"
proof -
  assume "runTrace req (a # tr)"
  then obtain K :: "nat kube" and s rest where
    tr: "trace (snd (run_state (RestoreReconcile K req) s)) = trace s @ (a # tr) @ rest"
    unfolding runTrace_def by blast
  obtain x s' where run: "run_state (RestoreReconcile K req) s = (x, s')" by fastforce
  from guardsD [OF RestoreReconcile_first run] tr run show ?thesis by auto
qed

lemma readRestore_snoc: "h \<noteq> [] \<Longrightarrow> readRestore (h @ [a]) = readRestore h"
  by (cases h rule: readRestore.cases) auto

text \<open>One call of \<open>req\<close>: \<open>s'\<close> is the store after it, whether it took effect or not.\<close>

definition called :: "system \<Rightarrow> nsname \<Rightarrow> action \<Rightarrow> system \<Rightarrow> bool" where
  "called s req a s' \<longleftrightarrow> s' = stored req a s \<or> (s' = s \<and> \<not> succeeded a)"

definition calls :: "(nsname \<Rightarrow> litestreamRestoreSpec) \<Rightarrow> system \<Rightarrow> nsname \<Rightarrow> action \<Rightarrow> system \<Rightarrow> bool" where
  "calls sp s req a s' \<longleftrightarrow> systemOK sp s \<and> runTrace req (sy_runs s req @ [a]) \<and> allowed True sp s a \<and> called s req a s'"

lemma calls_facts:
  assumes "calls sp s req a s'"
  shows "insideOwned s" "phaseInside sp s" "runOK sp s q (sy_runs s q)" "moveGuard (sy_runs s req) a"
    "guarded moveGuard [] (sy_runs s req @ [a])" "called s req a s'" "allowed True sp s a"
  using assms runTrace_guarded [of req "sy_runs s req @ [a]"]
  by (auto simp: calls_def systemOK_def guarded_append)

lemma stored_fixed [simp]:
  "sy_deleting (stored req a s) = sy_deleting s" "sy_runs (stored req a s) = sy_runs s"
  by (cases "(req, a, s)" rule: stored.cases; simp)+

lemma called_fixed:
  "called s req a s' \<Longrightarrow> sy_deleting s' = sy_deleting s \<and> sy_runs s' = sy_runs s"
  by (auto simp: called_def)

text \<open>A deletion concerns the Lease that the run owns.\<close>

lemma deletes_own:
  assumes "calls sp s req (DeleteLease l x) s'"
  obtains r where "readRestore (sy_runs s req) = Some r" "readOK sp s req (sy_runs s req) r"
    "leaseAt l = leaseKey r" "owned s req (leaseAt l)"
    "deleting r \<or> lr_Phase r = RestorePhaseRestoring \<or> lr_Phase r = RestorePhaseResuming"
proof -
  obtain r h' where r: "readRestore (sy_runs s req) = Some r" "sy_runs s req = h' @ [GetLease (leaseKey r) (Inr l)]"
      "ls_HolderIdentity l = Some (lr_Name r)"
      "deleting r \<or> lr_Phase r = RestorePhaseRestoring \<or> lr_Phase r = RestorePhaseResuming"
    using calls_facts(4) [OF assms] by auto
  have ok: "readOK sp s req (sy_runs s req) r" "lastOK s req (sy_runs s req)"
    using calls_facts(3) [OF assms, of req] r(1) by (simp_all add: runOK_def)
  have "fst (leaseKey r) = fst req" "lr_Name r = snd req"
    using ok(1) by (auto simp: readOK_def leaseKey_def restoreKey_def)
  then have "leaseAt l = leaseKey r" "owned s req (leaseAt l)"
    using ok(2) r(2,3) unfolding lastOK_def by auto
  then show thesis using that r ok(1) by blast
qed

lemma owned_kept:
  assumes c: "calls sp s req a s'" and o: "owned s q n"
    and own: "q = req \<Longrightarrow> (\<And>l x. a \<noteq> DeleteLease l x)"
  shows "owned s' q n"
proof (cases a)
  case (DeleteLease l x)
  with c have "calls sp s req (DeleteLease l x) s'" by simp
  then obtain r where "owned s req (leaseAt l)" by (rule deletes_own)
  moreover have "q \<noteq> req" using own DeleteLease by blast
  ultimately have "leaseAt l \<noteq> n" using o unfolding owned_def by (metis option.inject prod_eqI)
  then show ?thesis
    using calls_facts(6) [OF c] DeleteLease o by (auto simp: called_def owned_def)
qed (use calls_facts(6) [OF c] o in \<open>auto simp: called_def owned_def\<close>)

text \<open>Who is inside after a call.\<close>

lemma inside_after:
  assumes "calls sp s req a s'" "(q, n) \<in> sy_inside s'"
  shows "(q, n) \<in> sy_inside s \<and> (q = req \<longrightarrow> (\<forall>l x. a = DeleteLease l x \<longrightarrow> n = leaseAt l \<longrightarrow> s' = s)) \<or>
    q = req \<and> (\<exists>r. acquiring (sy_runs s req) r \<and> holdsLock r (sy_runs s req) \<and>
      lr_Mode r \<noteq> RestoreModeToPVC \<and> n = leaseKey r) \<and> (\<forall>l x. a \<noteq> DeleteLease l x)"
  using calls_facts(4,6) [OF assms(1)] assms(2)
  by (cases a) (auto simp: called_def leaseKey_def restoreKey_def leaseName_def split: if_splits)

lemma inside_kept:
  "called s req a s' \<Longrightarrow> (q, n) \<in> sy_inside s \<Longrightarrow> q \<noteq> req \<or> (\<forall>l x. a \<noteq> DeleteLease l x) \<Longrightarrow>
   (q, n) \<in> sy_inside s'"
  by (cases a) (auto simp: called_def)

lemma runOK_read: "runOK sp s req h \<Longrightarrow> readRestore h = Some r \<Longrightarrow> readOK sp s req h r"
  by (simp add: runOK_def)

lemma insideOwned_call:
  assumes c: "calls sp s req a s'"
  shows "insideOwned s'"
  unfolding insideOwned_def
proof (intro allI impI)
  fix q n
  assume "(q, n) \<in> sy_inside s'"
  from inside_after [OF c this] show "owned s' q n"
  proof (elim disjE conjE exE)
    assume "(q, n) \<in> sy_inside s"
      and still: "q = req \<longrightarrow> (\<forall>l x. a = DeleteLease l x \<longrightarrow> n = leaseAt l \<longrightarrow> s' = s)"
    then have own: "owned s q n" using calls_facts(1) [OF c] by (simp add: insideOwned_def)
    show ?thesis
    proof (cases "q = req \<and> (\<exists>l x. a = DeleteLease l x)")
      case True
      with still own calls_facts(6) [OF c] show ?thesis by (fastforce simp: called_def owned_def)
    next
      case False
      then show ?thesis by (intro owned_kept [OF c own]) auto
    qed
  next
    fix r
    assume r: "q = req" "acquiring (sy_runs s req) r" "holdsLock r (sy_runs s req)"
      "lr_Mode r \<noteq> RestoreModeToPVC" "n = leaseKey r" "\<forall>l x. a \<noteq> DeleteLease l x"
    then have "owned s req n"
      using runOK_read [OF calls_facts(3) [OF c], of req r] by (simp add: readOK_def acquiring_def)
    then show ?thesis using r by (intro owned_kept [OF c]) auto
  qed
qed

text \<open>A stored phase becomes \<open>Fencing\<close> only by the run of that restore, from \<open>AcquiringLock\<close>.\<close>

lemma phase_after:
  assumes c: "calls sp s req a s'" and f: "sy_phase s' q = RestorePhaseFencing"
  shows "sy_phase s q = RestorePhaseFencing \<or> q = req \<and> (\<exists>r. acquiring (sy_runs s req) r \<and>
     readOK sp s req (sy_runs s req) r) \<and>
     (rsp_Mode (sp q) \<noteq> RestoreModeToPVC \<longrightarrow> (q, keyOf sp q) \<in> sy_inside s')"
proof (cases "sy_phase s q = RestorePhaseFencing")
  case False
  with f calls_facts(6) [OF c] obtain b n x where a: "a = PatchRestoreStatus b n x"
    and q: "restoreKey b = q" "lr_Phase n = RestorePhaseFencing" "lr_Phase b \<noteq> RestorePhaseFencing"
    and s': "s' = stored req a s"
    by (cases a) (auto simp: called_def split: if_splits)
  from calls_facts(4) [OF c] a q obtain r where r: "acquiring (sy_runs s req) r"
      "restoreKey b = restoreKey r" "lr_Spec b = lr_Spec r"
    by auto
  then have ok: "readOK sp s req (sy_runs s req) r"
    using runOK_read [OF calls_facts(3) [OF c]] by (simp add: acquiring_def)
  with r q have "q = req" "lr_Spec b = sp q" "leaseKey b = keyOf sp q"
    by (auto simp: readOK_def intro: leaseKey_keyOf)
  with r ok q show ?thesis by (auto simp: s' a)
qed simp

lemma releasing_phase: "readOK sp s req h r \<Longrightarrow>
  deleting r \<or> lr_Phase r = RestorePhaseRestoring \<or> lr_Phase r = RestorePhaseResuming \<Longrightarrow>
  req \<in> sy_deleting s \<or> sy_phase s req \<noteq> RestorePhaseFencing"
  by (elim disjE) (simp_all add: readOK_def restore_phase_neq(1-8) [symmetric])

lemma phaseInside_call:
  assumes c: "calls sp s req a s'"
  shows "phaseInside sp s'"
  unfolding phaseInside_def
proof (intro allI impI)
  fix q
  assume f: "sy_phase s' q = RestorePhaseFencing" and live: "q \<notin> sy_deleting s'"
    and mode: "rsp_Mode (sp q) \<noteq> RestoreModeToPVC"
  show "(q, keyOf sp q) \<in> sy_inside s'"
  proof (cases "sy_phase s q = RestorePhaseFencing")
    case True
    then have inside: "(q, keyOf sp q) \<in> sy_inside s"
      using calls_facts(2) [OF c] live mode called_fixed [OF calls_facts(6) [OF c]]
      by (simp add: phaseInside_def)
    have "False" if "q = req" "a = DeleteLease l x" for l x
    proof -
      from c that(2) have "calls sp s req (DeleteLease l x) s'" by simp
      then have "req \<in> sy_deleting s \<or> sy_phase s req \<noteq> RestorePhaseFencing"
        by (rule deletes_own) (rule releasing_phase)
      then show False
        using True that(1) live called_fixed [OF calls_facts(6) [OF c]] by simp
    qed
    then show ?thesis by (intro inside_kept [OF calls_facts(6) [OF c] inside]) blast
  qed (use phase_after [OF c f] mode in blast)
qed

lemma holdsLock_owned: "runOK sp s req h \<Longrightarrow> acquiring h r \<Longrightarrow> lr_Mode r \<noteq> RestoreModeToPVC \<Longrightarrow>
  holdsLock r h \<Longrightarrow> owned s req (leaseKey r)"
  by (simp add: runOK_def readOK_def acquiring_def)

text \<open>The other runs.\<close>

lemma runOK_other:
  assumes c: "calls sp s req a s'" and q: "q \<noteq> req"
  shows "runOK sp s' q (sy_runs s q)"
proof -
  note ok = calls_facts(3) [OF c, of q] and fixed = called_fixed [OF calls_facts(6) [OF c]]
  have own: "owned s q n \<Longrightarrow> owned s' q n" for n using q by (intro owned_kept [OF c]) auto
  have inside: "(q, n) \<in> sy_inside s \<Longrightarrow> (q, n) \<in> sy_inside s'" for n
    using q by (intro inside_kept [OF calls_facts(6) [OF c]]) auto
  have "sy_phase s q \<noteq> RestorePhaseFencing \<Longrightarrow> sy_phase s' q \<noteq> RestorePhaseFencing"
    using phase_after [OF c, of q] q by blast
  then have "readOK sp s q h r \<Longrightarrow> readOK sp s' q h r" for h r
    using own inside fixed by (simp add: readOK_def)
  moreover have "lastOK s q h \<Longrightarrow> lastOK s' q h" for h
    using own by (simp add: lastOK_def)
  ultimately show ?thesis using ok by (simp add: runOK_def)
qed

text \<open>The run that makes the call: its first call reads the restore, the later ones extend what it knows.\<close>

lemma readOK_first:
  assumes c: "calls sp s req a s'" and r: "readRestore [a] = Some r" and first: "sy_runs s req = []"
  shows "readOK sp s' req [a] r"
proof -
  obtain n where a: "a = GetRestore n (Inr r)"
    using r by (cases "[a]" rule: readRestore.cases) auto
  have "runTrace req [a]" using c first by (simp add: calls_def)
  with runTrace_first a have n: "n = req" by blast
  have s': "s' = s" using calls_facts(6) [OF c] a by (auto simp: called_def)
  have read: "restoreKey r = req" "lr_Spec r = sp req" "lr_Phase r = sy_phase s req"
    "deleting r \<longleftrightarrow> req \<in> sy_deleting s"
    using calls_facts(7) [OF c] a n by simp_all
  then have "(req, leaseKey r) \<in> sy_inside s"
    if "lr_Phase r = RestorePhaseFencing" "\<not> deleting r" "lr_Mode r \<noteq> RestoreModeToPVC"
    using that calls_facts(2) [OF c] leaseKey_keyOf [of r req sp] by (simp add: phaseInside_def)
  with read show ?thesis by (auto simp: readOK_def s' a holdsLock_def)
qed

lemma readOK_later:
  assumes c: "calls sp s req a s'" and r: "readRestore (sy_runs s req) = Some r"
  shows "readOK sp s' req (sy_runs s req @ [a]) r"
proof -
  let ?h = "sy_runs s req"
  note ok = runOK_read [OF calls_facts(3) [OF c] r] and fixed = called_fixed [OF calls_facts(6) [OF c]]
  have nodel: "\<forall>l x. a \<noteq> DeleteLease l x"
    if "\<not> deleting r" "lr_Phase r = RestorePhaseFencing \<or> lr_Phase r = RestorePhaseAcquiringLock"
  proof (intro allI notI)
    fix l x
    assume "a = DeleteLease l x"
    with c have "calls sp s req (DeleteLease l x) s'" by simp
    then obtain r' where "readRestore ?h = Some r'"
      "deleting r' \<or> lr_Phase r' = RestorePhaseRestoring \<or> lr_Phase r' = RestorePhaseResuming"
      by (rule deletes_own)
    then show False using that r by auto
  qed
  have inside: "(req, leaseKey r) \<in> sy_inside s'"
    if "lr_Phase r = RestorePhaseFencing" "\<not> deleting r" "lr_Mode r \<noteq> RestoreModeToPVC"
    using ok that nodel by (intro inside_kept [OF calls_facts(6) [OF c]]) (auto simp: readOK_def)
  have phase: "sy_phase s' req \<noteq> RestorePhaseFencing"
    if "lr_Phase r \<notin> {RestorePhaseAcquiringLock, RestorePhaseFencing}"
    using phase_after [OF c, of req] ok that r by (auto simp: readOK_def acquiring_def)
  have own: "owned s' req (leaseKey r)"
    if acq: "acquiring (?h @ [a]) r" and mode: "lr_Mode r \<noteq> RestoreModeToPVC" and holds: "holdsLock r (?h @ [a])"
  proof -
    have acq': "acquiring ?h r" using acq r by (simp add: acquiring_def)
    then have keep: "owned s req n \<Longrightarrow> owned s' req n" for n
      using nodel by (intro owned_kept [OF c]) (auto simp: acquiring_def)
    have name: "lr_Name r = snd req" "fst (leaseKey r) = fst req"
      using ok by (auto simp: readOK_def restoreKey_def leaseKey_def)
    from holds consider "holdsLock r ?h"
      | l where "a = GetLease (leaseKey r) (Inr l)" "ls_HolderIdentity l = Some (lr_Name r)"
      | l where "a = CreateLease l None" "ls_HolderIdentity l = Some (lr_Name r)"
      by (auto simp: holdsLock_def)
    then show ?thesis
    proof cases
      case 1
      then show ?thesis using holdsLock_owned [OF calls_facts(3) [OF c] acq' mode] keep by blast
    next
      case (2 l)
      then show ?thesis using calls_facts(7) [OF c] name by (intro keep) (auto simp: owned_def)
    next
      case (3 l)
      with calls_facts(4) [OF c] acq' have "leaseAt l = leaseKey r" by (auto simp: acquiring_def)
      moreover have "s' = stored req a s" "sy_leases s (leaseAt l) = None"
        using calls_facts(6,7) [OF c] 3 by (auto simp: called_def)
      ultimately show ?thesis using 3 name by (auto simp: owned_def)
    qed
  qed
  show ?thesis
    unfolding readOK_def fixed [THEN conjunct1] using ok inside phase own by (simp add: readOK_def)
qed

lemma runOK_own:
  assumes c: "calls sp s req a s'"
  shows "runOK sp s' req (sy_runs s req @ [a])"
proof -
  let ?h = "sy_runs s req"
  have "readOK sp s' req (?h @ [a]) r" if "readRestore (?h @ [a]) = Some r" for r
    using that readOK_first [OF c, of r] readOK_later [OF c, of r] readRestore_snoc [of ?h a]
    by (cases "?h = []") simp_all
  moreover have "lastOK s' req (?h @ [a])"
    unfolding lastOK_def
  proof (intro allI impI)
    fix h' n l
    assume "?h @ [a] = h' @ [GetLease n (Inr l)]"
    then have a: "a = GetLease n (Inr l)" by simp
    moreover have "s' = s" using calls_facts(6) [OF c] a by (auto simp: called_def)
    ultimately show "leaseAt l = n \<and>
        (ls_HolderIdentity l = Some (snd req) \<longrightarrow> fst n = fst req \<longrightarrow> owned s' req n)"
      using calls_facts(7) [OF c] by (simp add: owned_def)
  qed
  ultimately show ?thesis using calls_facts(5) [OF c] by (simp add: runOK_def)
qed

lemma logged_simps [simp]:
  "sy_leases (logged req a s) = sy_leases s" "sy_past (logged req a s) = sy_past s" "sy_inside (logged req a s) = sy_inside s"
  "sy_phase (logged req a s) = sy_phase s" "sy_deleting (logged req a s) = sy_deleting s"
  "sy_runs (logged req a s) = (sy_runs s)(req := sy_runs s req @ [a])"
  by (simp_all add: logged_def)

lemma systemOK_call:
  assumes "systemOK sp s" "runTrace req (sy_runs s req @ [a])" "allowed True sp s a" "called s req a s'"
  shows "systemOK sp (logged req a s')"
proof -
  have c: "calls sp s req a s'" using assms by (simp add: calls_def)
  have same: "runOK sp (logged req a s') q h = runOK sp s' q h"
    "insideOwned (logged req a s') = insideOwned s'" "phaseInside sp (logged req a s') = phaseInside sp s'" for q h
    by (simp_all add: runOK_def readOK_def lastOK_def owned_def insideOwned_def phaseInside_def)
  have "runOK sp s' q (sy_runs (logged req a s') q)" for q
    using runOK_own [OF c] runOK_other [OF c, of q] called_fixed [OF assms(4)]
    by (cases "q = req") simp_all
  then show ?thesis
    using insideOwned_call [OF c] phaseInside_call [OF c] by (simp add: systemOK_def same)
qed

lemma runOK_Nil: "runOK sp s req []"
  by (simp add: runOK_def lastOK_def)

lemma reaches_systemOK:
  assumes "reaches True sp s"
  shows "systemOK sp s"
  using assms
proof (induction rule: reaches.induct)
  case initial
  then show ?case
    by (simp add: systemOK_def emptySystem_def insideOwned_def phaseInside_def runOK_Nil
        restore_phase_neq(1-8) [symmetric])
next
  case (effective s req a)
  have "called s req a (stored req a s)" by (simp add: called_def del: stored.simps)
  with effective show ?case by (intro systemOK_call)
next
  case (ineffective s req a)
  then have "called s req a s" by (simp add: called_def)
  with ineffective show ?case by (intro systemOK_call)
next
  case (stopped s req)
  then show ?case
    by (simp add: systemOK_def insideOwned_def phaseInside_def runOK_def readOK_def lastOK_def owned_def)
next
  case (deleted s req)
  then show ?case
    by (simp add: systemOK_def insideOwned_def phaseInside_def runOK_def readOK_def lastOK_def owned_def)
qed

section \<open>Exclusion\<close>

text \<open>A restore works under the lock \<open>n\<close> when it went to \<open>Fencing\<close> and did not release it since, or when
  it is in the middle of a run of the phase \<open>Fencing\<close>: the runs that scale the application down and
  start the Job.\<close>

definition worksUnder :: "system \<Rightarrow> nsname \<Rightarrow> nsname \<Rightarrow> bool" where
  "worksUnder s req n \<longleftrightarrow> (req, n) \<in> sy_inside s \<or>
     (\<exists>r. readRestore (sy_runs s req) = Some r \<and> lr_Phase r = RestorePhaseFencing \<and>
        \<not> deleting r \<and> lr_Mode r \<noteq> RestoreModeToPVC \<and> leaseKey r = n)"

lemma worksUnder_owned:
  assumes ok: "systemOK sp s" and "worksUnder s req n"
  shows "owned s req n"
proof -
  have "readOK sp s req (sy_runs s req) r" if "readRestore (sy_runs s req) = Some r" for r
    using ok that by (simp add: systemOK_def runOK_def)
  then have "(req, n) \<in> sy_inside s"
    using assms(2) unfolding worksUnder_def by (auto simp: readOK_def)
  then show ?thesis using ok by (simp add: systemOK_def insideOwned_def)
qed

end
