(* ===== verification/Restore_Placement.thy ===== *)
theory Restore_Placement
  imports Restore_Job Injector_Props
begin

text \<open>
  Where the database is, for the two programs that have to agree on it: the sidecar that the webhook
  injects and the Job that the restore controller builds from the template of the same workload.
\<close>

section \<open>One container, one mount\<close>

lemma restoreContainer_found:
  "restoreContainer db cs = Inr c \<longleftrightarrow> findTargetContainer cs (sp_Container (db_Spec db)) = Some c"
  by (auto simp: restoreContainer_def findTargetContainer_def split: list.splits option.splits)

lemma findD: "find P xs = Some x \<Longrightarrow> x \<in> set xs \<and> P x"
  by (auto simp: find_Some_iff)

lemma locateDatabase_Inr:
  assumes "locateDatabase db ps = Inr (pvc, path, sub)"
  obtains c v vol where "findTargetContainer (ps_Containers ps) (sp_Container (db_Spec db)) = Some c"
    "restoreMount_scan (sp_DatabasePath (db_Spec db)) (ct_VolumeMounts c) = Some v"
    "vol \<in> set (ps_Volumes ps)" "vol_Name vol = vm_Name v" "vol_ClaimName vol = Some pvc"
    "path = databaseFile db" "sub = vm_SubPath v"
  using assms
  by (auto simp: locateDatabase_def Let_def restoreContainer_found databaseFile_def
      dest!: findD split: sum.splits option.splits)

text \<open>C19. For one pod spec, the restore controller resolves the claim, the sub-path and the file that
  the injected sidecar replicates: the data mount of the sidecar is of a volume with that claim, has
  that sub-path, and the resolved path is the database file named in \<open>litestream.yml\<close>.\<close>

theorem restore_targets_replicated_volume:
  assumes "inject pod db = Inr pod'" and "locateDatabase db (pod_Spec pod) = Inr (pvc, path, sub)"
  shows "\<exists>sidecar data config vol. ps_Containers (pod_Spec pod') = ps_Containers (pod_Spec pod) @ [sidecar] \<and>
     ct_VolumeMounts sidecar = [data, config] \<and> vm_SubPath data = sub \<and>
     vol \<in> set (ps_Volumes (pod_Spec pod)) \<and> vol_Name vol = vm_Name data \<and>
     vol_ClaimName vol = Some pvc \<and> path = databaseFile db"
  using assms(1)
proof (rule inject_parts)
  fix mount
  assume m: "findVolumeForPath pod (sp_DatabasePath (db_Spec db)) (sp_Container (db_Spec db)) = Inr mount"
    and sidecar: "ps_Containers (pod_Spec pod') = ps_Containers (pod_Spec pod) @ [buildSidecar db mount]"
  from m obtain c v where c: "findTargetContainer (ps_Containers (pod_Spec pod)) (sp_Container (db_Spec db)) = Some c"
    and v: "findVolume_scan (sp_DatabasePath (db_Spec db)) (ct_VolumeMounts c) = Some v"
    and mount: "mount = \<lparr>mt_volumeName = vm_Name v, mt_mountPath = vm_MountPath v, mt_subPath = vm_SubPath v\<rparr>"
    by (rule findVolumeForPath_Inr)
  from assms(2) obtain c' v' vol where r:
    "findTargetContainer (ps_Containers (pod_Spec pod)) (sp_Container (db_Spec db)) = Some c'"
    "restoreMount_scan (sp_DatabasePath (db_Spec db)) (ct_VolumeMounts c') = Some v'"
    "vol \<in> set (ps_Volumes (pod_Spec pod))" "vol_Name vol = vm_Name v'" "vol_ClaimName vol = Some pvc"
    "path = databaseFile db" "sub = vm_SubPath v'"
    by (rule locateDatabase_Inr)
  from c v r(1,2) have "v' = v" by (simp add: same_scan)
  moreover have "ct_VolumeMounts (buildSidecar db mount) = [dataMount mount, configMountRO]"
    by (simp add: buildSidecar_def Let_def split: option.split)
  ultimately show ?thesis
    using r sidecar mount
    by (intro exI [of _ "buildSidecar db mount"] exI [of _ "dataMount mount"] exI [of _ configMountRO]
          exI [of _ vol]) simp
qed

lemma locate_sample: "locateDatabase sampleReplica samplePodSpec = Inr (''app-pvc'', ''/data/app.db'', [])"
  by (simp add: locateDatabase_def restoreContainer_def restoreMount_scan_def sample_defs HasPrefix_def)

theorem restore_targets_replicated_volume_witness:
  "\<exists>sidecar data config. ps_Containers (pod_Spec sampleInjected) = [sampleContainer, sidecar] \<and>
     ct_VolumeMounts sidecar = [data, config] \<and> vm_SubPath data = [] \<and> vm_Name data = ''data''"
proof -
  have "locateDatabase sampleReplica (pod_Spec samplePod) = Inr (''app-pvc'', ''/data/app.db'', [])"
    using locate_sample by (simp add: samplePod_def)
  from restore_targets_replicated_volume [OF inject_sampleInjected this] show ?thesis
    by (auto simp: samplePod_def samplePodSpec_def)
qed

section \<open>The mount of the Job\<close>

lemma restoreTargetMount_simps [simp]:
  "vm_MountPath (restoreTargetMount p s) = Dir p" "vm_SubPath (restoreTargetMount p s) = s"
  "vm_Name (restoreTargetMount p s) = restoreTargetVolumeName"
  by (simp_all add: restoreTargetMount_def Let_def)

text \<open>C20. Take a database path in canonical form. The Job mounts the claim at the directory of the
  database file, so below that mount the file is found directly. The application mounts the same
  volume, with the same sub-path, at a path that is that directory or one above it. The two agree on
  where the file lies inside the volume exactly when the application mounts the volume at the
  database directory itself; with a mount above it the restored file is put elsewhere.\<close>

theorem restore_job_location:
  assumes "locateDatabase db ps = Inr (pvc, path, sub)"
    and "sp_DatabasePath (db_Spec db) = path_of es" "es \<noteq> []" "list_all plain_elem es"
    and "CHR ''/'' \<notin> set (sp_DatabaseName (db_Spec db))"
  shows "vm_MountPath (restoreTargetMount path sub) = sp_DatabasePath (db_Spec db) \<and>
     (\<exists>c v. findTargetContainer (ps_Containers ps) (sp_Container (db_Spec db)) = Some c \<and>
        v \<in> set (ct_VolumeMounts c) \<and> vm_SubPath (restoreTargetMount path sub) = vm_SubPath v \<and>
        (insideVolume path (restoreTargetMount path sub) = insideVolume path v \<longleftrightarrow>
           vm_MountPath v = sp_DatabasePath (db_Spec db)))"
proof -
  from assms(1) obtain c v where c: "findTargetContainer (ps_Containers ps) (sp_Container (db_Spec db)) = Some c"
    and v: "restoreMount_scan (sp_DatabasePath (db_Spec db)) (ct_VolumeMounts c) = Some v"
    and path: "path = databaseFile db" and sub: "sub = vm_SubPath v"
    by (rule locateDatabase_Inr)
  let ?d = "sp_DatabasePath (db_Spec db)" and ?n = "sp_DatabaseName (db_Spec db)"
  have p: "path = ?d @ CHR ''/'' # ?n" using path by (simp add: databaseFile_def)
  have dir: "Dir path = ?d"
    using Dir_append [OF assms(5), of ?d] Clean_plain [OF assms(3,4)] assms(2) p by simp
  have mv: "v \<in> set (ct_VolumeMounts c)" "covers ?d v"
    using restore_search.search_covers [OF v] by auto
  have "length (vm_MountPath v) \<le> length ?d"
    using insideVolume_eq [OF mv(2)] by (metis length_append le_add1)
  then have "insideVolume path v = insideVolume ?d v @ CHR ''/'' # ?n"
    by (simp add: insideVolume_def p)
  moreover have "insideVolume path (restoreTargetMount path sub) = CHR ''/'' # ?n"
    using dir by (simp add: insideVolume_def p)
  ultimately have "insideVolume path (restoreTargetMount path sub) = insideVolume path v \<longleftrightarrow>
      vm_MountPath v = ?d"
    using insideVolume_empty [OF mv(2)] by auto
  then show ?thesis using dir c mv(1) sub by auto
qed

theorem restore_job_location_witness:
  "vm_MountPath (restoreTargetMount ''/data/app.db'' []) = ''/data''"
proof -
  have "sp_DatabasePath (db_Spec sampleReplica) = path_of [''data'']"
    by (simp add: sampleReplica_def path_of_def)
  moreover have "list_all plain_elem [''data'']" by (simp add: plain_elem_def)
  moreover have "CHR ''/'' \<notin> set (sp_DatabaseName (db_Spec sampleReplica))" by (simp add: sampleReplica_def)
  ultimately show ?thesis
    using restore_job_location [OF locate_sample, of "[''data'']"] by (simp add: sampleReplica_def)
qed

end
