(* ===== verification/Restore_Histories.thy ===== *)
theory Restore_Histories
  imports Restore_Exclusion Restore_Placement
begin

text \<open>
  Histories of whole runs over the store of Leases: the exclusion of restores when reads are
  current, a history in which a restore enters, and one in which reads from a cache let two
  restores in at once.
\<close>

section \<open>Whole runs as histories\<close>

primrec fits :: "bool \<Rightarrow> (nsname \<Rightarrow> litestreamRestoreSpec) \<Rightarrow> nsname \<Rightarrow> action list \<Rightarrow> system \<Rightarrow> bool" where
  "fits fresh sp req [] s \<longleftrightarrow> True"
| "fits fresh sp req (a # tr) s \<longleftrightarrow>
     allowed fresh sp s a \<and> fits fresh sp req tr (logged req a (stored req a s))"

primrec after :: "nsname \<Rightarrow> action list \<Rightarrow> system \<Rightarrow> system" where
  "after req [] s = s"
| "after req (a # tr) s = after req tr (logged req a (stored req a s))"

lemma runTrace_prefix: "runTrace req (xs @ ys) \<Longrightarrow> runTrace req xs"
  unfolding runTrace_def by (metis append_assoc)

lemma reaches_after:
  "reaches fresh sp s \<Longrightarrow> runTrace req (sy_runs s req @ tr) \<Longrightarrow> fits fresh sp req tr s \<Longrightarrow>
   reaches fresh sp (after req tr s)"
proof (induction tr arbitrary: s)
  case (Cons a tr)
  have "runTrace req (sy_runs s req @ [a])"
    using Cons.prems(2) runTrace_prefix [of req "sy_runs s req @ [a]" tr] by simp
  with Cons.prems have "reaches fresh sp (logged req a (stored req a s))"
    by (intro reaches.effective) simp_all
  then show ?case using Cons.prems by (simp add: Cons.IH)
qed simp

definition finished :: "nsname \<Rightarrow> system \<Rightarrow> system" where
  "finished req s = s\<lparr>sy_runs := (sy_runs s)(req := [])\<rparr>"

lemma reaches_run:
  fixes K :: "nat kube"
  assumes "reaches fresh sp s" "sy_runs s req = []" "owner_law (k_Lib K)"
    and tr: "trace (snd (run_state (RestoreReconcile K req) \<lparr>world = 0, trace = []\<rparr>)) = tr"
    and "fits fresh sp req tr s"
  shows "reaches fresh sp (finished req (after req tr s))"
proof -
  have "runTrace req tr"
    unfolding runTrace_def using assms(3) tr
    by (intro exI [of _ K] exI [of _ "\<lparr>world = 0, trace = []\<rparr>"] exI [of _ "[]"]) simp
  then show ?thesis
    using assms unfolding finished_def by (intro reaches.stopped reaches_after) simp_all
qed

section \<open>Three runs\<close>

definition restoreNamed :: "string \<Rightarrow> string \<Rightarrow> litestreamRestore" where
  "restoreNamed x phase = (sampleRestore RestoreModeInPlace phase)\<lparr>lr_Meta :=
     (lr_Meta (sampleRestore RestoreModeInPlace phase))\<lparr>om_Name := x\<rparr>\<rparr>"

definition sampleSpec :: litestreamRestoreSpec where
  "sampleSpec = lr_Spec (sampleRestore RestoreModeInPlace [])"

definition sampleKey :: nsname where
  "sampleKey = (''ns'', ''litestream-restore-app-db'')"

definition deployedCluster :: "litestreamRestore \<Rightarrow> nat kube" where
  "deployedCluster r = (sampleCluster r sampleReplica)\<lparr>k_GetDeployment := (\<lambda>n w. (Inr sampleDeployment, w))\<rparr>"

lemma owner_law_sampleLib: "owner_law sampleLib"
  by (simp add: owner_law_def sampleLib_def)

lemma restoreNamed_fields [simp]:
  "lr_Name (restoreNamed x p) = x" "lr_Namespace (restoreNamed x p) = ''ns''"
  "lr_Spec (restoreNamed x p) = sampleSpec" "lr_Phase (restoreNamed x p) = p"
  "om_DeletionTimestamp (lr_Meta (restoreNamed x p)) = None"
  "om_Finalizers (lr_Meta (restoreNamed x p)) = [restoreFinalizerName]"
  "st_ResolvedPVC (lr_Status (restoreNamed x p)) = ''app-pvc''"
  by (simp_all add: restoreNamed_def sample_defs sampleSpec_def restoreFinalizerName_def)

lemma sampleSpec_fields [simp]:
  "rsp_Mode (sampleSpec) = RestoreModeInPlace" "sr_Name (rsp_SourceRef (sampleSpec)) = ''app-db''"
  by (simp_all add: sampleSpec_def sample_defs)

lemma sampleReplica_fields [simp]:
  "db_Name sampleReplica = ''app-db''" "db_Namespace sampleReplica = ''ns''" "hasBackup sampleReplica"
  "sp_TargetStatefulSet (db_Spec sampleReplica) = []" "sp_TargetDeployment (db_Spec sampleReplica) = ''app''"
  "db_Annotations sampleReplica = Map.empty"
  by (simp_all add: sample_defs hasBackup_def)

lemma sampleDeployment_fields [simp]:
  "pt_Spec (dp_Template sampleDeployment) = samplePodSpec" "dp_Replicas sampleDeployment = Some 1"
  by (simp_all add: sample_defs)

lemmas cluster_defs = deployedCluster_def sampleCluster_def emptyCluster_def sampleLib_def

lemma pending_trace:
  "\<exists>new. trace (snd (run_state (RestoreReconcile (deployedCluster (restoreNamed x [])) (''ns'', x))
       \<lparr>world = 0, trace = []\<rparr>)) =
     [GetRestore (''ns'', x) (Inr (restoreNamed x [])), GetReplica (''ns'', ''app-db'') (Inr sampleReplica),
      GetDeployment (''ns'', ''app'') (Inr sampleDeployment), GetDeployment (''ns'', ''app'') (Inr sampleDeployment),
      PatchRestoreStatus (restoreNamed x []) new (Inr new)] \<and> lr_Phase new = RestorePhaseAcquiringLock"
  by (simp add: RestoreReconcile_def reconcilePhase_def step_defs cluster_defs IsZero_def locate_sample
      restore_phase_neq(1-8) [symmetric])

lemma locking_trace:
  "\<exists>l b new. trace (snd (run_state (RestoreReconcile (deployedCluster (restoreNamed x RestorePhaseAcquiringLock))
       (''ns'', x)) \<lparr>world = 0, trace = []\<rparr>)) =
     [GetRestore (''ns'', x) (Inr (restoreNamed x RestorePhaseAcquiringLock)),
      GetReplica (''ns'', ''app-db'') (Inr sampleReplica), GetLease sampleKey (Inl missing), CreateLease l None,
      PatchReplica sampleReplica (setPause sampleReplica) (Inr (setPause sampleReplica)),
      RecordEvent (restoreEvent (restoreNamed x RestorePhaseAcquiringLock) EventTypeNormal ''PausingReplication''
        ''Pausing Litestream replication on LitestreamReplica app-db''),
      PatchRestoreStatus b new (Inr new)] \<and>
     leaseAt l = sampleKey \<and> ls_HolderIdentity l = Some x \<and> lr_Phase b = RestorePhaseAcquiringLock \<and>
     restoreKey b = (''ns'', x) \<and> lr_Spec b = sampleSpec \<and> lr_Phase new = RestorePhaseFencing"
  by (simp add: RestoreReconcile_def reconcilePhase_def step_defs cluster_defs IsZero_def sampleKey_def
      newLease_def leaseName_def leaseAt_def restoreKey_def emptyMeta_def setPause_def Let_def)

text \<open>The finalization of a restore whose Lease is read as held by itself, and whose update fails.\<close>

definition heldCluster :: "string \<Rightarrow> nat kube" where
  "heldCluster x = (sampleCluster
       ((restoreNamed x RestorePhaseFencing)\<lparr>lr_Meta := (lr_Meta (restoreNamed x RestorePhaseFencing))
          \<lparr>om_DeletionTimestamp := Some 1\<rparr>\<rparr>) sampleReplica)
     \<lparr>k_GetLease := (\<lambda>n w. (Inr \<lparr>ls_Meta = emptyMeta\<lparr>om_Namespace := fst n, om_Name := snd n\<rparr>,
        ls_HolderIdentity = Some x, ls_AcquireTime = None, ls_LeaseDurationSeconds = None\<rparr>, w)),
      k_UpdateRestore := (\<lambda>r w. (Inl (ApiError OtherReason ''conflict''), w))\<rparr>"

lemma finalizing_trace:
  "\<exists>r e l u. trace (snd (run_state (RestoreReconcile (heldCluster x) (''ns'', x)) \<lparr>world = 0, trace = []\<rparr>)) =
     [GetRestore (''ns'', x) (Inr r), GetReplica (''ns'', ''app-db'') (Inr sampleReplica),
      GetLease sampleKey (Inr l), DeleteLease l None, RecordEvent e,
      UpdateRestore u (Inl (ApiError OtherReason ''conflict''))] \<and>
     restoreKey r = (''ns'', x) \<and> lr_Spec r = sampleSpec \<and> lr_Phase r = RestorePhaseFencing \<and> deleting r \<and>
     leaseAt l = sampleKey \<and> ls_HolderIdentity l = Some x"
  by (simp add: RestoreReconcile_def handleFinalization_def step_defs cluster_defs heldCluster_def IsZero_def
      sampleKey_def leaseName_def leaseAt_def restoreKey_def emptyMeta_def midRestore_def deleting_def)

section \<open>What the runs do to the store\<close>

definition withPhase :: "string \<Rightarrow> string \<Rightarrow> system \<Rightarrow> system" where
  "withPhase x p s = s\<lparr>sy_phase := (sy_phase s)((''ns'', x) := p)\<rparr>"

definition entered :: "string \<Rightarrow> system \<Rightarrow> system" where
  "entered x s = (withPhase x RestorePhaseFencing s)\<lparr>
     sy_leases := (sy_leases s)(sampleKey \<mapsto> Some x), sy_past := insert (sampleKey, Some x) (sy_past s),
     sy_inside := insert ((''ns'', x), sampleKey) (sy_inside s)\<rparr>"

definition released :: "string \<Rightarrow> system \<Rightarrow> system" where
  "released x s = s\<lparr>sy_leases := (sy_leases s)(sampleKey := None),
     sy_inside := sy_inside s - {((''ns'', x), sampleKey)}\<rparr>"

lemma system_eqI:
  "sy_leases s = sy_leases t \<Longrightarrow> sy_past s = sy_past t \<Longrightarrow> sy_phase s = sy_phase t \<Longrightarrow>
   sy_deleting s = sy_deleting t \<Longrightarrow> sy_runs s = sy_runs t \<Longrightarrow> sy_inside s = sy_inside t \<Longrightarrow>
   s = (t :: system)"
  by simp

lemma leaseKey_sample: "restoreKey b = (''ns'', x) \<Longrightarrow> lr_Spec b = sampleSpec \<Longrightarrow> leaseKey b = sampleKey"
  by (simp add: leaseKey_def leaseName_def sampleKey_def restoreKey_def)

lemma cluster_law: "owner_law (k_Lib (deployedCluster r))" "owner_law (k_Lib (heldCluster x))"
  by (simp_all add: owner_law_def cluster_defs heldCluster_def)

lemma reaches_acquiring:
  assumes s: "reaches fresh (\<lambda>_. sampleSpec) s" and idle: "sy_runs s = (\<lambda>_. [])"
    and "sy_phase s (''ns'', x) = []" "(''ns'', x) \<notin> sy_deleting s"
  shows "reaches fresh (\<lambda>_. sampleSpec) (withPhase x RestorePhaseAcquiringLock s)"
proof -
  obtain new where tr: "trace (snd (run_state (RestoreReconcile (deployedCluster (restoreNamed x [])) (''ns'', x))
       \<lparr>world = 0, trace = []\<rparr>)) =
     [GetRestore (''ns'', x) (Inr (restoreNamed x [])), GetReplica (''ns'', ''app-db'') (Inr sampleReplica),
      GetDeployment (''ns'', ''app'') (Inr sampleDeployment), GetDeployment (''ns'', ''app'') (Inr sampleDeployment),
      PatchRestoreStatus (restoreNamed x []) new (Inr new)]" (is "_ = ?tr")
    and new: "lr_Phase new = RestorePhaseAcquiringLock"
    using pending_trace [of x] by blast
  have "fits fresh (\<lambda>_. sampleSpec) (''ns'', x) ?tr s"
    using assms by (simp add: restoreKey_def deleting_def IsZero_def)
  moreover have "finished (''ns'', x) (after (''ns'', x) ?tr s) = withPhase x RestorePhaseAcquiringLock s"
    using idle new by (intro system_eqI)
      (simp_all add: finished_def withPhase_def restoreKey_def fun_upd_idem_iff)
  ultimately show ?thesis
    using reaches_run [OF s _ cluster_law(1) tr] idle by simp
qed

lemma reaches_entered:
  assumes s: "reaches fresh (\<lambda>_. sampleSpec) s" and idle: "sy_runs s = (\<lambda>_. [])"
    and new: "sy_phase s (''ns'', x) = []" "(''ns'', x) \<notin> sy_deleting s" and free: "sy_leases s sampleKey = None"
  shows "reaches fresh (\<lambda>_. sampleSpec) (entered x s)"
proof -
  let ?s = "withPhase x RestorePhaseAcquiringLock s"
  have s1: "reaches fresh (\<lambda>_. sampleSpec) ?s" by (rule reaches_acquiring [OF s idle new])
  obtain l b n e where tr: "trace (snd (run_state (RestoreReconcile
       (deployedCluster (restoreNamed x RestorePhaseAcquiringLock)) (''ns'', x)) \<lparr>world = 0, trace = []\<rparr>)) =
     [GetRestore (''ns'', x) (Inr (restoreNamed x RestorePhaseAcquiringLock)),
      GetReplica (''ns'', ''app-db'') (Inr sampleReplica), GetLease sampleKey (Inl missing), CreateLease l None,
      PatchReplica sampleReplica (setPause sampleReplica) (Inr (setPause sampleReplica)), RecordEvent e,
      PatchRestoreStatus b n (Inr n)]" (is "_ = ?tr")
    and l: "leaseAt l = sampleKey" "ls_HolderIdentity l = Some x"
    and b: "lr_Phase b = RestorePhaseAcquiringLock" "restoreKey b = (''ns'', x)" "lr_Spec b = sampleSpec"
    and n: "lr_Phase n = RestorePhaseFencing"
    using locking_trace [of x] by blast
  have "fits fresh (\<lambda>_. sampleSpec) (''ns'', x) ?tr ?s"
    using new free l by (simp add: withPhase_def restoreKey_def deleting_def IsZero_def)
  moreover have "finished (''ns'', x) (after (''ns'', x) ?tr ?s) = entered x s"
    using idle l b n free leaseKey_sample [OF b(2,3)] by (intro system_eqI)
      (simp_all add: finished_def withPhase_def entered_def restore_phase_neq(1-8) [symmetric] fun_upd_idem_iff)
  ultimately show ?thesis
    using reaches_run [OF s1 _ cluster_law(1) tr] idle by (simp add: withPhase_def)
qed

lemma reaches_released:
  assumes s: "reaches fresh (\<lambda>_. sampleSpec) s" and idle: "sy_runs s = (\<lambda>_. [])"
    and phase: "sy_phase s (''ns'', x) = RestorePhaseFencing" "(''ns'', x) \<in> sy_deleting s"
    and seen: "if fresh then sy_leases s sampleKey = Some (Some x) else (sampleKey, Some x) \<in> sy_past s"
  shows "reaches fresh (\<lambda>_. sampleSpec) (released x s)"
proof -
  obtain r e l u where tr: "trace (snd (run_state (RestoreReconcile (heldCluster x) (''ns'', x))
       \<lparr>world = 0, trace = []\<rparr>)) =
     [GetRestore (''ns'', x) (Inr r), GetReplica (''ns'', ''app-db'') (Inr sampleReplica),
      GetLease sampleKey (Inr l), DeleteLease l None, RecordEvent e,
      UpdateRestore u (Inl (ApiError OtherReason ''conflict''))]" (is "_ = ?tr")
    and r: "restoreKey r = (''ns'', x)" "lr_Spec r = sampleSpec" "lr_Phase r = RestorePhaseFencing" "deleting r"
    and l: "leaseAt l = sampleKey" "ls_HolderIdentity l = Some x"
    using finalizing_trace [of x] by blast
  have fits: "fits fresh (\<lambda>_. sampleSpec) (''ns'', x) ?tr s"
    using phase seen r l by simp
  have idle': "sy_runs s (''ns'', x) = []" using idle by simp
  have "finished (''ns'', x) (after (''ns'', x) ?tr s) = released x s"
    using idle l by (intro system_eqI) (simp_all add: finished_def released_def fun_upd_idem_iff)
  then show ?thesis using reaches_run [OF s idle' cluster_law(2) tr fits] by (simp only:)
qed

section \<open>Exclusion\<close>

text \<open>C3. However the runs of all restores interleave and whatever of them is lost, at most one restore
  at a time works under the lock of a replica, provided that reads of restores and Leases are
  current: between going to \<open>Fencing\<close> and releasing the Lease, and while it scales the application
  down and starts its Job, no other restore of the replica does.\<close>

theorem restore_exclusion:
  assumes "reaches True sp s" "worksUnder s req n" "worksUnder s req' n"
  shows "req = req'"
  using worksUnder_owned [OF reaches_systemOK [OF assms(1)]] assms(2,3)
  unfolding owned_def by (metis option.inject prod_eqI)


lemma empty_entered: "reaches fresh (\<lambda>_. sampleSpec) (entered x emptySystem)"
  by (rule reaches_entered [OF reaches.initial]) (simp_all add: emptySystem_def)

lemma entered_works: "worksUnder (entered x s) (''ns'', x) sampleKey"
  by (simp add: worksUnder_def entered_def)

theorem restore_exclusion_witness:
  "worksUnder (entered ''r1'' emptySystem) (''ns'', ''r1'') sampleKey \<and>
   \<not> worksUnder (entered ''r1'' emptySystem) (''ns'', ''r2'') sampleKey"
  using restore_exclusion [OF empty_entered [of True "''r1''"] entered_works, of "(''ns'', ''r2'')"]
    entered_works [of "''r1''" emptySystem] by auto

text \<open>C31. With reads from a cache the lock fails. A deleted restore that releases its Lease and then
  fails to drop its finalizer runs again; when the cache still shows it the old Lease, it deletes the
  Lease by name, which now belongs to the next restore, and a third one enters. So there is a
  reachable state in which two restores work under the lock of one replica.\<close>

theorem stale_reads_break_exclusion:
  "\<exists>s. reaches False (\<lambda>_. sampleSpec) s \<and> worksUnder s (''ns'', ''r2'') sampleKey \<and>
     worksUnder s (''ns'', ''r3'') sampleKey"
proof -
  let ?a = "(entered ''r1'' emptySystem)\<lparr>sy_deleting := insert (''ns'', ''r1'') (sy_deleting (entered ''r1'' emptySystem))\<rparr>"
  let ?b = "entered ''r2'' (released ''r1'' ?a)"
  let ?c = "entered ''r3'' (released ''r1'' ?b)"
  note states = entered_def released_def withPhase_def emptySystem_def
  have "reaches False (\<lambda>_. sampleSpec) ?a"
    by (rule reaches.deleted [OF empty_entered])
  then have "reaches False (\<lambda>_. sampleSpec) (released ''r1'' ?a)"
    by (rule reaches_released) (simp_all add: states)
  then have "reaches False (\<lambda>_. sampleSpec) ?b"
    by (rule reaches_entered) (simp_all add: states)
  then have "reaches False (\<lambda>_. sampleSpec) (released ''r1'' ?b)"
    by (rule reaches_released) (simp_all add: states)
  then have "reaches False (\<lambda>_. sampleSpec) ?c"
    by (rule reaches_entered) (simp_all add: states)
  moreover have "worksUnder ?c (''ns'', ''r2'') sampleKey" "worksUnder ?c (''ns'', ''r3'') sampleKey"
    by (simp_all add: worksUnder_def states)
  ultimately show ?thesis by blast
qed

end
