(* ===== verification/Restore_Outcomes.thy ===== *)
theory Restore_Outcomes
  imports Restore_Lock
begin

text \<open>
  What the outcome of a restore stands for: the fields of the status, the evidence behind a success
  and a failure, progress, finalization, and the courses that end without the application running.
\<close>

section \<open>The fields of the status\<close>

text \<open>
  What every status patch leaves alone: metadata, spec and conditions; the recorded replica count
  and the start time once they are set. The completion time changes with a final phase only.
\<close>

fun statusGuard :: "action \<Rightarrow> bool" where
  "statusGuard (PatchRestoreStatus base new r) \<longleftrightarrow>
     lr_Meta new = lr_Meta base \<and> lr_Spec new = lr_Spec base \<and>
     st_Conditions (lr_Status new) = st_Conditions (lr_Status base) \<and>
     (st_OriginalReplicas (lr_Status base) \<noteq> None \<longrightarrow>
        st_OriginalReplicas (lr_Status new) = st_OriginalReplicas (lr_Status base)) \<and>
     (st_StartTime (lr_Status base) \<noteq> None \<longrightarrow>
        st_StartTime (lr_Status new) = st_StartTime (lr_Status base)) \<and>
     (st_CompletionTime (lr_Status new) \<noteq> st_CompletionTime (lr_Status base) \<longrightarrow>
        terminal (lr_Phase new)) \<and>
     (lr_Phase new = RestorePhaseFailed \<and> lr_Phase base \<noteq> RestorePhaseFailed \<longrightarrow>
        st_CompletionTime (lr_Status new) \<noteq> None)"
| "statusGuard _ \<longleftrightarrow> True"

lemma statusGuard_kind: "kind a \<noteq> SendsStatus \<Longrightarrow> statusGuard a"
  by (cases a) auto

lemma status_setStatus:
  assumes "ct \<noteq> None \<longrightarrow> terminal ph" "ph = RestorePhaseFailed \<longrightarrow> ct \<noteq> None"
  shows "emits statusGuard (setStatus K r ph j m o' st ct)" "emits statusGuard (advance K r ph m ct)"
  using assms unfolding advance_def setStatus_def
  by (auto intro!: emits_intros split: option.splits)

lemma status_others:
  "emits statusGuard (failRestore K r msg)" "emits statusGuard (storeResolved K r pvc p sp)"
  "emits statusGuard (getTargetWorkloadForRestore K db)" "emits statusGuard (resolveRestoreTarget K r db)"
  "emits statusGuard (restoreJobPodLogs K ns n)" "emits statusGuard (reconcileRestoreConfig K r db)"
  "emits statusGuard (pauseReplication K db)" "emits statusGuard (resumeReplication K db)"
  "emits statusGuard (releaseRestoreLock K r)" "emits statusGuard (scaleWorkload K wt n')"
  unfolding failRestore_def storeResolved_def getTargetWorkloadForRestore_def resolveRestoreTarget_def
    restoreJobPodLogs_def reconcileRestoreConfig_def pauseReplication_def resumeReplication_def
    releaseRestoreLock_def scaleWorkload_def
  by (intro emits_intros status_setStatus; simp add: terminal_def)+

text \<open>C13. No status patch changes metadata, the spec or the conditions: the conditions a handler sets are
  already part of the object that the patch is computed from, so none of them is ever sent. The
  recorded replica count and the start time are written once, the completion time is written only
  together with a final phase, and a restore that fails gets one.\<close>

theorem restore_status_fields: "emits statusGuard (RestoreReconcile K req)"
  unfolding RestoreReconcile_def reconcilePhase_def reconcilePending_def reconcileAcquiringLock_def
    reconcileFencing_def fenceWorkload_def reconcileRestoring_def reconcileResuming_def
    launchRestoreJob_def jobLaunched_def lockAcquired_def lockHeld_def restoreJobSucceeded_def
    restoreJobFailed_def failRestoreWithCleanup_def scaleUp_def finishRestore_def
    handleFinalization_def withResult_def Let_def
  by (intro emits_intros status_setStatus status_others; simp add: terminal_def)

section \<open>Evidence behind an outcome\<close>

definition jobSays :: "litestreamRestore \<Rightarrow> string \<Rightarrow> action list \<Rightarrow> bool" where
  "jobSays r ty h \<longleftrightarrow>
     (\<exists>j c. GetJob (lr_Namespace r, st_JobName (lr_Status r)) (Inr j) \<in> set h \<and>
        c \<in> set (jb_Conditions j) \<and> jc_Type c = ty \<and> jc_Status c = ConditionTrue)"

definition jobMissing :: "litestreamRestore \<Rightarrow> action list \<Rightarrow> bool" where
  "jobMissing r h \<longleftrightarrow>
     (\<exists>e. GetJob (lr_Namespace r, st_JobName (lr_Status r)) (Inl e) \<in> set h \<and> IsNotFound e)"

lemma job_evidence_append [simp]:
  "jobSays r ty h \<Longrightarrow> jobSays r ty (h @ x)" "jobMissing r h \<Longrightarrow> jobMissing r (h @ x)"
  unfolding jobSays_def jobMissing_def by auto

text \<open>The workload has the count asked for, was patched to it, or could not be read.\<close>

definition resumedBy :: "litestreamReplica \<Rightarrow> int \<Rightarrow> action list \<Rightarrow> bool" where
  "resumedBy db n h \<longleftrightarrow>
     (\<exists>a\<in>set h. asksTarget db a \<and>
        (readsTarget a = None \<or>
         (\<exists>wt. readsTarget a = Some wt \<and>
            (scaled n wt = wt \<or>
             (\<exists>b\<in>set h. patchesTarget b = Some (wt, scaled n wt) \<and> answersPatch b \<noteq> None)))))"

lemma resumedBy_append [simp]: "resumedBy db n h \<Longrightarrow> resumedBy db n (h @ x)"
  "resumedBy db n x \<Longrightarrow> resumedBy db n (h @ x)"
  unfolding resumedBy_def by auto

lemma resumedBy_append_Cons [simp]: "resumedBy db n xs \<Longrightarrow> resumedBy db n (h @ a # xs)"
  using resumedBy_append(2) [of db n xs "h @ [a]"] by simp

text \<open>
  What a run must have seen before it writes a phase. From \<open>Restoring\<close>: the verdict of the Job, or,
  for \<open>Failed\<close>, no Job or a source without backup; from \<open>Resuming\<close>: the replication back in its
  configuration and, where a positive count is to be restored, the workload.
\<close>

definition restoringOutcome :: "litestreamRestore \<Rightarrow> litestreamReplica \<Rightarrow> action list \<Rightarrow> string \<Rightarrow> bool" where
  "restoringOutcome r db h ph \<longleftrightarrow>
     jobSays r JobComplete h \<and>
       ph = (if lr_Mode r = RestoreModeToPVC then RestorePhaseCompleted else RestorePhaseResuming) \<or>
     ph = RestorePhaseFailed \<and> (jobSays r JobFailed h \<or> jobMissing r h \<or> \<not> hasBackup db)"

definition resumingOutcome :: "litestreamRestore \<Rightarrow> litestreamReplica \<Rightarrow> action list \<Rightarrow> string \<Rightarrow> bool" where
  "resumingOutcome r db h ph \<longleftrightarrow>
     ph = RestorePhaseCompleted \<and> configRead db (\<lambda>c. c \<noteq> pausedConfig) h \<and>
       (restoredReplicas r > 0 \<longrightarrow> resumedBy db (restoredReplicas r) h) \<or>
     ph = RestorePhaseFailed \<and> \<not> hasBackup db"

definition outcomeEvidence :: "action list \<Rightarrow> string \<Rightarrow> bool" where
  "outcomeEvidence h ph \<longleftrightarrow>
     (\<exists>r db. runStart h = Some (r, db) \<and>
       (lr_Phase r = RestorePhaseRestoring \<longrightarrow> restoringOutcome r db h ph) \<and>
       (lr_Phase r = RestorePhaseResuming \<longrightarrow> resumingOutcome r db h ph) \<and>
       (ph = RestorePhaseCompleted \<longrightarrow>
          lr_Phase r \<in> {RestorePhaseRestoring, RestorePhaseValidating, RestorePhaseResuming}))"

fun outcomeGuard :: "action list \<Rightarrow> action \<Rightarrow> bool" where
  "outcomeGuard h (PatchRestoreStatus base new res) \<longleftrightarrow>
     sourceMissing h \<and> lr_Phase new = RestorePhaseFailed \<or> outcomeEvidence h (lr_Phase new)"
| "outcomeGuard h _ \<longleftrightarrow> True"

lemma jobVerdict_says:
  "jobVerdict j = Some c \<Longrightarrow> c \<in> set (jb_Conditions j) \<and> jc_Status c = ConditionTrue \<and>
     (jc_Type c = JobComplete \<or> jc_Type c = JobFailed)"
  by (auto simp: jobVerdict_def find_Some_iff)

lemma yields_scaleUp:
  "yields (\<lambda>e tr. e = None \<longrightarrow> n > 0 \<longrightarrow> resumedBy db n tr) (scaleUp K db n)"
  unfolding scaleUp_def getTargetWorkloadForRestore_def scaleWorkload_def
  by (intro yields_intros; auto simp: resumedBy_def asksTarget_def)

lemma outcome_run:
  "runStart h = Some (r, db) \<Longrightarrow> lr_Phase r \<noteq> RestorePhaseRestoring \<Longrightarrow>
   lr_Phase r \<noteq> RestorePhaseResuming \<Longrightarrow> ph \<noteq> RestorePhaseCompleted \<or> lr_Phase r = RestorePhaseValidating \<Longrightarrow>
   outcomeEvidence h ph"
  by (auto simp: outcomeEvidence_def)

lemma outcome_kind: "kind a \<noteq> SendsStatus \<Longrightarrow> outcomeGuard h a"
  by (cases a) auto

lemmas outcome_quiet = guards_kind [where G = outcomeGuard, OF _ outcome_kind]

lemma outcome_append [simp]:
  "restoringOutcome r db h ph \<Longrightarrow> restoringOutcome r db (h @ x) ph"
  "resumingOutcome r db h ph \<Longrightarrow> resumingOutcome r db (h @ x) ph"
  by (auto simp: restoringOutcome_def resumingOutcome_def)

lemma outcomeEvidence_append [simp]: "outcomeEvidence h ph \<Longrightarrow> outcomeEvidence (h @ x) ph"
  unfolding outcomeEvidence_def by (elim exE) (metis outcome_append runStart_append)

lemma outcome_others:
  "guards outcomeGuard h (restoreJobPodLogs K ns n)" "guards outcomeGuard h (resumeReplication K db)"
  "guards outcomeGuard h (releaseRestoreLock K r)" "guards outcomeGuard h (scaleUp K db n')"
  unfolding scaleUp_def
  by (rule outcome_quiet [where X = "{Reads, ReleasesLock, PatchesReplica, Scales}"],
      (intro kind_intros; simp), force)+

lemma outcome_status:
  "outcomeEvidence h ph \<Longrightarrow> guards outcomeGuard h (setStatus K r ph j m o' st ct)"
  "outcomeEvidence h ph \<Longrightarrow> guards outcomeGuard h (advance K r ph m ct)"
  "outcomeEvidence h RestorePhaseFailed \<or> sourceMissing h \<Longrightarrow> guards outcomeGuard h (failRestore K r msg)"
  unfolding advance_def setStatus_def failRestore_def
  by (intro guards_intros; auto)+

lemma outcome_cleanup:
  "outcomeEvidence h RestorePhaseFailed \<Longrightarrow> guards outcomeGuard h (failRestoreWithCleanup K r db msg)"
  unfolding failRestoreWithCleanup_def Let_def
  by (intro guards_intros outcome_others [THEN guards_any] outcome_status(1); simp)

lemma outcome_succeeded:
  "outcomeEvidence h (if lr_Mode r = RestoreModeToPVC then RestorePhaseCompleted else RestorePhaseResuming) \<Longrightarrow>
   guards outcomeGuard h (restoreJobSucceeded K r)"
  unfolding restoreJobSucceeded_def withResult_def Let_def
  by (intro guards_intros outcome_status(2) [THEN guards_any]; simp)

lemma outcome_failed:
  "outcomeEvidence h RestorePhaseFailed \<Longrightarrow> guards outcomeGuard h (restoreJobFailed K r db msg)"
  unfolding restoreJobFailed_def withResult_def Let_def
  by (intro guards_intros outcome_others(1) [THEN guards_any] outcome_cleanup [THEN guards_any]; simp)

lemma outcome_restoring:
  assumes start: "runStart h = Some (r, db)" and ph: "lr_Phase r = RestorePhaseRestoring"
  shows "guards outcomeGuard h (reconcileRestoring K r db)"
  unfolding reconcileRestoring_def withResult_def
  by (intro guards_intros outcome_cleanup [THEN guards_any] outcome_succeeded outcome_failed;
      use start ph in \<open>auto simp: outcomeEvidence_def restoringOutcome_def jobSays_def jobMissing_def
        restore_phase_neq(1-8) [symmetric] dest: jobVerdict_says split: if_splits\<close>)

lemma outcome_resuming:
  assumes start: "runStart h = Some (r, db)" and ph: "lr_Phase r = RestorePhaseResuming"
  shows "guards outcomeGuard h (reconcileResuming K r db)"
proof -
  have finish: "guards outcomeGuard h' (finishRestore K r)"
    if "outcomeEvidence h' RestorePhaseCompleted" for h'
    using that unfolding finishRestore_def withResult_def Let_def
    by (intro guards_intros outcome_others(3) [THEN guards_any] outcome_status(2) [THEN guards_any]; simp)
  have done_: "outcomeEvidence (h @ x) RestorePhaseCompleted"
    if "configRead db (\<lambda>c. c \<noteq> pausedConfig) x" "restoredReplicas r > 0 \<longrightarrow> resumedBy db (restoredReplicas r) x"
    for x
    using that start ph by (auto simp: outcomeEvidence_def resumingOutcome_def configRead_def)
  show ?thesis
    unfolding reconcileResuming_def
    by (intro guards_intros outcome_others(2) [THEN guards_any] finish
          guards_bind [OF outcome_others(4) yields_scaleUp];
        auto intro!: done_ simp: configRead_def)
qed

lemma outcome_always:
  assumes "runStart h = Some (r, db)" "list_all (stepsFrom r) tr"
    and "lr_Phase r \<notin> {RestorePhaseRestoring, RestorePhaseValidating, RestorePhaseResuming}"
  shows "guarded outcomeGuard h tr"
  using assms(1,2)
proof (induction tr arbitrary: h)
  case (Cons a tr)
  have "lr_Phase n \<noteq> RestorePhaseCompleted" if "stepsFrom r (PatchRestoreStatus b n x)" for b n x
    using that assms(3)
    by (auto simp: notStarted_def restore_phase_neq(1-8) [symmetric] elim!: phase_step.cases)
  then have "outcomeGuard h a"
    using Cons.prems assms(3) by (cases a) (auto intro!: outcome_run)
  with Cons show ?case by simp
qed simp

text \<open>C10. What a run must have seen before it writes a phase. From \<open>Restoring\<close> it goes on only when it has
  read the Job with a true condition \<open>Complete\<close> - an InPlace restore to \<open>Resuming\<close>, a ToPVC restore
  straight to \<open>Completed\<close> - and to \<open>Failed\<close> only for a true condition \<open>Failed\<close>, a missing Job, a missing
  source or a source without a backup. From \<open>Resuming\<close> it writes only \<open>Completed\<close>, after it has seen a
  \<open>litestream.yml\<close> that is not paused and, when the count to restore is positive, has the target at
  that count or has failed to read it, or \<open>Failed\<close> for a missing source or one without a backup.
  \<open>Completed\<close> is written from no phase but \<open>Restoring\<close>, \<open>Resuming\<close> and a \<open>Validating\<close> found there.\<close>

theorem restore_outcome_evidence: "guards outcomeGuard [] (RestoreReconcile K req)"
proof (rule RestoreReconcile_guards)
  fix r db and h :: "action list"
  assume start: "runStart h = Some (r, db)" and live: "\<not> terminal (lr_Phase r)"
  have other: "guards outcomeGuard h m"
    if "emits (stepsFrom r) m" "lr_Phase r \<notin> {RestorePhaseRestoring, RestorePhaseValidating, RestorePhaseResuming}"
    for m :: "('w, result \<times> goerr option) handler"
    using that outcome_always [OF start] unfolding guards_def emits_def by (auto elim: yields_weaken)
  have legacy: "guards outcomeGuard h (advance K r p m None)"
    if "lr_Phase r = RestorePhaseValidating" for p m
    using that by (intro outcome_status(2) outcome_run [OF start]) auto
  show "guards outcomeGuard h (reconcilePhase K r db)"
    by (intro reconcilePhase_guards outcome_restoring outcome_resuming legacy start
          steps_handlers(1-3) [THEN other])
       (auto simp: restore_phase_neq(1-8) [symmetric])
next
  fix r and h :: "action list" and msg
  assume "sourceMissing h \<or> (\<exists>db. runStart h = Some (r, db) \<and> \<not> terminal (lr_Phase r) \<and> \<not> hasBackup db)"
  then show "guards outcomeGuard h (failRestore K r msg)"
    by (intro outcome_status(3))
       (auto simp: outcomeEvidence_def restoringOutcome_def resumingOutcome_def restore_phase_neq(1-8) [symmetric])
qed (auto intro!: outcome_quiet [OF kind_handlers(6)])

section \<open>Progress\<close>

fun setsFinal :: "action \<Rightarrow> bool" where
  "setsFinal (PatchRestoreStatus b n (Inr x)) = terminal (lr_Phase n)"
| "setsFinal _ = False"

definition finalPatch :: "action list \<Rightarrow> bool" where
  "finalPatch tr = list_ex setsFinal tr"

lemma finalPatch_simps [simp]:
  "\<not> finalPatch []" "finalPatch (xs @ ys) \<longleftrightarrow> finalPatch xs \<or> finalPatch ys"
  "finalPatch (a # tr) \<longleftrightarrow> setsFinal a \<or> finalPatch tr"
  by (auto simp: finalPatch_def)

text \<open>A run that reports no error asks for another run, or leaves a final phase.\<close>

definition progress :: "result \<times> goerr option \<Rightarrow> action list \<Rightarrow> bool" where
  "progress a tr \<longleftrightarrow> (snd a = None \<longrightarrow> fst a \<noteq> emptyResult \<or> finalPatch tr)"

lemma requeue_neq [simp]:
  "requeueAfter restoreRequeueInterval \<noteq> emptyResult" "requeueAfter (30 * second) \<noteq> emptyResult"
  by (simp_all add: requeueAfter_def emptyResult_def restoreRequeueInterval_def second_def)

lemma progress_simps [simp]:
  "progress (res, Some e) tr" "progress (requeueAfter restoreRequeueInterval, oe) tr"
  "progress (requeueAfter (30 * second), oe) tr"
  "progress (emptyResult, oe) tr \<longleftrightarrow> (oe = None \<longrightarrow> finalPatch tr)"
  by (simp_all add: progress_def requeueAfter_def emptyResult_def restoreRequeueInterval_def second_def)

lemma yields_skip:
  "emits P m \<Longrightarrow> (\<And>a tr. yields (\<lambda>b tr'. R b (tr @ tr')) (f a)) \<Longrightarrow> yields R (State_Monad.bind m f)"
  unfolding emits_def by (erule yields_bind)

lemma yields_status:
  "yields (\<lambda>e tr. e = None \<longrightarrow> terminal ph \<longrightarrow> finalPatch tr) (setStatus K r ph j m o' st ct)"
  "yields (\<lambda>e tr. e = None \<longrightarrow> terminal ph \<longrightarrow> finalPatch tr) (advance K r ph m ct)"
  "yields (\<lambda>e tr. e = None \<longrightarrow> finalPatch tr) (failRestore K r msg)"
  unfolding advance_def setStatus_def failRestore_def
  by (intro yields_intros; simp add: terminal_def)+

lemmas skips = kind_reads [of UNIV, THEN yields_skip, simplified] kind_changes [of UNIV, THEN yields_skip, simplified]

lemma progress_cleanup:
  "yields (\<lambda>e tr. e = None \<longrightarrow> finalPatch tr) (failRestoreWithCleanup K r db msg)"
  unfolding failRestoreWithCleanup_def Let_def
  by (intro yields_intros skips yields_weaken [OF yields_status(1)]; simp add: terminal_def)

lemma progress_launch: "yields progress (launchRestoreJob K r db pvc p sp note o')"
  unfolding launchRestoreJob_def jobLaunched_def setStatus_def withResult_def
  by (intro yields_intros skips; simp)

lemma progress_pending: "yields progress (reconcilePending K r db)"
  unfolding reconcilePending_def storeResolved_def setStatus_def withResult_def
  by (intro yields_intros skips yields_weaken [OF progress_launch]
        yields_bind [OF yields_status(3)]; simp add: progress_def)

lemma progress_lock: "yields progress (reconcileAcquiringLock K r db)"
  unfolding reconcileAcquiringLock_def lockAcquired_def lockHeld_def advance_def setStatus_def
    withResult_def Let_def
  by (intro yields_intros skips; simp)

lemma progress_fence:
  "yields (\<lambda>a tr. \<forall>x. a = Some x \<longrightarrow> progress x tr) (fenceWorkload K r db)"
  unfolding fenceWorkload_def
  by (intro yields_intros skips yields_bind [OF yields_status(3)]; auto)

lemma progress_fencing: "yields progress (reconcileFencing K r db)"
  unfolding reconcileFencing_def Let_def
  by (intro yields_intros skips yields_bind [OF progress_fence] yields_weaken [OF progress_launch];
      simp add: progress_def)

lemma progress_restoring: "yields progress (reconcileRestoring K r db)"
  unfolding reconcileRestoring_def restoreJobSucceeded_def restoreJobFailed_def withResult_def Let_def
  by (intro yields_intros skips yields_bind [OF progress_cleanup] yields_bind [OF yields_status(2)];
      simp add: terminal_def)

lemma progress_resuming: "yields progress (reconcileResuming K r db)"
  unfolding reconcileResuming_def scaleUp_def finishRestore_def withResult_def Let_def
  by (intro yields_intros skips yields_bind [OF yields_status(2)]; simp add: terminal_def)

text \<open>A run after which nothing is left to do: no restore, a deleted or finished one, or a phase that
  this version of the program does not know.\<close>

definition knownPhases :: "string set" where
  "knownPhases = {[], RestorePhasePending, RestorePhaseAcquiringLock, RestorePhaseFencing,
     RestorePhaseRestoring, RestorePhaseValidating, RestorePhaseResuming}"

definition nothingLeft :: "action list \<Rightarrow> bool" where
  "nothingLeft tr \<longleftrightarrow>
     (\<exists>n e tr'. tr = GetRestore n (Inl e) # tr' \<and> IsNotFound e) \<or>
     (\<exists>r. readRestore tr = Some r \<and> (deleting r \<or> terminal (lr_Phase r) \<or> lr_Phase r \<notin> knownPhases))"

definition movesOn :: "result \<times> goerr option \<Rightarrow> action list \<Rightarrow> bool" where
  "movesOn a tr \<longleftrightarrow> (snd a = None \<longrightarrow> fst a \<noteq> emptyResult \<or> finalPatch tr \<or> nothingLeft tr)"

lemma movesOn_progress: "progress a tr \<Longrightarrow> movesOn a (xs @ tr)"
  by (auto simp: progress_def movesOn_def)

lemma progress_phase:
  assumes "lr_Phase r \<in> knownPhases"
  shows "yields progress (reconcilePhase K r db)"
  unfolding reconcilePhase_def withResult_def Let_def
  using assms
  by (intro yields_intros progress_pending progress_lock progress_fencing progress_restoring
        progress_resuming yields_bind [OF yields_status(2)];
      simp add: knownPhases_def)

lemma movesOn_phase:
  "readRestore xs = Some r \<Longrightarrow> yields (\<lambda>a tr. movesOn a (xs @ tr)) (reconcilePhase K r db)"
proof (cases "lr_Phase r \<in> knownPhases")
  case True
  then show ?thesis
    by (intro yields_weaken [OF progress_phase] movesOn_progress)
next
  case False
  assume "readRestore xs = Some r"
  with False have "movesOn a (xs @ tr)" for a tr by (auto simp: movesOn_def nothingLeft_def)
  then show ?thesis
    using False unfolding reconcilePhase_def knownPhases_def by (auto simp: Let_def intro: yields_ret)
qed

lemma movesOn_deleted:
  assumes "readRestore xs = Some r" "deleting r"
  shows "yields (\<lambda>a tr. movesOn a (xs @ tr)) (handleFinalization K r db)"
proof -
  have "movesOn a (xs @ tr)" for a tr using assms by (auto simp: movesOn_def nothingLeft_def)
  then show ?thesis
    using kind_handlers(6) [of K r db] unfolding emits_def by (auto elim: yields_weaken)
qed

lemma movesOn_failed:
  "yields (\<lambda>a tr. movesOn a (xs @ tr)) (withResult emptyResult (failRestore K r msg))"
  unfolding withResult_def
  by (intro yields_bind [OF yields_status(3)]) (auto intro!: yields_ret simp: movesOn_def)

text \<open>C12. A run that reports no error never leaves a restore stuck: it asks for another run, or it
  has written a final phase, or there is nothing left to do.\<close>

theorem restore_progress: "yields movesOn (RestoreReconcile K req)"
proof -
  have phase: "x = Inr r \<Longrightarrow> yields (\<lambda>a tr. movesOn a (GetRestore req x # GetReplica n s # tr)) (reconcilePhase K r db)"
    for x r n s db
    using movesOn_phase [of "[GetRestore req (Inr r), GetReplica n s]" r K db] by simp
  have deleted: "x = Inr r \<Longrightarrow> deleting r \<Longrightarrow>
      yields (\<lambda>a tr. movesOn a (GetRestore req x # GetReplica n s # tr)) (handleFinalization K r db)"
    for x r n s db
    using movesOn_deleted [of "[GetRestore req (Inr r), GetReplica n s]" r K db] by simp
  have failed: "x = Inr r \<Longrightarrow> yields (\<lambda>a tr. movesOn a (GetRestore req x # GetReplica n s # tr))
      (withResult emptyResult (failRestore K r msg))" for x r n s msg
    using movesOn_failed [of "[GetRestore req (Inr r), GetReplica n s]" K r msg] by simp
  show ?thesis
    unfolding RestoreReconcile_def
    by (intro yields_intros phase deleted failed;
        auto simp: movesOn_def nothingLeft_def deleting_def terminal_def requeue_def emptyResult_def)
qed

section \<open>Finalization\<close>

definition pausePatches :: "action list \<Rightarrow> bool" where
  "pausePatches tr = list_ex (\<lambda>a. kind a = PatchesReplica) tr"

lemma pausePatches_simps [simp]:
  "\<not> pausePatches []" "pausePatches (xs @ ys) \<longleftrightarrow> pausePatches xs \<or> pausePatches ys"
  "pausePatches (a # tr) \<longleftrightarrow> kind a = PatchesReplica \<or> pausePatches tr"
  by (auto simp: pausePatches_def)

text \<open>The last call of a run writes the restore \<open>x\<close>, and its error is the error of the run.\<close>

fun lastWrites :: "litestreamRestore \<Rightarrow> goerr option \<Rightarrow> action \<Rightarrow> bool" where
  "lastWrites x e (UpdateRestore x' (Inr y)) \<longleftrightarrow> x' = x \<and> e = None"
| "lastWrites x e (UpdateRestore x' (Inl err)) \<longleftrightarrow> x' = x \<and> e = Some err"
| "lastWrites x e _ \<longleftrightarrow> False"

definition dropsFinalizer :: "lib \<Rightarrow> litestreamRestore \<Rightarrow> goerr option \<Rightarrow> action list \<Rightarrow> bool" where
  "dropsFinalizer L r e tr \<longleftrightarrow> tr \<noteq> [] \<and>
     lastWrites (r\<lparr>lr_Meta := l_RemoveFinalizer L (lr_Meta r) restoreFinalizerName\<rparr>) e (last tr)"

lemma yields_release: "yields (\<lambda>_ tr. \<not> pausePatches tr) (releaseRestoreLock K r)"
  unfolding releaseRestoreLock_def by (auto intro!: yields_intros)

lemma yields_resume: "yields (\<lambda>_ tr. True) (resumeReplication K db)"
  unfolding resumeReplication_def by (auto intro!: yields_intros)

text \<open>C21. The finalization of a restore always ends by removing its finalizer, whatever failed before,
  and reports only the error of that update. A restore deleted in the middle of its work does not
  touch the replica - the pause stays in place - and says so in an event; and nothing is scaled.\<close>

theorem restore_finalization:
  assumes "l_ContainsFinalizer (k_Lib K) (lr_Meta r) restoreFinalizerName"
  shows "yields (\<lambda>a tr. dropsFinalizer (k_Lib K) r (snd a) tr \<and> list_all (\<lambda>x. kind x \<noteq> Scales) tr \<and>
     (midRestore (lr_Phase r) \<longrightarrow> \<not> pausePatches tr \<and>
        (lr_Mode r \<noteq> RestoreModeToPVC \<longrightarrow> db \<noteq> None \<longrightarrow>
           announces ''DeletedMidRestore'' tr)))
     (handleFinalization K r db)"
proof -
  have scales: "yields (\<lambda>_ tr. list_all (\<lambda>x. kind x \<noteq> Scales) tr) (handleFinalization K r db)"
    using kind_handlers(6) [of K r db] unfolding emits_def
    by (rule yields_weaken) (auto simp: list_all_iff)
  have "yields (\<lambda>a tr. dropsFinalizer (k_Lib K) r (snd a) tr \<and>
     (midRestore (lr_Phase r) \<longrightarrow> \<not> pausePatches tr \<and>
        (lr_Mode r \<noteq> RestoreModeToPVC \<longrightarrow> db \<noteq> None \<longrightarrow>
           announces ''DeletedMidRestore'' tr)))
     (handleFinalization K r db)"
    unfolding handleFinalization_def
    using assms
    by (intro yields_intros yields_bind [OF yields_release] yields_bind [OF yields_resume];
        simp add: dropsFinalizer_def restoreEvent_def)
  from yields_conj [OF this scales] show ?thesis by (rule yields_weaken) blast
qed

theorem restore_finalization_witness:
  "yields (\<lambda>a tr. dropsFinalizer sampleLib (sampleRestore RestoreModeInPlace RestorePhaseFencing) (snd a) tr \<and>
     announces ''DeletedMidRestore'' tr)
   (handleFinalization emptyCluster (sampleRestore RestoreModeInPlace RestorePhaseFencing) (Some sampleReplica))"
proof -
  let ?r = "sampleRestore RestoreModeInPlace RestorePhaseFencing"
  have lib: "k_Lib emptyCluster = sampleLib" by (simp add: emptyCluster_def)
  have "l_ContainsFinalizer (k_Lib emptyCluster) (lr_Meta ?r) restoreFinalizerName"
    by (simp add: lib sampleLib_def sampleRestore_def restoreFinalizerName_def)
  from restore_finalization [OF this, of "Some sampleReplica"] show ?thesis
    by (rule yields_weaken) (simp add: lib midRestore_def sampleRestore_def)
qed

end
