(* ===== verification/Restore_Limits.thy ===== *)
theory Restore_Limits
  imports Restore_Outcomes
begin

text \<open>
  The replica count that a restore records and what follows from it, and the runs in which the
  reconciler does less, or more, than its documentation says: a restore that completes without
  scaling the application up, a deletion that un-pauses the restore of someone else, a failure that
  keeps the lock, and a finalizer that comes back.
\<close>

section \<open>The recorded replica count\<close>

text \<open>The count a first run records: the wanted one of the workload it read, zero for a missing one.\<close>

definition countSeen :: "litestreamReplica \<Rightarrow> action list \<Rightarrow> int \<Rightarrow> bool" where
  "countSeen db h n \<longleftrightarrow>
     (\<exists>a\<in>set h. asksTarget db a \<and>
        (targetGone a \<and> n = 0 \<or> (\<exists>wt. readsTarget a = Some wt \<and> n = desiredReplicas wt)))"

fun countGuard :: "litestreamReplica \<Rightarrow> action list \<Rightarrow> action \<Rightarrow> bool" where
  "countGuard db h (PatchRestoreStatus base new x) \<longleftrightarrow>
     (lr_Phase new = RestorePhaseAcquiringLock \<longrightarrow>
        (\<exists>n. st_OriginalReplicas (lr_Status new) = Some n \<and>
           (st_OriginalReplicas (lr_Status base) = Some n \<or> countSeen db h n)))"
| "countGuard db h _ \<longleftrightarrow> True"

lemma count_quiet: "emits (\<lambda>a. kind a \<in> {Reads, CreatesJob}) m \<Longrightarrow> guards (countGuard db) h m"
proof (erule guards_kind)
  fix h a assume "kind a \<in> {Reads, CreatesJob}"
  then show "countGuard db h a" by (cases a) auto
qed

lemma count_failRestore: "guards (countGuard db) h (failRestore K r msg)"
  unfolding failRestore_def setStatus_def by (intro guards_intros; simp)

lemma count_launch: "guards (countGuard db) h (launchRestoreJob K r db' pvc p sp note o')"
  unfolding launchRestoreJob_def jobLaunched_def setStatus_def withResult_def reconcileRestoreConfig_def
  by (intro guards_intros; simp)

text \<open>The first run of an InPlace restore that moves it to the lock records the replica count the
  workload wants, or zero when the workload does not exist, unless a count is recorded already.\<close>

theorem restore_records_count:
  assumes "lr_Phase r \<noteq> RestorePhaseAcquiringLock"
  shows "guards (countGuard db) [] (reconcilePending K r db)"
proof -
  have resolve: "guards (countGuard db) h (resolveRestoreTarget K r db)" for h
    by (rule count_quiet) (intro kind_reads; simp)
  show ?thesis
    unfolding reconcilePending_def storeResolved_def getTargetWorkloadForRestore_def setStatus_def
      withResult_def
    using assms
    by (intro guards_intros resolve [THEN guards_any] count_failRestore [THEN guards_any] count_launch;
        auto simp: countSeen_def asksTarget_def split: option.splits if_splits)
qed

theorem restore_records_count_witness:
  "guards (countGuard sampleReplica) []
     (reconcilePending emptyCluster (sampleRestore RestoreModeInPlace []) sampleReplica)"
  by (rule restore_records_count) (simp add: sampleRestore_def restore_phase_neq(1-8) [symmetric])

section \<open>Completing without scaling up\<close>

text \<open>With a recorded count of zero - the workload was already scaled down when the restore
  started, as it is after a failed restore - the phase \<open>Resuming\<close> never scales the workload, and
  still announces that the application was resumed when it completes.\<close>

theorem resume_without_scaling:
  assumes "restoredReplicas r \<le> 0"
  shows "yields (\<lambda>a tr. list_all (\<lambda>x. kind x \<noteq> Scales) tr \<and>
     (finalPatch tr \<longrightarrow> announces ''ApplicationResumed'' tr)) (reconcileResuming K r db)"
proof -
  have resume: "yields (\<lambda>_ tr. list_all (\<lambda>x. kind x \<noteq> Scales) tr \<and> \<not> finalPatch tr) (resumeReplication K db)"
    "yields (\<lambda>_ tr. list_all (\<lambda>x. kind x \<noteq> Scales) tr \<and> \<not> finalPatch tr) (releaseRestoreLock K r)"
    unfolding resumeReplication_def releaseRestoreLock_def by (intro yields_intros; simp)+
  show ?thesis
    unfolding reconcileResuming_def scaleUp_def finishRestore_def advance_def setStatus_def withResult_def
      Let_def
    using assms
    by (intro yields_intros resume [THEN yields_bind]; simp add: restoreEvent_def)
qed

theorem resume_without_scaling_witness:
  "yields (\<lambda>a tr. list_all (\<lambda>x. kind x \<noteq> Scales) tr)
     (reconcileResuming emptyCluster
        ((sampleRestore RestoreModeInPlace RestorePhaseResuming)\<lparr>lr_Status :=
           (lr_Status (sampleRestore RestoreModeInPlace RestorePhaseResuming))\<lparr>st_OriginalReplicas := Some 0\<rparr>\<rparr>)
        sampleReplica)"
  by (rule yields_weaken [OF resume_without_scaling]) (simp_all add: restoredReplicas_def)

section \<open>Waiting for the lock\<close>

definition waitsForHolder :: "litestreamRestore \<Rightarrow> result \<times> goerr option \<Rightarrow> action list \<Rightarrow> bool" where
  "waitsForHolder r a tr \<longleftrightarrow>
     ((\<exists>l. GetLease (leaseKey r) (Inr l) \<in> set tr \<and> ls_HolderIdentity l \<noteq> Some (lr_Name r)) \<longrightarrow>
        fst a = requeueAfter (30 * second) \<and> list_all (\<lambda>x. kind x \<in> {Reads, SendsStatus}) tr)"

text \<open>A restore that finds the lock in other hands changes nothing but its own status and tries
  again after 30 seconds - however old the Lease is: its acquire time and duration are not read.\<close>

theorem restore_waits_for_holder:
  "yields (waitsForHolder r) (reconcileAcquiringLock K r db)"
proof -
  have status: "yields (\<lambda>_ tr. list_all (\<lambda>x. kind x \<in> {Reads, SendsStatus} \<and>
      (\<forall>k l. x \<noteq> GetLease k (Inr l))) tr) (advance K b ph m ct)" for b ph m ct
    unfolding advance_def setStatus_def by (intro yields_intros; simp)
  have none: "list_all (\<lambda>x. kind x \<in> {Reads, SendsStatus} \<and> (\<forall>k l. x \<noteq> GetLease k (Inr l))) tr \<Longrightarrow>
      GetLease k (Inr l) \<notin> set tr" for tr k l
    by (cases k) (auto simp: list_all_iff)
  have weaker: "list_all (\<lambda>x. kind x \<in> {Reads, SendsStatus} \<and> (\<forall>k l. x \<noteq> GetLease k (Inr l))) tr \<Longrightarrow>
      list_all (\<lambda>x. kind x = Reads \<or> kind x = SendsStatus) tr" for tr
    by (auto simp: list_all_iff)
  have acquired: "yields (\<lambda>_ tr. \<forall>l k. GetLease k (Inr l) \<notin> set tr) (lockAcquired K r db)"
    unfolding lockAcquired_def pauseReplication_def advance_def setStatus_def withResult_def Let_def
    by (intro yields_intros; simp)
  show ?thesis
    unfolding reconcileAcquiringLock_def lockHeld_def withResult_def Let_def
    by (intro yields_intros yields_bind [OF status] yields_weaken [OF acquired];
        auto simp: waitsForHolder_def none weaker leaseKey_def)
qed

section \<open>A failure while fencing\<close>

lemma phase_extends: "yields (\<lambda>_ _. True) (reconcilePhase K r db)"
proof -
  have "guards (\<lambda>_ _. True) [] (reconcilePhase K r db)"
    by (rule reconcilePhase_guards)
       (rule kind_handlers [THEN guards_kind] guards_kind [OF kind_status(2) [of "{Reads, SendsStatus}"]];
        simp)+
  then show ?thesis unfolding guards_def by (rule yields_weaken) simp
qed

lemma finalization_extends: "yields (\<lambda>_ _. True) (handleFinalization K r db)"
  using kind_handlers(6) unfolding emits_def by (rule yields_weaken) simp

definition keepsLockAndPause :: "action \<Rightarrow> bool" where
  "keepsLockAndPause a \<longleftrightarrow> kind a \<noteq> ReleasesLock \<and> (\<forall>b d x. a = PatchReplica b d x \<longrightarrow> d = setPause b)"

lemma keeps_kind: "kind a \<notin> {ReleasesLock, PatchesReplica} \<Longrightarrow> keepsLockAndPause a"
  by (auto simp: keepsLockAndPause_def)

lemma fencing_keeps: "emits keepsLockAndPause (reconcileFencing K r db)"
proof -
  have quiet: "emits keepsLockAndPause m"
    if "emits (\<lambda>a. kind a \<in> {Reads, Announces, SendsStatus, Scales, WritesConfig, CreatesJob}) m" for m :: "('a, 'b) handler"
    by (rule emits_weaken [OF that]) (auto intro: keeps_kind)
  have launch: "emits keepsLockAndPause (launchRestoreJob K x db pvc p sp nt o')" for x pvc p sp nt o'
    unfolding launchRestoreJob_def jobLaunched_def withResult_def
    by (rule quiet) (intro kind_intros; simp)
  have fence: "emits keepsLockAndPause (fenceWorkload K r db)"
    unfolding fenceWorkload_def by (rule quiet) (intro kind_intros; simp)
  have pause: "emits keepsLockAndPause (pauseReplication K db)"
    unfolding pauseReplication_def by (intro emits_intros; simp add: keepsLockAndPause_def)
  show ?thesis
    unfolding reconcileFencing_def Let_def
    by (intro emits_intros launch fence pause; simp add: keeps_kind)
qed

text \<open>What a run that reads a live restore in the phase \<open>Fencing\<close> leaves alone; any other run may do more.\<close>

definition fencingGuard :: "action list \<Rightarrow> action \<Rightarrow> bool" where
  "fencingGuard h a \<longleftrightarrow>
     (\<exists>r. readRestore h = Some r \<and> \<not> deleting r \<and> lr_Phase r = RestorePhaseFencing) \<longrightarrow> keepsLockAndPause a"

lemma fencingGuard_keeps: "emits keepsLockAndPause m \<Longrightarrow> guards fencingGuard h m"
  by (erule guards_emits) (simp add: fencingGuard_def)

lemma guards_excused:
  assumes "readRestore h = Some r" "deleting r \<or> lr_Phase r \<noteq> RestorePhaseFencing" "yields (\<lambda>_ _. True) m"
  shows "guards fencingGuard h m"
proof -
  have "fencingGuard (h @ x) a" for x a
    using assms(1,2) by (auto simp: fencingGuard_def)
  then have "guarded fencingGuard h tr" for tr
    by (induction tr arbitrary: h rule: rev_induct) (auto simp: guarded_append)
  then show ?thesis
    using assms(3) unfolding guards_def by (auto elim: yields_weaken)
qed

text \<open>C36. Whatever happens in a run that reads a restore in the phase \<open>Fencing\<close> that is not being deleted -
  the step to \<open>Failed\<close> included, for whatever reason - no Lease is deleted, and a replica is patched
  only to set the pause annotation. So a restore that fails while it fences keeps the lock and the
  pause; they go when the restore is deleted.\<close>

theorem fencing_keeps_lock_and_pause: "guards fencingGuard [] (RestoreReconcile K req)"
proof (rule RestoreReconcile_guards)
  fix r db and h :: "action list"
  assume start: "runStart h = Some (r, db)"
  show "guards fencingGuard h (reconcilePhase K r db)"
  proof (cases "lr_Phase r = RestorePhaseFencing")
    case True
    then show ?thesis
      by (intro reconcilePhase_guards fencingGuard_keeps fencing_keeps)
         (simp_all add: restore_phase_neq(1-8) [symmetric] restore_phase_neq(1-8) const_defs)
  next
    case False
    then show ?thesis
      using guards_excused [OF runStart_readRestore [OF start] _ phase_extends] by simp
  qed
next
  fix r db and h :: "action list"
  assume "readRestore h = Some r" "deleting r"
  then show "guards fencingGuard h (handleFinalization K r db)"
    using guards_excused finalization_extends by blast
next
  fix r h msg
  show "guards fencingGuard h (failRestore K r msg)"
    by (rule fencingGuard_keeps) (auto simp: failRestore_def setStatus_def keeps_kind intro!: emits_intros)
qed (simp_all add: fencingGuard_def keeps_kind)

section \<open>Deleting a restore\<close>







definition readds :: "'w kube \<Rightarrow> action list \<Rightarrow> bool" where
  "readds K tr \<longleftrightarrow>
     (\<forall>r. readRestore tr = Some r \<and> deleting r \<and>
          \<not> l_ContainsFinalizer (k_Lib K) (lr_Meta r) restoreFinalizerName \<longrightarrow>
        (\<exists>n x. tr = [GetRestore n (Inr r), UpdateRestore (r\<lparr>lr_Meta :=
           l_AddFinalizer (k_Lib K) (lr_Meta r) restoreFinalizerName\<rparr>) x]))"

text \<open>A restore that is being deleted and no longer has the finalizer - another finalizer holds
  it - gets the finalizer added again: the deletion is looked at only after that.\<close>

theorem deleted_restore_regains_finalizer: "yields (\<lambda>_ tr. readds K tr) (RestoreReconcile K req)"
proof -
  have other: "yields (\<lambda>_ tr'. readds K (GetRestore req x # GetReplica n s # tr')) m"
    if "x = Inr r" "l_ContainsFinalizer (k_Lib K) (lr_Meta r) restoreFinalizerName" "yields (\<lambda>_ _. True) m"
    for r n s x m
    using that(3) by (rule yields_weaken) (simp add: readds_def that(1,2))
  have fail: "yields (\<lambda>_ _. True) (withResult emptyResult (failRestore K r msg))" for r msg
    unfolding withResult_def failRestore_def setStatus_def by (intro yields_intros; simp)
  show ?thesis
    unfolding RestoreReconcile_def
    by (intro yields_intros other finalization_extends fail phase_extends; simp add: readds_def)
qed

end
