(* ===== verification/Replica_Lag.thy ===== *)
theory Replica_Lag
  imports Replica_Props
begin

text \<open>
  The arithmetic of the replication lag. Instants are unbounded here, but the difference of two of
  them is an \<open>int64\<close> number of nanoseconds that saturates, and so is the configured limit.
\<close>

section \<open>Durations\<close>

text \<open>\<open>time.ParseDuration\<close> returns a \<open>time.Duration\<close>, an \<open>int64\<close>.\<close>

definition duration_law :: "lib \<Rightarrow> bool" where
  "duration_law L \<longleftrightarrow> (\<forall>s d. l_ParseDuration L s = Some d \<longrightarrow> - (2 ^ 63) \<le> d \<and> d < 2 ^ 63)"

lemma since_bounds: "- (2 ^ 63) \<le> since c t \<and> since c t < 2 ^ 63"
  by (simp add: since_def)

text \<open>Saturation never changes the verdict, but for the largest limit, which nothing exceeds.\<close>

lemma since_exceeds:
  "- (2 ^ 63) \<le> d \<Longrightarrow> d < 2 ^ 63 \<Longrightarrow> since c t > d \<longleftrightarrow> c - t > d \<and> d \<noteq> 2 ^ 63 - 1"
  by (auto simp: since_def)

lemma second_pos: "(0 :: int) < second"
  by (simp add: second_def)

text \<open>What is shown: whole seconds, no further from zero than the lag and less than a second off.\<close>

definition shownFor :: "int \<Rightarrow> int \<Rightarrow> bool" where
  "shownFor d shown \<longleftrightarrow> shown mod second = 0 \<and> \<bar>shown\<bar> \<le> \<bar>d\<bar> \<and> \<bar>d - shown\<bar> < second"

lemma truncate_nonneg:
  assumes "0 \<le> d"
  shows "shownFor d (d - d mod second)"
proof -
  have "0 \<le> d mod second" "d mod second < second" "d mod second \<le> d"
    using assms second_pos by (simp_all add: zmod_le_nonneg_dividend)
  moreover have "(d - d mod second) mod second = 0" by (simp add: minus_mod_eq_mult_div)
  ultimately show ?thesis using assms by (simp add: shownFor_def)
qed

lemma shownFor_minus: "shownFor (- d) s \<Longrightarrow> shownFor d (- s)"
  by (auto simp: shownFor_def zmod_zminus1_eq_if)

lemma truncate_shown: "shownFor d (truncateToSecond d)"
  using truncate_nonneg [of d] shownFor_minus [OF truncate_nonneg [of "- d"]]
  by (auto simp: truncateToSecond_def)

section \<open>Samples\<close>

text \<open>A whole number of seconds that a \<open>float64\<close> holds exactly is that instant.\<close>

lemma instantOfSeconds_whole:
  assumes "\<bar>m\<bar> < 2 ^ 53"
  shows "instantOfSeconds L (Finite m 0) = m * second"
proof -
  have "inInt64 m" "inInt64 (m + 62135596800)" using assms by (auto simp: inInt64_def)
  then show ?thesis
    using assms
    by (simp add: instantOfSeconds_def truncFloat_def sgn_mult_abs ofInt64_exact alignTo_def roundFloat_exact
        unixTime_def wrapInt64_id inInt64_def second_def)
qed

text \<open>A fraction of a second is kept: 100.5 seconds.\<close>

lemma instantOfSeconds_half: "instantOfSeconds L (Finite 201 (- 1)) = 100500 * 1000000"
  by (simp add: instantOfSeconds_def truncFloat_def ofInt64_exact alignTo_def roundFloat_exact inInt64_def
      unixTime_def wrapInt64_def second_def)

section \<open>The scrape\<close>

text \<open>The pod that is asked: the first one listed that has an address and runs the sidecar.\<close>

definition scrapeTarget :: "goerr + pod list \<Rightarrow> string option" where
  "scrapeTarget x = (case x of Inl e \<Rightarrow> None
     | Inr pods \<Rightarrow> map_option pod_PodIP (find (\<lambda>pod. pod_PodIP pod \<noteq> [] \<and>
         (\<exists>cs\<in>set (pod_ContainerStatuses pod). cs_Name cs = ''litestream'' \<and> cs_Running cs)) pods))"

fun asksMetrics :: "action \<Rightarrow> string option" where
  "asksMetrics (HttpGet url y) = Some url"
| "asksMetrics _ = None"

fun lagCalls :: "litestreamReplica \<Rightarrow> workloadTarget \<Rightarrow> action list \<Rightarrow> bool" where
  "lagCalls db wt (ListPods ns sel x # rest) \<longleftrightarrow>
     ns = db_Namespace db \<and> selectorLabels wt = Some sel \<and>
     map asksMetrics rest = (case scrapeTarget x of None \<Rightarrow> []
       | Some ip \<Rightarrow> [Some (''http://'' @ ip @ '':9090/metrics'')])"
| "lagCalls db wt _ \<longleftrightarrow> False"

text \<open>The sample in the answer of that pod.\<close>

fun scrapedSync :: "lib \<Rightarrow> action list \<Rightarrow> instant option" where
  "scrapedSync L (ListPods ns sel (Inr pods) # HttpGet url (Inr body) # rest) =
     parseMetrics L (Split body (CHR 0x0A))"
| "scrapedSync L _ = None"

definition scrapePanics :: "action list \<Rightarrow> bool" where
  "scrapePanics tr \<longleftrightarrow> (\<exists>url. HttpGet url (Inl Panicked) \<in> set tr)"

definition scrapeOutcome ::
  "lib \<Rightarrow> litestreamReplica \<Rightarrow> workloadTarget \<Rightarrow> goerr + instant \<Rightarrow> action list \<Rightarrow> bool" where
  "scrapeOutcome L db wt r tr \<longleftrightarrow>
     (if selectorLabels wt = None then r = Inl Panicked \<and> tr = []
      else lagCalls db wt tr \<and>
        (case scrapedSync L tr of
           Some t \<Rightarrow> r = Inr t
         | None \<Rightarrow> \<exists>e. r = Inl e \<and> (e = Panicked \<longleftrightarrow> scrapePanics tr)))"

lemma runs_in: "runsSidecar pod \<longleftrightarrow>
  (\<exists>cs\<in>set (pod_ContainerStatuses pod). cs_Name cs = ''litestream'' \<and> cs_Running cs)"
  by (auto simp: runsSidecar_def list_ex_iff litestreamSidecar_def)

lemma scrape_outcome: "yields (scrapeOutcome (k_Lib K) db wt) (scrapeReplicationLag K db wt)"
  unfolding scrapeReplicationLag_def fetchLastSyncTime_def runs_in
  by (intro yields_intros)
     (auto simp: scrapeOutcome_def scrapeTarget_def scrapePanics_def)

section \<open>The verdict\<close>

definition lagLimit :: "lib \<Rightarrow> litestreamReplica \<Rightarrow> int option" where
  "lagLimit L db = (if hs_MaxReplicationLag (sp_Health (db_Spec db)) = [] then None
     else l_ParseDuration L (hs_MaxReplicationLag (sp_Health (db_Spec db))))"

text \<open>The lag is above the limit: no saturation here, however far the two instants are apart.\<close>

definition exceeds :: "int \<Rightarrow> instant \<Rightarrow> instant \<Rightarrow> bool" where
  "exceeds limit lastSync current \<longleftrightarrow> current - lastSync > limit \<and> limit \<noteq> 2 ^ 63 - 1"

text \<open>The outcome of a comparison of a sample with the clock.\<close>

definition comparedLag ::
  "lib \<Rightarrow> litestreamReplica \<Rightarrow> string \<Rightarrow> string \<Rightarrow> string \<Rightarrow> bool \<Rightarrow> instant \<Rightarrow> instant \<Rightarrow>
     litestreamReplica \<times> string \<times> string \<times> string \<Rightarrow> bool" where
  "comparedLag L db c rs m over lastSync current out \<longleftrightarrow>
     (\<exists>shown m'. shownFor (max (- (2 ^ 63)) (min (2 ^ 63 - 1) (current - lastSync))) shown \<and>
        (over \<or> m' = m) \<and>
        out = (db\<lparr>db_Status := (db_Status db)\<lparr>rst_LastSuccessfulReplicationTime := Some lastSync,
            rst_ReplicationLag := l_DurationString L shown,
            rst_BackupHealthy := rst_BackupHealthy (db_Status db) \<and> \<not> over\<rparr>\<rparr>,
          if over then ConditionFalse else c, if over then ''ReplicationLagExceeded'' else rs, m'))"

definition lagVerdict ::
  "lib \<Rightarrow> litestreamReplica \<Rightarrow> workloadTarget \<Rightarrow> bool \<Rightarrow> string \<Rightarrow> string \<Rightarrow> string \<Rightarrow> instant \<Rightarrow>
     goerr + litestreamReplica \<times> string \<times> string \<times> string \<Rightarrow> action list \<Rightarrow> bool" where
  "lagVerdict L db wt healthy c rs m current r tr \<longleftrightarrow>
     (case lagLimit L db of
        None \<Rightarrow> r = Inr (db, c, rs, m) \<and> tr = []
      | Some limit \<Rightarrow>
          if \<not> healthy then r = Inr (db, c, rs, m) \<and> tr = []
          else if selectorLabels wt = None then r = Inl Panicked \<and> tr = []
          else lagCalls db wt tr \<and>
            (case scrapedSync L tr of
               None \<Rightarrow> r = (if scrapePanics tr then Inl Panicked else Inr (db, c, rs, m))
             | Some lastSync \<Rightarrow> \<exists>out. r = Inr out \<and>
                 comparedLag L db c rs m (exceeds limit lastSync current) lastSync current out))"

lemma comparedLagI:
  assumes "duration_law L" "l_ParseDuration L txt = Some limit" "over \<longleftrightarrow> since current lastSync > limit"
    and "out = (db\<lparr>db_Status := (db_Status db)\<lparr>rst_LastSuccessfulReplicationTime := Some lastSync,
        rst_ReplicationLag := l_DurationString L (truncateToSecond (since current lastSync)),
        rst_BackupHealthy := rst_BackupHealthy (db_Status db) \<and> \<not> over\<rparr>\<rparr>,
      if over then ConditionFalse else c, if over then ''ReplicationLagExceeded'' else rs,
      if over then m' else m)"
  shows "comparedLag L db c rs m (exceeds limit lastSync current) lastSync current out"
proof -
  have limit: "- (2 ^ 63) \<le> limit" "limit < 2 ^ 63"
    using assms(1,2) by (auto simp: duration_law_def)
  have over: "exceeds limit lastSync current = over"
    unfolding exceeds_def assms(3) since_exceeds [OF limit] ..
  show ?thesis
    unfolding comparedLag_def over
    by (rule exI [of _ "truncateToSecond (since current lastSync)"], rule exI [of _ "if over then m' else m"])
       (simp add: assms(4) truncate_shown since_def)
qed

text \<open>The reading of the clock is the one that follows the scrape.\<close>

definition clockAfterScrape ::
  "'w kube \<Rightarrow> litestreamReplica \<Rightarrow> workloadTarget \<Rightarrow> ('w, action) sys \<Rightarrow> instant" where
  "clockAfterScrape K db wt s = fst (k_Now K (world (snd (run_state (scrapeReplicationLag K db wt) s))))"

lemma lag_run:
  assumes "duration_law (k_Lib K)"
  shows "\<exists>tr. trace (snd (run_state (refineByLag K db wt healthy c rs m) s)) = trace s @ tr \<and>
    lagVerdict (k_Lib K) db wt healthy c rs m (clockAfterScrape K db wt s)
      (fst (run_state (refineByLag K db wt healthy c rs m) s)) tr"
proof (cases "\<not> healthy \<or> lagLimit (k_Lib K) db = None")
  case True
  then show ?thesis
    by (auto simp: refineByLag_def lagVerdict_def lagLimit_def split: option.splits if_splits)
next
  case False
  then obtain limit where healthy and limit: "lagLimit (k_Lib K) db = Some limit" by auto
  then have parsed: "hs_MaxReplicationLag (sp_Health (db_Spec db)) \<noteq> []"
    "l_ParseDuration (k_Lib K) (hs_MaxReplicationLag (sp_Health (db_Spec db))) = Some limit"
    by (auto simp: lagLimit_def split: if_splits)
  obtain scraped s1 where run: "run_state (scrapeReplicationLag K db wt) s = (scraped, s1)" by fastforce
  obtain tr where tr: "trace s1 = trace s @ tr" "scrapeOutcome (k_Lib K) db wt scraped tr"
    using yieldsD [OF scrape_outcome run] by blast
  note compare = comparedLagI [OF assms parsed(2) refl]
  show ?thesis
  proof (cases scraped)
    case (Inl e)
    then show ?thesis
      using tr \<open>healthy\<close>
      by (intro exI [of _ tr]) (auto simp: refineByLag_def parsed run lagVerdict_def limit scrapeOutcome_def
          split: option.splits if_splits)
  next
    case (Inr lastSync)
    have verdict: "selectorLabels wt \<noteq> None" "lagCalls db wt tr" "scrapedSync (k_Lib K) tr = Some lastSync"
      using tr(2) Inr by (auto simp: scrapeOutcome_def split: option.splits if_splits)
    obtain current w where clock: "k_Now K (world s1) = (current, w)" by fastforce
    show ?thesis
      using tr(1) \<open>healthy\<close>
      by (intro exI [of _ tr])
         (auto simp: refineByLag_def parsed run Inr clock Let_def lagVerdict_def limit verdict
          clockAfterScrape_def intro!: compare)
  qed
qed

text \<open>C25. The lag refines the health of a healthy replica with a readable limit, and of no other: then the
  pods of the target are listed and the first one that has an address and runs the sidecar is asked
  for its metrics. When its answer holds a sample, that instant is compared with the reading of the
  clock after the scrape: the replica is marked unhealthy, with the reason for it, exactly when the
  clock is more than the limit ahead, however far the two are apart, and the sample and the lag in
  whole seconds, rounded towards zero, are recorded. When the scrape fails, everything is left as it
  was.\<close>

theorem replica_lag_verdict:
  assumes "duration_law (k_Lib K)"
  shows "\<exists>tr. trace (snd (run_state (refineByLag K db wt healthy c rs m) s)) = trace s @ tr \<and>
    lagVerdict (k_Lib K) db wt healthy c rs m
      (fst (k_Now K (world (snd (run_state (scrapeReplicationLag K db wt) s)))))
      (fst (run_state (refineByLag K db wt healthy c rs m) s)) tr"
  using lag_run [OF assms] unfolding clockAfterScrape_def .

text \<open>A cluster in which a pod reports its last synchronisation at 100.5 seconds; the clock shows 1000.\<close>

definition scrapedCluster :: "unit kube" where
  "scrapedCluster = emptyCluster\<lparr>k_ListPods := (\<lambda>ns sel w. (Inr [samplePod], w)),
     k_HttpGet := (\<lambda>url w. (Inr ''litestream_replica_last_sync_seconds 100.5'', w))\<rparr>"

definition limitedReplica :: litestreamReplica where
  "limitedReplica = sampleReplica\<lparr>db_Spec := (db_Spec sampleReplica)\<lparr>sp_Health := \<lparr>hs_MaxReplicationLag = ''5m''\<rparr>\<rparr>\<rparr>"

lemma duration_law_sample: "duration_law sampleLib"
  by (simp add: duration_law_def sampleLib_def second_def)

lemma limitedReplica_run:
  "\<exists>r. run_state (refineByLag scrapedCluster limitedReplica (WDeployment sampleDeployment) True ConditionTrue
      ''SidecarRunning'' m) start = (r, \<lparr>world = (), trace =
        [ListPods ''ns'' (the (selectorLabels (WDeployment sampleDeployment))) (Inr [samplePod]),
         HttpGet ''http://10.0.0.1:9090/metrics'' (Inr ''litestream_replica_last_sync_seconds 100.5'')]\<rparr>)"
  by (simp add: refineByLag_def scrapeReplicationLag_def fetchLastSyncTime_def scrapedCluster_def emptyCluster_def
      limitedReplica_def sample_defs sampleLib_def start_def runsSidecar_def litestreamSidecar_def
      metricName_def Let_def)

lemma shownFor_unique:
  assumes "shownFor 899500000000 shown"
  shows "shown = 899000000000"
proof -
  obtain k where k: "shown = second * k"
    using assms by (auto simp: shownFor_def elim: dvdE [OF iffD2 [OF dvd_eq_mod_eq_0]])
  then have "899 \<le> k" "k \<le> 899"
    using assms by (auto simp: shownFor_def second_def)
  then show ?thesis using k by (simp add: second_def)
qed

theorem replica_lag_verdict_witness:
  "\<exists>db' m'. fst (run_state (refineByLag scrapedCluster limitedReplica (WDeployment sampleDeployment) True
       ConditionTrue ''SidecarRunning'' []) start) = Inr (db', ConditionFalse, ''ReplicationLagExceeded'', m') \<and>
     rst_LastSuccessfulReplicationTime (db_Status db') = Some (100500 * 1000000) \<and>
     rst_ReplicationLag (db_Status db') = fmt_d (899 * second) \<and> \<not> rst_BackupHealthy (db_Status db')"
proof -
  let ?wt = "WDeployment sampleDeployment"
  let ?run = "run_state (refineByLag scrapedCluster limitedReplica ?wt True ConditionTrue ''SidecarRunning'' []) start"
  let ?tr = "[ListPods ''ns'' (the (selectorLabels ?wt)) (Inr [samplePod]),
    HttpGet ''http://10.0.0.1:9090/metrics'' (Inr ''litestream_replica_last_sync_seconds 100.5'')]"
  have L: "k_Lib scrapedCluster = sampleLib" by (simp add: scrapedCluster_def emptyCluster_def)
  have clock: "fst (k_Now scrapedCluster w) = 1000 * second" for w
    by (simp add: scrapedCluster_def emptyCluster_def)
  obtain tr where tr: "trace (snd ?run) = trace start @ tr"
    "lagVerdict sampleLib limitedReplica ?wt True ConditionTrue ''SidecarRunning'' [] (1000 * second) (fst ?run) tr"
    using replica_lag_verdict [of scrapedCluster limitedReplica ?wt True ConditionTrue "''SidecarRunning''" "[]" start]
      duration_law_sample unfolding L clock by blast
  have "scrapedSync sampleLib ?tr = Some (100500 * 1000000)"
    by (simp add: sampleLib_def metricName_def Let_def instantOfSeconds_half HasPrefix_def Fields_def is_space_def)
  moreover have "tr = ?tr" using tr(1) limitedReplica_run [of "[]"] by (auto simp: start_def)
  ultimately have sync: "scrapedSync sampleLib tr = Some (100500 * 1000000)" by (simp only:)
  have limit: "lagLimit sampleLib limitedReplica = Some (300 * second)"
    by (simp add: lagLimit_def limitedReplica_def sampleLib_def)
  have over: "exceeds (300 * second) (100500 * 1000000) (1000 * second)"
    by (simp add: exceeds_def second_def)
  have sel: "selectorLabels ?wt \<noteq> None" and shown: "l_DurationString sampleLib = fmt_d"
    by (simp_all add: sample_defs sampleLib_def)
  from tr(2) obtain out where "fst ?run = Inr out"
    "comparedLag sampleLib limitedReplica ConditionTrue ''SidecarRunning'' [] True (100500 * 1000000) (1000 * second) out"
    unfolding lagVerdict_def using sync limit over sel by auto
  then show ?thesis
    by (auto simp: comparedLag_def second_def shown dest!: shownFor_unique)
qed

end
