(* ===== verification/Replica_Runs.thy ===== *)
theory Replica_Runs
  imports Replica_Targets Replica_Lag Injector
begin

text \<open>
  Whole runs of the replica reconciler: when it touches the target, when it sends a status, what
  finalization does, what events it emits, and how pods and resources refer to each other.
\<close>

section \<open>One traversal of the reconciler\<close>

text \<open>The bootstrap step changes conditions only.\<close>

lemma yields_bootstrap:
  "yields (\<lambda>r tr. \<forall>db'. r = Inr db' \<longrightarrow> sameObject db db') (reconcileBootstrapConfig K db)"
  unfolding reconcileBootstrapConfig_def
  by (intro yields_intros; simp add: sameObject_def)

definition touchesTarget :: "action \<Rightarrow> bool" where
  "touchesTarget a \<longleftrightarrow> patchesTarget a \<noteq> None"

lemma touchesTarget_simps [simp]:
  "touchesTarget (PatchDeployment d d' r)" "touchesTarget (PatchStatefulSet s s' r2)"
  "patchesTarget a = None \<Longrightarrow> \<not> touchesTarget a"
  by (simp_all add: touchesTarget_def)

text \<open>The steps before the annotation send neither a patch of the target nor a status.\<close>

definition quietAction :: "action \<Rightarrow> bool" where
  "quietAction a \<longleftrightarrow> \<not> touchesTarget a \<and> \<not> sendsStatus a"

lemma quiet_simps [simp]:
  "quietAction (CreateOrUpdateConfigMap cm f x)" "quietAction (GetReplica n r)"
  "quietAction (UpdateReplica d u)" "quietAction (RecordEvent e)"
  "quietAction (GetDeployment n r3)" "quietAction (GetStatefulSet n r4)"
  "quietAction (ListPods ns sel r5)" "quietAction (HttpGet url r6)"
  by (simp_all add: quietAction_def touchesTarget_def sendsStatus_def)

lemma quiet_configs:
  "emits quietAction (reconcileLitestreamConfig K db)"
  "emits quietAction (reconcileBootstrapConfig K db)"
  unfolding reconcileLitestreamConfig_def reconcileBootstrapConfig_def
  by (intro emits_intros; simp)+

lemma ReplicaReconcile_guards:
  fixes K :: "'w kube"
  assumes quiet: "\<And>h a. quietAction a \<Longrightarrow> G h a"
    and fin: "\<And>db h. readsReplica h = Some db \<Longrightarrow> \<not> IsZero (om_DeletionTimestamp (db_Meta db)) \<Longrightarrow>
      guards G h (handleReplicaFinalization K db)"
    and annotate: "\<And>db db' h. readsReplica h = Some db \<Longrightarrow> IsZero (om_DeletionTimestamp (db_Meta db)) \<Longrightarrow>
      sameObject db db' \<Longrightarrow> guards G h (reconcileTargetAnnotation K db')"
    and annotated: "\<And>db'. yields (\<lambda>r tr. r = None \<longrightarrow> S db' tr) (reconcileTargetAnnotation K db')"
    and status: "\<And>db db' h tr. readsReplica h = Some db \<Longrightarrow> sameObject db db' \<Longrightarrow>
      S db' tr \<Longrightarrow> guards G (h @ tr) (updateStatus K db')"
  shows "guards G [] (ReplicaReconcile K req)"
proof -
  have live: "guards G h (State_Monad.bind (reconcileTargetAnnotation K db') (\<lambda>a.
      case a of Some err \<Rightarrow> ret (emptyResult, Some err)
      | None \<Rightarrow> State_Monad.bind (updateStatus K db') (\<lambda>s.
          case s of Some err \<Rightarrow> ret (emptyResult, Some err)
          | None \<Rightarrow> ret (requeueAfter statusSyncInterval, None))))"
    if db: "readsReplica h = Some db" "IsZero (om_DeletionTimestamp (db_Meta db))" "sameObject db db'"
    for h db db'
  proof (rule guards_bind [OF annotate [OF db] annotated], goal_cases)
    case (1 a tr)
    then show ?case
      by (cases a) (auto intro!: guards_intros guards_any status simp: db)
  qed
  have quietG: "guards G h m" if "emits quietAction m" for h and m :: "('w, 'b) handler"
    using that by (rule guards_emits) (rule quiet)
  have boot: "guards G h (State_Monad.bind (reconcileBootstrapConfig K db) (\<lambda>b. case b of
      Inl err \<Rightarrow> ret (emptyResult, Some err) | Inr db' \<Rightarrow> f db'))"
    if "\<And>db' h'. sameObject db db' \<Longrightarrow> guards G (h @ h') (f db')" for h db and f :: "litestreamReplica \<Rightarrow> ('w, result \<times> goerr option) handler"
  proof (rule guards_bind [OF quietG [OF quiet_configs(2)] yields_bootstrap], goal_cases)
    case (1 b tr)
    then show ?case using that by (cases b) (auto intro: guards_ret)
  qed
  show ?thesis
    unfolding ReplicaReconcile_def
    by (intro guards_intros guards_any [OF quietG [OF quiet_configs(1)]] boot fin live quiet;
        simp)
qed

text \<open>What the last two steps leave alone.\<close>

lemma health_touches_none: "emits (\<lambda>a. \<not> touchesTarget a) (updateBackupHealth K db wt t)"
  unfolding updateBackupHealth_def refineByLag_def scrapeReplicationLag_def fetchLastSyncTime_def
    litestreamContainerState_def Let_def
  by (intro emits_intros; simp)

lemma status_touches_none: "emits (\<lambda>a. \<not> touchesTarget a) (updateStatus K db)"
  unfolding updateStatus_def sendStatus_def getTargetWorkload_def Let_def
  by (intro emits_intros health_touches_none; simp)

definition foundTarget :: "litestreamReplica \<Rightarrow> action list \<Rightarrow> bool" where
  "foundTarget db h \<longleftrightarrow> (\<exists>b\<in>set h. asksTarget db b \<and> readsTarget b \<noteq> None)"

lemma foundTarget_append [simp]: "foundTarget db (h @ x) \<longleftrightarrow> foundTarget db h \<or> foundTarget db x"
  by (auto simp: foundTarget_def)

lemma annotation_found:
  "yields (\<lambda>r tr. r = None \<longrightarrow> foundTarget db tr) (reconcileTargetAnnotation K db)"
  unfolding reconcileTargetAnnotation_def patchWorkloadPodTemplate_def patchTarget_def Let_def
  by (intro yields_bind [OF yields_lookup [where db = db]] yields_intros)
     (fastforce simp: foundTarget_def)+

section \<open>The target\<close>

text \<open>C15. A run patches the target only after reading the replica and, under its names, the target itself.
  While the replica lives, the target had at most one replica and did not carry the digest and the
  reference of this resource; the patch writes them, and leaves the replica count and every other
  annotation and label alone. When the replica is deleted, the patch removes exactly those keys.\<close>

theorem replica_target_changes: "guards (targetGuard K) [] (ReplicaReconcile K req)"
proof (rule ReplicaReconcile_guards [where S = foundTarget])
  fix db h
  assume h: "readsReplica h = Some db" and del: "\<not> IsZero (om_DeletionTimestamp (db_Meta db))"
  show "guards (targetGuard K) h (handleReplicaFinalization K db)"
    unfolding handleReplicaFinalization_def removeWorkloadAnnotations_def
  proof (intro guards_if guards_ret guards_bind [OF target_lookup yields_lookup], goal_cases)
    case (1 res tr)
    show ?case
    proof (cases res)
      case (Inr wt)
      then obtain b where "b \<in> set (h @ tr)" "asksTarget db b" "readsTarget b = Some wt"
        using 1 by auto
      then have "guards (targetGuard K) (h @ tr) (patchTarget K removeFromTemplate wt)"
        using h change_remove [OF del] by (intro target_patch [where db = db]) auto
      then show ?thesis
        unfolding Inr by (simp, intro guards_any; (assumption | (intro guards_intros; simp)))
    qed (simp, intro guards_intros; simp)
  qed
qed (auto simp: quietAction_def touchesTarget_def targetGuard_def annotation_found
      intro: target_annotation guards_emits [OF status_touches_none])

text \<open>A guard that only looks for something in the history holds once the history has it.\<close>

lemma guarded_history: "(\<And>x a. G (h @ x) a) \<Longrightarrow> guarded G h tr"
proof (induction tr arbitrary: h)
  case (Cons a tr)
  have "G h a" using Cons.prems [of "[]"] by simp
  moreover have "guarded G (h @ [a]) tr" using Cons.prems by (intro Cons.IH) simp
  ultimately show ?case by simp
qed simp

lemma guards_history: "yields R m \<Longrightarrow> (\<And>x a. G (h @ x) a) \<Longrightarrow> guards G h m"
  unfolding guards_def by (erule yields_weaken) (rule guarded_history)

definition replicaStatusGuard :: "action list \<Rightarrow> action \<Rightarrow> bool" where
  "replicaStatusGuard h a \<longleftrightarrow>
     (sendsStatus a \<longrightarrow> (\<exists>db. readsReplica h = Some db \<and> foundTarget db h))"

lemma annotation_sends_none: "emits (\<lambda>a. \<not> sendsStatus a) (reconcileTargetAnnotation K db)"
  unfolding reconcileTargetAnnotation_def patchWorkloadPodTemplate_def patchTarget_def
    getTargetWorkload_def Let_def
  by (intro emits_intros) (simp_all add: sendsStatus_def)

lemma finalization_sends_none: "emits (\<lambda>a. \<not> sendsStatus a) (handleReplicaFinalization K db)"
  unfolding handleReplicaFinalization_def removeWorkloadAnnotations_def patchTarget_def
    getTargetWorkload_def Let_def
  by (intro emits_intros) (simp_all add: sendsStatus_def)

text \<open>C35. A run sends a status only after it has found the target of the resource. When the lookup
  fails the run ends with that error before any status, so the condition and phase for a missing
  target can only be sent when the target disappears between two lookups of one run.\<close>

theorem replica_status_needs_target: "guards replicaStatusGuard [] (ReplicaReconcile K req)"
proof (rule ReplicaReconcile_guards [where S = foundTarget])
  fix db db' h tr
  assume h: "readsReplica h = Some db" and same: "sameObject db db'" and "foundTarget db' tr"
  then have found: "foundTarget db tr"
    by (simp add: foundTarget_def asksTarget_cong [OF same])
  show "guards replicaStatusGuard (h @ tr) (updateStatus K db')"
    by (rule guards_history [OF updateStatus_patch [where P = "\<lambda>_ _ _. True"]])
       (use h found in \<open>auto simp: replicaStatusGuard_def\<close>)
qed (auto simp: quietAction_def replicaStatusGuard_def annotation_found
      intro: guards_emits [OF annotation_sends_none] guards_emits [OF finalization_sends_none])

section \<open>Finalization\<close>

fun patched :: "action \<Rightarrow> bool" where
  "patched (PatchDeployment d d' (Inr x)) = True"
| "patched (PatchStatefulSet s s' (Inr x)) = True"
| "patched _ = False"

fun updatesReplica :: "action \<Rightarrow> bool" where
  "updatesReplica (UpdateReplica d u) = True"
| "updatesReplica _ = False"

definition withoutFinalizer :: "lib \<Rightarrow> litestreamReplica \<Rightarrow> litestreamReplica" where
  "withoutFinalizer L db = db\<lparr>db_Meta := l_RemoveFinalizer L (db_Meta db) replicaFinalizerName\<rparr>"

definition finalizedAs :: "'w kube \<Rightarrow> litestreamReplica \<Rightarrow> goerr option \<Rightarrow> action list \<Rightarrow> bool" where
  "finalizedAs K db err tr \<longleftrightarrow>
     (\<exists>pre u. tr = pre @ [UpdateReplica (withoutFinalizer (k_Lib K) db) u] \<and>
        err = (case u of Inl e \<Rightarrow> Some e | Inr _ \<Rightarrow> None) \<and>
        \<not> list_ex updatesReplica pre \<and>
        (announces ''ReplicaDeinstrumented'' pre \<longleftrightarrow> list_ex patched pre))"

text \<open>The attempt on the target: its trace, whatever the cluster answers.\<close>

lemma deinstrument_trace:
  "yields (\<lambda>_ tr. \<not> list_ex updatesReplica tr \<and>
      (announces ''ReplicaDeinstrumented'' tr \<longleftrightarrow> list_ex patched tr))
    (State_Monad.bind (getTargetWorkload K db) (\<lambda>res. case res of
       Inl err \<Rightarrow> ret ()
     | Inr wt \<Rightarrow> State_Monad.bind (removeWorkloadAnnotations K wt) (\<lambda>removed. case removed of
         Some err \<Rightarrow> ret ()
       | None \<Rightarrow> recordEvent K (replicaEvent db EventTypeNormal ''ReplicaDeinstrumented'' (m wt)))))"
  unfolding getTargetWorkload_def removeWorkloadAnnotations_def patchTarget_def
  by (intro yields_intros; simp add: replicaEvent_def)

text \<open>C22. A deleted replica without the finalizer is left alone. Otherwise the last call of the run, and
  its only update, drops the finalizer, whatever the lookup and the patch of the target answered:
  an unreachable workload never blocks the deletion. The removal is announced exactly when the
  patch of the target succeeded, and only a failing update is reported as an error.\<close>

theorem replica_finalization:
  "yields (\<lambda>(res, err) tr. res = emptyResult \<and>
     (if l_ContainsFinalizer (k_Lib K) (db_Meta db) replicaFinalizerName
      then finalizedAs K db err tr else err = None \<and> tr = []))
   (handleReplicaFinalization K db)"
proof -
  have last: "yields (\<lambda>(res, err) tr'. res = emptyResult \<and> finalizedAs K db err (tr @ tr'))
      (State_Monad.bind (updateReplica K (withoutFinalizer (k_Lib K) db)) (\<lambda>r. case r of
        Inl err \<Rightarrow> ret (emptyResult, Some err) | Inr _ \<Rightarrow> ret (emptyResult, None)))"
    if "\<not> list_ex updatesReplica tr \<and> (announces ''ReplicaDeinstrumented'' tr \<longleftrightarrow> list_ex patched tr)" for tr
    using that by (intro yields_intros) (auto simp: finalizedAs_def)
  have "yields (\<lambda>(res, err) tr. res = emptyResult \<and> finalizedAs K db err tr)
      (State_Monad.bind (State_Monad.bind (getTargetWorkload K db) (\<lambda>res. case res of
         Inl err \<Rightarrow> ret ()
       | Inr wt \<Rightarrow> State_Monad.bind (removeWorkloadAnnotations K wt) (\<lambda>removed. case removed of
           Some err \<Rightarrow> ret ()
         | None \<Rightarrow> recordEvent K (replicaEvent db EventTypeNormal ''ReplicaDeinstrumented'' (m wt)))))
       (\<lambda>_. State_Monad.bind (updateReplica K (withoutFinalizer (k_Lib K) db)) (\<lambda>r. case r of
        Inl err \<Rightarrow> ret (emptyResult, Some err) | Inr _ \<Rightarrow> ret (emptyResult, None))))" for m
    by (rule yields_bind [OF deinstrument_trace]) (rule yields_weaken [OF last], auto)
  then show ?thesis
    by (auto simp: handleReplicaFinalization_def withoutFinalizer_def intro!: yields_ret)
qed

section \<open>References between pods and resources\<close>

fun asksReplica :: "action \<Rightarrow> nsname option" where
  "asksReplica (GetReplica n r) = Some n"
| "asksReplica _ = None"

lemma splitRef_cut: "splitRef before s = (case Cut s (CHR ''/'') of
    (b, a, found) \<Rightarrow> if found then Some (rev before @ b, a) else None)"
  by (induction s arbitrary: before) (auto split: prod.splits)

lemma Cut_flag: "Cut s sep = (b, a, found) \<Longrightarrow> found \<longleftrightarrow> sep \<in> set s"
  using Cut_cases [of s sep b a found] by (auto split: if_splits)

text \<open>What a reference leads to: the namespace, that of the pod when it is left out, and the name.\<close>

definition referenced :: "string \<Rightarrow> string \<Rightarrow> nsname" where
  "referenced podNamespace ref =
     (let ns = takeWhile (\<lambda>c. c \<noteq> CHR ''/'') ref
      in (if ns = [] then podNamespace else ns, tl (dropWhile (\<lambda>c. c \<noteq> CHR ''/'') ref)))"

lemma Cut_while: "Cut s sep = (if sep \<in> set s
  then (takeWhile (\<lambda>c. c \<noteq> sep) s, tl (dropWhile (\<lambda>c. c \<noteq> sep) s), True) else (s, [], False))"
  by (induction s) (auto split: prod.splits)

text \<open>C38. For a pod whose reference has a slash, the resource that the webhook asks for is the one
  that a change of the pod wakes up: the name behind the first slash, in the namespace before it or,
  when that is empty, of the pod. Without a slash the webhook asks for nothing, while the watch maps
  the pod to the resource of that name in the pod's namespace; a pod without a reference is mapped
  to nothing by either.\<close>

theorem pod_reference_agreement:
  "podToLitestreamReplica pod =
     (let ref = lookup (om_Annotations (pod_Meta pod)) AnnotationConfig; ns = om_Namespace (pod_Meta pod) in
      if ref = [] then [] else if CHR ''/'' \<in> set ref then [referenced ns ref] else [(ns, ref)]) \<and>
   yields (\<lambda>r tr. map asksReplica tr =
       (if CHR ''/'' \<in> set (lookup (om_Annotations (pod_Meta pod)) AnnotationConfig)
        then map Some (podToLitestreamReplica pod) else []))
     (resolveLitestreamReplica K pod (om_Namespace (pod_Meta pod)))"
  by (auto simp: resolveLitestreamReplica_def podToLitestreamReplica_def configAnnotation_def
      splitRef_cut Cut_while referenced_def Let_def intro!: yields_intros)

text \<open>C39. The reference that the reconciler writes into the pod template leads back to the resource:
  both for the webhook, in whatever namespace the pod is, and for the watch.\<close>

theorem replica_reference_roundtrip:
  assumes "om_Annotations (pod_Meta pod) configAnnotation = Some (configRef db)"
    and "CHR ''/'' \<notin> set (db_Namespace db)" and "db_Namespace db \<noteq> []"
  shows "podToLitestreamReplica pod = [(db_Namespace db, db_Name db)] \<and>
    yields (\<lambda>r tr. map asksReplica tr = [Some (db_Namespace db, db_Name db)])
      (resolveLitestreamReplica K pod ns)"
proof -
  have "lookup (om_Annotations (pod_Meta pod)) AnnotationConfig = configRef db"
    using assms(1) by (simp add: lookup_def configAnnotation_def)
  moreover have "Cut (configRef db) (CHR ''/'') = (db_Namespace db, db_Name db, True)"
    using Cut_found [OF assms(2)] by (simp add: configRef_def)
  moreover have "configRef db \<noteq> []" by (simp add: configRef_def)
  ultimately show ?thesis
    using assms(3)
    by (auto simp: resolveLitestreamReplica_def podToLitestreamReplica_def configAnnotation_def
        splitRef_cut Let_def intro!: yields_intros)
qed

theorem replica_reference_roundtrip_witness:
  "podToLitestreamReplica samplePod = [(''ns'', ''app-db'')]"
proof -
  have "om_Annotations (pod_Meta samplePod) configAnnotation = Some (configRef sampleReplica)"
    by (simp add: sample_defs configRef_def configAnnotation_def)
  moreover have "db_Namespace sampleReplica = ''ns''" "db_Name sampleReplica = ''app-db''"
    by (simp_all add: sample_defs)
  ultimately show ?thesis
    using replica_reference_roundtrip [of samplePod sampleReplica "emptyCluster :: unit kube" "''ns''"] by simp
qed

section \<open>The digest and the events\<close>

text \<open>C40. Two resources that differ in a field the digest names - image, recovery mode, database name
  and path, backup switch, the S3 endpoint, bucket, path and secret, log level, sync interval,
  bootstrap script, user and group - are hashed from different inputs, so the rollout annotation
  follows each of them. This needs the fields before the script to be single lines, and the script
  to be one as well where the user or the group differ too. The selected container, the sidecar's
  resources and the bootstrap image are not part of the input: changing them alone never changes
  the annotation.\<close>

theorem injection_digest_fields:
  assumes "oneLineFields db" and "oneLineFields db'" and "scriptsComparable db db'"
    and "digestFields db \<noteq> digestFields db'"
  shows "injectionSpecInput db \<noteq> injectionSpecInput db' \<and>
    injectionSpecHash L (outsideDigest c res img db) = injectionSpecHash L db"
  using input_digestFields [OF assms(1-3)] assms(4) by (auto simp: injectionSpecHash_def input_outsideDigest)

theorem injection_digest_fields_witness:
  "injectionSpecInput sampleReplica \<noteq>
     injectionSpecInput (sampleReplica\<lparr>db_Spec := (db_Spec sampleReplica)\<lparr>sp_Bootstrap :=
       (sp_Bootstrap (db_Spec sampleReplica))\<lparr>bs_SQL := ''a;'' @ newline @ ''b;''\<rparr>\<rparr>\<rparr>)"
proof -
  let ?db' = "sampleReplica\<lparr>db_Spec := (db_Spec sampleReplica)\<lparr>sp_Bootstrap :=
       (sp_Bootstrap (db_Spec sampleReplica))\<lparr>bs_SQL := ''a;'' @ newline @ ''b;''\<rparr>\<rparr>\<rparr>"
  have "oneLineFields sampleReplica" "oneLineFields ?db'"
    by (simp_all add: oneLineFields_def oneLine_def sample_defs const_defs)
  moreover have "scriptsComparable sampleReplica ?db'"
    by (simp add: scriptsComparable_def digestIds_def)
  moreover have "digestFields sampleReplica \<noteq> digestFields ?db'"
    by (simp add: digestFields_def digestSQL_def sample_defs)
  ultimately show ?thesis using injection_digest_fields by blast
qed

section \<open>The health step\<close>

text \<open>
  The outcome of the health step, from what the run was told: the state of the sidecars as listed
  by its first call, and the lag of the sample that its later calls brought, by a clock that does
  not move during the step.
\<close>

definition clockShows :: "'w kube \<Rightarrow> instant \<Rightarrow> bool" where
  "clockShows K current \<longleftrightarrow> (\<forall>w. fst (k_Now K w) = current)"

definition listedHealth :: "action list \<Rightarrow> bool" where
  "listedHealth tr =
     (case tr of ListPods ns sel (Inr pods) # _ \<Rightarrow> sidecarHealthy pods | _ \<Rightarrow> False)"

definition lagAbove :: "lib \<Rightarrow> litestreamReplica \<Rightarrow> instant \<Rightarrow> action list \<Rightarrow> bool" where
  "lagAbove L db current tr \<longleftrightarrow>
     (\<exists>limit lastSync. lagLimit L db = Some limit \<and> scrapedSync L (tl tr) = Some lastSync \<and>
        exceeds limit lastSync current)"

definition healthOutcome ::
  "litestreamReplica \<Rightarrow> litestreamReplica \<Rightarrow> bool \<Rightarrow> bool \<Rightarrow> action list \<Rightarrow> bool" where
  "healthOutcome db new healthy late tr \<longleftrightarrow>
     (announces ''ReplicationHealthy'' tr \<longleftrightarrow> healthy \<and> \<not> rst_BackupHealthy (db_Status db)) \<and>
     (announces ''ReplicationUnhealthy'' tr \<longleftrightarrow> \<not> healthy \<and> rst_BackupHealthy (db_Status db)) \<and>
     (rst_BackupHealthy (db_Status new) \<longleftrightarrow> healthy \<and> \<not> late)"

definition healthEventsOK ::
  "lib \<Rightarrow> instant \<Rightarrow> litestreamReplica \<Rightarrow> goerr + litestreamReplica \<Rightarrow> action list \<Rightarrow> bool" where
  "healthEventsOK L current db r tr \<longleftrightarrow>
     (case r of
        Inl e \<Rightarrow> e = Panicked
      | Inr new \<Rightarrow>
          if bk_Enabled (db_Backup db)
          then healthOutcome db new (listedHealth tr) (lagAbove L db current tr) tr
          else tr = [] \<and> \<not> rst_BackupHealthy (db_Status new))"

fun isEvent :: "action \<Rightarrow> bool" where
  "isEvent (RecordEvent e) = True"
| "isEvent _ = False"

lemma no_event: "list_all (\<lambda>a. \<not> isEvent a) tr \<Longrightarrow> \<not> announces rs tr"
proof (induction tr)
  case (Cons a tr)
  then show ?case by (cases a) auto
qed simp

lemma containerState_listed:
  "yields (\<lambda>r tr. case r of Inl e \<Rightarrow> e = Panicked
     | Inr (healthy, msg) \<Rightarrow> healthy = listedHealth tr \<and> (\<exists>ns sel x. tr = [ListPods ns sel x]))
    (litestreamContainerState K db wt)"
  unfolding litestreamContainerState_def
  by (auto intro!: yields_intros simp: listedHealth_def sidecarVerdict_healthy [symmetric] split: sum.splits
      prod.splits)

lemma listedHealth_Cons: "listedHealth (a # x) = listedHealth [a]"
  by (cases a) (auto simp: listedHealth_def split: sum.splits)

text \<open>What the refinement leaves: a health without a late sample, and no event.\<close>

definition refined ::
  "lib \<Rightarrow> instant \<Rightarrow> litestreamReplica \<Rightarrow> bool \<Rightarrow> goerr + litestreamReplica \<times> string \<times> string \<times> string \<Rightarrow>
     action list \<Rightarrow> bool" where
  "refined L current db healthy r tr \<longleftrightarrow> list_all (\<lambda>a. \<not> isEvent a) tr \<and>
     (case r of Inl e \<Rightarrow> e = Panicked
      | Inr (new, c, rs, m) \<Rightarrow>
          (\<forall>evs a. list_all isEvent evs \<longrightarrow> healthy \<longrightarrow> rst_BackupHealthy (db_Status db) \<longrightarrow>
             rst_BackupHealthy (db_Status new) = (\<not> lagAbove L db current (a # tr @ evs))) \<and>
          (\<not> rst_BackupHealthy (db_Status db) \<longrightarrow> \<not> rst_BackupHealthy (db_Status new)))"

lemma scrapedSync_answer:
  "scrapedSync L (ListPods ns sel (Inr pods) # HttpGet url y # rest) =
     (case y of Inl e \<Rightarrow> None | Inr body \<Rightarrow> parseMetrics L (Split body (CHR 0x0A)))"
  by (cases y) simp_all

lemma scrapedSync_events:
  assumes "lagCalls db wt tr" "list_all isEvent evs"
  shows "scrapedSync L (tr @ evs) = scrapedSync L tr"
  using assms
proof (induction db wt tr rule: lagCalls.induct)
  case (1 db wt ns sel x rest)
  then have "rest = [] \<or> (\<exists>url y. rest = [HttpGet url y])"
    by (auto split: option.splits elim!: asksMetrics.elims)
  then show ?case
    using 1(2) by (cases x; cases evs) (auto simp: scrapedSync_answer elim!: isEvent.elims)
qed simp_all

lemma lagCalls_quiet: "lagCalls db wt tr \<Longrightarrow> list_all (\<lambda>a. \<not> isEvent a) tr"
  by (induction db wt tr rule: lagCalls.induct) (auto split: option.splits elim!: asksMetrics.elims)

lemma refine_health:
  assumes "duration_law (k_Lib K)" "clockShows K current"
  shows "yields (refined (k_Lib K) current db healthy) (refineByLag K db wt healthy c rs m)"
  unfolding yields_def
proof
  fix s
  have clock: "clockAfterScrape K db wt s = current"
    using assms(2) by (simp add: clockShows_def clockAfterScrape_def)
  obtain tr where tr: "trace (snd (run_state (refineByLag K db wt healthy c rs m) s)) = trace s @ tr"
    "lagVerdict (k_Lib K) db wt healthy c rs m current (fst (run_state (refineByLag K db wt healthy c rs m) s)) tr"
    using lag_run [OF assms(1), of db wt healthy c rs m s] unfolding clock by blast
  have "refined (k_Lib K) current db healthy r tr" if "lagVerdict (k_Lib K) db wt healthy c rs m current r tr" for r
    using that lagCalls_quiet [of db wt tr] scrapedSync_events [of db wt tr]
    by (auto simp: refined_def lagVerdict_def lagAbove_def comparedLag_def split: option.splits if_splits)
  then show "\<exists>tr. trace (snd (run_state (refineByLag K db wt healthy c rs m) s)) = trace s @ tr \<and>
      refined (k_Lib K) current db healthy (fst (run_state (refineByLag K db wt healthy c rs m) s)) tr"
    using tr by blast
qed

text \<open>The end of the step: the event, when the health of the sidecars has changed.\<close>

lemma health_announced:
  assumes "bk_Enabled (db_Backup db)" "healthy = listedHealth [a]" "\<not> isEvent a"
    and quiet: "list_all (\<lambda>a. \<not> isEvent a) tr"
    and health: "\<And>evs. list_all isEvent evs \<Longrightarrow>
      rst_BackupHealthy (db_Status new) = (healthy \<and> \<not> lagAbove L db current (a # tr @ evs))"
  shows "yields (\<lambda>r tr'. healthEventsOK L current db r ((a # tr) @ tr'))
    (if healthy \<and> \<not> rst_BackupHealthy (db_Status db) then State_Monad.bind
       (recordEvent K (replicaEvent new' ty1 ''ReplicationHealthy'' m1)) (\<lambda>_. ret (Inr new))
     else if \<not> healthy \<and> rst_BackupHealthy (db_Status db) then State_Monad.bind
       (recordEvent K (replicaEvent new' ty2 ''ReplicationUnhealthy'' m2)) (\<lambda>_. ret (Inr new))
     else ret (Inr new))"
proof -
  have silent: "\<not> announces rs (a # tr)" for rs
    using no_event [of "a # tr"] quiet assms(3) by simp
  then have [simp]: "\<not> tells rs a" "\<not> announces rs tr" for rs by simp_all
  show ?thesis
    using assms(1,2) health [of "[]"] health [of "[RecordEvent e]" for e]
    by (intro yields_intros)
       (simp_all add: healthEventsOK_def healthOutcome_def listedHealth_Cons [of a "_ # _"] listedHealth_Cons [of a tr]
         listedHealth_Cons [of a "tr @ _"] replicaEvent_def)
qed

text \<open>C33. With backups enabled, the two replication events fire exactly when the health of the sidecars
  changes against the recorded backup health, in the respective direction. The new record says
  healthy exactly when the sidecars are and no sample above the limit was scraped: a lag above the
  limit clears it. That does not count as unhealthy for the events: it fires no
  \<open>ReplicationUnhealthy\<close>, and the next run with running sidecars announces \<open>ReplicationHealthy\<close> again.
  With backups disabled the step makes no call and clears the record. The clock stands still during
  the step.\<close>

theorem replica_health_events:
  assumes "duration_law (k_Lib K)" and "clockShows K current"
  shows "yields (healthEventsOK (k_Lib K) current db) (updateBackupHealth K db wt t)"
proof (cases "bk_Enabled (db_Backup db)")
  case True
  show ?thesis
    unfolding updateBackupHealth_def Let_def if_P [OF True]
  proof (rule yields_bind [OF containerState_listed], goal_cases)
    case (1 st tr)
    show ?case
    proof (cases st)
      case (Inr p)
      obtain healthy msg where p: "p = (healthy, msg)" by (cases p)
      obtain ns sel x where tr: "tr = [ListPods ns sel x]" and listed: "healthy = listedHealth tr"
        using 1 unfolding Inr p by auto
      show ?thesis
        unfolding Inr p sum.case prod.case
      proof (rule yields_bind [OF refine_health [OF assms]], goal_cases)
        case (1 r tr')
        show ?case
        proof (cases r)
          case (Inr q)
          obtain new c rs m where q: "q = (new, c, rs, m)" by (cases q)
          have "rst_BackupHealthy (db_Status new) =
              (healthy \<and> \<not> lagAbove (k_Lib K) db current (ListPods ns sel x # tr' @ evs))"
            if "list_all isEvent evs" for evs
            using 1 that unfolding Inr q refined_def by (cases healthy) (auto simp: lagAbove_def lagLimit_def)
          then show ?thesis
            using 1 listed unfolding Inr q sum.case prod.case append_assoc [symmetric] tr append_Cons append_Nil
            by (intro health_announced [OF True, unfolded append_Cons]) (simp_all add: refined_def)
        qed (use 1 in \<open>simp add: healthEventsOK_def yields_ret refined_def\<close>)
      qed
    qed (use 1 in \<open>simp add: healthEventsOK_def yields_ret\<close>)
  qed
next
  case False
  then show ?thesis
    unfolding updateBackupHealth_def Let_def
    by (auto intro!: yields_intros simp: healthEventsOK_def)
qed

text \<open>The sidecar runs, the last synchronisation is late: announced as healthy, recorded as not healthy.\<close>

lemma lateReplica_run:
  "\<exists>new e. run_state (updateBackupHealth scrapedCluster limitedReplica (WDeployment sampleDeployment) t) start =
     (Inr new, \<lparr>world = (), trace =
        [ListPods ''ns'' (the (selectorLabels (WDeployment sampleDeployment))) (Inr [samplePod]),
         ListPods ''ns'' (the (selectorLabels (WDeployment sampleDeployment))) (Inr [samplePod]),
         HttpGet ''http://10.0.0.1:9090/metrics'' (Inr ''litestream_replica_last_sync_seconds 100.5''),
         RecordEvent e]\<rparr>)"
  by (simp add: updateBackupHealth_def litestreamContainerState_def sidecarVerdict_def scanPods_def scanPod_def
      scanStatus_def refineByLag_def scrapeReplicationLag_def fetchLastSyncTime_def scrapedCluster_def
      emptyCluster_def limitedReplica_def sample_defs sampleLib_def start_def runsSidecar_def
      litestreamSidecar_def metricName_def Let_def markReplica_def HasPrefix_def Fields_def is_space_def
      instantOfSeconds_half since_def second_def)

theorem replica_health_events_witness:
  "\<exists>new. fst (run_state (updateBackupHealth scrapedCluster limitedReplica (WDeployment sampleDeployment) 0) start) =
       Inr new \<and> \<not> rst_BackupHealthy (db_Status new) \<and>
     announces ''ReplicationHealthy'' (trace (snd (run_state
       (updateBackupHealth scrapedCluster limitedReplica (WDeployment sampleDeployment) 0) start)))"
proof -
  let ?run = "run_state (updateBackupHealth scrapedCluster limitedReplica (WDeployment sampleDeployment) 0) start"
  have L: "k_Lib scrapedCluster = sampleLib" and clock: "clockShows scrapedCluster (1000 * second)"
    by (simp_all add: scrapedCluster_def emptyCluster_def clockShows_def)
  have ok: "healthEventsOK sampleLib (1000 * second) limitedReplica (fst ?run) (trace (snd ?run))"
    using yieldsD [OF replica_health_events [OF _ clock, of limitedReplica "WDeployment sampleDeployment" 0]
        prod.collapse [symmetric], of start] duration_law_sample
    by (simp add: L start_def)
  have status: "bk_Enabled (db_Backup limitedReplica)" "\<not> rst_BackupHealthy (db_Status limitedReplica)"
    by (simp_all add: limitedReplica_def sample_defs)
  have listed: "sidecarHealthy [samplePod]"
    by (simp add: sidecarVerdict_healthy [symmetric] sidecarVerdict_def scanPods_def scanPod_def scanStatus_def
        sample_defs litestreamSidecar_def)
  have sync: "scrapedSync sampleLib (ListPods ns sel (Inr [samplePod]) # HttpGet url
      (Inr ''litestream_replica_last_sync_seconds 100.5'') # rest) = Some 100500000000" for ns sel url rest
    by (simp add: sampleLib_def metricName_def Let_def instantOfSeconds_half HasPrefix_def Fields_def is_space_def)
  have late: "lagLimit sampleLib limitedReplica = Some 300000000000"
    "exceeds 300000000000 100500000000 (1000 * second)"
    by (simp_all add: lagLimit_def limitedReplica_def sampleLib_def exceeds_def second_def)
  obtain new e where "fst ?run = Inr new" "trace (snd ?run) =
      [ListPods ''ns'' (the (selectorLabels (WDeployment sampleDeployment))) (Inr [samplePod]),
       ListPods ''ns'' (the (selectorLabels (WDeployment sampleDeployment))) (Inr [samplePod]),
       HttpGet ''http://10.0.0.1:9090/metrics'' (Inr ''litestream_replica_last_sync_seconds 100.5''),
       RecordEvent e]"
    using lateReplica_run [of 0] by force
  then show ?thesis
    using ok status listed late
    by (simp add: healthEventsOK_def healthOutcome_def listedHealth_def lagAbove_def sync del: scrapedSync.simps)
qed

end
