(* ===== verification/Injector_Wellformed.thy ===== *)
theory Injector_Wellformed
  imports Injector_Props "HOL-Library.Multiset"
begin

text \<open>
  The rules that the API server checks on a pod and that injection could break: container names are
  unique over the init and the regular containers, volume names are unique, and every mount refers
  to a volume of the pod, at a path that the container uses once. Injection keeps them exactly when
  the pod does not already use a name or a path that injection adds; the webhook itself tests one of
  these names only.
\<close>

definition containers :: "podSpec \<Rightarrow> container list" where
  "containers ps = ps_InitContainers ps @ ps_Containers ps"

definition volumeNames :: "podSpec \<Rightarrow> string set" where
  "volumeNames ps = vol_Name ` set (ps_Volumes ps)"

definition mountsOK :: "string set \<Rightarrow> container \<Rightarrow> bool" where
  "mountsOK vols c \<longleftrightarrow> distinct (map vm_MountPath (ct_VolumeMounts c)) \<and>
     list_all (\<lambda>m. vm_Name m \<in> vols) (ct_VolumeMounts c)"

definition podSpecOK :: "podSpec \<Rightarrow> bool" where
  "podSpecOK ps \<longleftrightarrow> distinct (map ct_Name (containers ps)) \<and> distinct (map vol_Name (ps_Volumes ps)) \<and>
     list_all (mountsOK (volumeNames ps)) (containers ps)"

section \<open>What injection adds\<close>

definition initBefore :: "litestreamReplica \<Rightarrow> resolvedMount \<Rightarrow> container list" where
  "initBefore db mount = (if restoreInjected db then [autoRestoreContainer db mount] else [])"

definition initAfter :: "litestreamReplica \<Rightarrow> resolvedMount \<Rightarrow> container list" where
  "initAfter db mount = (if bootstrapInjected db then [bootstrapContainer db mount] else [])"

definition addedVolumes :: "litestreamReplica \<Rightarrow> volume list" where
  "addedVolumes db = configMapVolume litestreamConfigVolume (db_Name db @ ''-litestream'') #
     (if bootstrapInjected db then [configMapVolume dbBootstrapSQLVolume (db_Name db @ ''-bootstrap-sql'')] else [])"

definition added :: "litestreamReplica \<Rightarrow> resolvedMount \<Rightarrow> container list" where
  "added db mount = buildSidecar db mount # initBefore db mount @ initAfter db mount"

text \<open>No name or path that injection adds is in use.\<close>

definition clashFree :: "podSpec \<Rightarrow> litestreamReplica \<Rightarrow> resolvedMount \<Rightarrow> bool" where
  "clashFree ps db mount \<longleftrightarrow>
     ct_Name ` set (added db mount) \<inter> ct_Name ` set (containers ps) = {} \<and>
     vol_Name ` set (addedVolumes db) \<inter> volumeNames ps = {} \<and>
     mt_mountPath mount \<noteq> litestreamConfigMount \<and>
     (bootstrapInjected db \<longrightarrow> mt_mountPath mount \<noteq> ''/bootstrap'')"

lemma added_names: "distinct (map ct_Name (added db mount))"
  by (simp add: added_def initBefore_def initAfter_def) (simp add: const_defs)

lemma added_volumes:
  "distinct (map vol_Name (addedVolumes db))"
  "vol_Name ` set (addedVolumes db) =
     insert litestreamConfigVolume (if bootstrapInjected db then {dbBootstrapSQLVolume} else {})"
  by (simp_all add: addedVolumes_def configMapVolume_def)

lemma sidecar_mounts:
  "mountsOK vols (buildSidecar db mount) \<longleftrightarrow>
     mt_mountPath mount \<noteq> litestreamConfigMount \<and> mt_volumeName mount \<in> vols \<and> litestreamConfigVolume \<in> vols"
  "mountsOK vols (autoRestoreContainer db mount) \<longleftrightarrow>
     mt_mountPath mount \<noteq> litestreamConfigMount \<and> mt_volumeName mount \<in> vols \<and> litestreamConfigVolume \<in> vols"
  "mountsOK vols (bootstrapContainer db mount) \<longleftrightarrow>
     mt_mountPath mount \<noteq> ''/bootstrap'' \<and> mt_volumeName mount \<in> vols \<and> dbBootstrapSQLVolume \<in> vols"
  by (simp_all add: mountsOK_def configMountRO_def autoRestoreContainer_def bootstrapContainer_def
      buildLitestreamInitContainer_def)

lemma added_mounts:
  assumes "mt_volumeName mount \<in> vols"
  shows "list_all (mountsOK (vols \<union> vol_Name ` set (addedVolumes db))) (added db mount) \<longleftrightarrow>
     mt_mountPath mount \<noteq> litestreamConfigMount \<and> (bootstrapInjected db \<longrightarrow> mt_mountPath mount \<noteq> ''/bootstrap'')"
  using assms by (auto simp: added_def initBefore_def initAfter_def sidecar_mounts added_volumes(2))

lemma mountsOK_mono: "mountsOK vols c \<Longrightarrow> vols \<subseteq> vols' \<Longrightarrow> mountsOK vols' c"
  by (auto simp: mountsOK_def list_all_iff)

lemma inject_spec:
  assumes "inject pod db = Inr pod'"
  obtains mount where
    "findVolumeForPath pod (sp_DatabasePath (db_Spec db)) (sp_Container (db_Spec db)) = Inr mount"
    "mset (containers (pod_Spec pod')) = mset (added db mount @ containers (pod_Spec pod))"
    "ps_Volumes (pod_Spec pod') = ps_Volumes (pod_Spec pod) @ addedVolumes db"
  using assms
proof (rule inject_parts)
  fix mount
  assume m: "findVolumeForPath pod (sp_DatabasePath (db_Spec db)) (sp_Container (db_Spec db)) = Inr mount"
    and c: "ps_Containers (pod_Spec pod') = ps_Containers (pod_Spec pod) @ [buildSidecar db mount]"
    and i: "ps_InitContainers (pod_Spec pod') =
       (if restoreInjected db then [autoRestoreContainer db mount] else []) @
       ps_InitContainers (pod_Spec pod) @
       (if bootstrapInjected db then [bootstrapContainer db mount] else [])"
    and v: "ps_Volumes (pod_Spec pod') = ps_Volumes (pod_Spec pod) @
       configMapVolume litestreamConfigVolume (db_Name db @ ''-litestream'') #
       (if bootstrapInjected db
        then [configMapVolume dbBootstrapSQLVolume (db_Name db @ ''-bootstrap-sql'')] else [])"
  show thesis
    by (rule that [OF m]) (auto simp: containers_def added_def initBefore_def initAfter_def c i v addedVolumes_def)
qed

section \<open>Well-formed pods\<close>

text \<open>The mount that is found belongs to the pod, so its volume is declared.\<close>

lemma found_volume:
  assumes "findVolumeForPath pod p n = Inr mount" "podSpecOK (pod_Spec pod)"
  shows "mt_volumeName mount \<in> volumeNames (pod_Spec pod)"
  using assms(1)
proof (rule findVolumeForPath_Inr)
  fix c v
  assume c: "findTargetContainer (ps_Containers (pod_Spec pod)) n = Some c"
    and v: "findVolume_scan p (ct_VolumeMounts c) = Some v"
    and m: "mount = \<lparr>mt_volumeName = vm_Name v, mt_mountPath = vm_MountPath v, mt_subPath = vm_SubPath v\<rparr>"
  have "mountsOK (volumeNames (pod_Spec pod)) c"
    using assms(2) findTargetContainer_in [OF c] by (auto simp: podSpecOK_def containers_def list_all_iff)
  moreover have "v \<in> set (ct_VolumeMounts c)" using webhook_search.search_covers [OF v] by simp
  ultimately show ?thesis by (simp add: mountsOK_def m list_all_iff)
qed

text \<open>C17. Injection turns a well-formed pod into a well-formed one exactly when the pod uses none of the
  names it adds - of the sidecar, of the init containers, of the volumes - and the data volume is not
  mounted where the added configuration is.\<close>

theorem inject_wellformed:
  assumes "inject pod db = Inr pod'" and "podSpecOK (pod_Spec pod)"
  shows "\<exists>mount. findVolumeForPath pod (sp_DatabasePath (db_Spec db)) (sp_Container (db_Spec db)) = Inr mount \<and>
     (podSpecOK (pod_Spec pod') \<longleftrightarrow> clashFree (pod_Spec pod) db mount)"
  using assms(1)
proof (rule inject_spec)
  fix mount
  let ?ps = "pod_Spec pod" and ?ps' = "pod_Spec pod'"
  assume m: "findVolumeForPath pod (sp_DatabasePath (db_Spec db)) (sp_Container (db_Spec db)) = Inr mount"
    and cs: "mset (containers ?ps') = mset (added db mount @ containers ?ps)"
    and vs: "ps_Volumes ?ps' = ps_Volumes ?ps @ addedVolumes db"
  have vols: "volumeNames ?ps' = volumeNames ?ps \<union> vol_Name ` set (addedVolumes db)"
    using vs by (simp add: volumeNames_def image_Un)
  have "distinct (map ct_Name (containers ?ps')) \<longleftrightarrow> distinct (map ct_Name (added db mount @ containers ?ps))"
    by (rule mset_eq_imp_distinct_iff) (simp only: mset_map cs)
  moreover have "set (containers ?ps') = set (added db mount) \<union> set (containers ?ps)"
    using mset_eq_setD [OF cs] by simp
  moreover have "list_all (mountsOK (volumeNames ?ps')) (containers ?ps)"
    using assms(2) mountsOK_mono [of "volumeNames ?ps" _ "volumeNames ?ps'"] vols
    by (auto simp: podSpecOK_def list_all_iff)
  ultimately have "podSpecOK ?ps' \<longleftrightarrow> clashFree ?ps db mount"
    using assms(2) added_names [of db mount] added_volumes(1) [of db]
      added_mounts [OF found_volume [OF m assms(2)], of db] vs vols
    by (auto simp: podSpecOK_def clashFree_def list_all_iff volumeNames_def)
  with m show ?thesis by blast
qed

theorem inject_wellformed_witness: "podSpecOK (pod_Spec sampleInjected)"
proof -
  have "podSpecOK (pod_Spec samplePod)"
    by (simp add: podSpecOK_def containers_def volumeNames_def mountsOK_def sample_defs)
  then obtain mount where m: "findVolumeForPath samplePod (sp_DatabasePath (db_Spec sampleReplica))
      (sp_Container (db_Spec sampleReplica)) = Inr mount"
    and iff: "podSpecOK (pod_Spec sampleInjected) \<longleftrightarrow> clashFree (pod_Spec samplePod) sampleReplica mount"
    using inject_wellformed [OF inject_sampleInjected] by blast
  have "mt_mountPath mount = ''/data''"
    using m by (auto simp: findVolumeForPath_def findTargetContainer_def findVolume_scan_def sample_defs HasPrefix_def)
  then have "clashFree (pod_Spec samplePod) sampleReplica mount"
    by (auto simp: clashFree_def added_def initBefore_def initAfter_def addedVolumes_def configMapVolume_def
        containers_def volumeNames_def sample_defs const_defs)
  with iff show ?thesis by simp
qed

end
