(* ===== verification/Manager.thy ===== *)
theory Manager
  imports Validators Replica_Runs
begin

text \<open>
  \<open>cmd/main.go\<close> and the \<open>SetupWithManager\<close> functions: from the parsed flags to a running manager.
  Building the scheme, the manager, the clientset, the certificate watchers and the registrations
  are calls of controller-runtime and client-go; they are the functions of the record \<open>runtime\<close>, each
  of which may fail. Log lines are left out. A TLS option is the function it stands for: the one
  that turns HTTP/2 off, or the one that takes certificates from a watcher.
\<close>

section \<open>Flags and options\<close>

record managerFlags =
  fl_metricsAddr :: string
  fl_probeAddr :: string
  fl_enableLeaderElection :: bool
  fl_secureMetrics :: bool
  fl_webhookCertPath :: string
  fl_webhookCertName :: string
  fl_webhookCertKey :: string
  fl_metricsCertPath :: string
  fl_metricsCertName :: string
  fl_metricsCertKey :: string
  fl_enableHTTP2 :: bool

definition defaultFlags :: managerFlags where
  "defaultFlags =
     \<lparr>fl_metricsAddr = ''0'', fl_probeAddr = '':8081'', fl_enableLeaderElection = False,
      fl_secureMetrics = True, fl_webhookCertPath = [], fl_webhookCertName = ''tls.crt'',
      fl_webhookCertKey = ''tls.key'', fl_metricsCertPath = [], fl_metricsCertName = ''tls.crt'',
      fl_metricsCertKey = ''tls.key'', fl_enableHTTP2 = False\<rparr>"

text \<open>A watcher is known by its two files.\<close>

type_synonym certWatcher = "string \<times> string"

datatype tlsOption = DisableHTTP2 | CertificatesOf certWatcher

record metricsOptions =
  mo_BindAddress :: string
  mo_SecureServing :: bool
  mo_TLSOpts :: "tlsOption list"
  mo_AuthFilter :: bool

record managerOptions =
  mg_Metrics :: metricsOptions
  mg_WebhookTLSOpts :: "tlsOption list"
  mg_HealthProbeBindAddress :: string
  mg_LeaderElection :: bool
  mg_LeaderElectionID :: string

text \<open>\<open>filepath.Join\<close> of a directory, which is not empty here, and a file name.\<close>

definition joinPath :: "string \<Rightarrow> string \<Rightarrow> string" where
  "joinPath dir file = Clean (if file = [] then dir else dir @ ''/'' @ file)"

definition webhookWatcher :: "managerFlags \<Rightarrow> certWatcher option" where
  "webhookWatcher fl =
     (if length (fl_webhookCertPath fl) > 0
      then Some (joinPath (fl_webhookCertPath fl) (fl_webhookCertName fl),
                 joinPath (fl_webhookCertPath fl) (fl_webhookCertKey fl))
      else None)"

definition metricsWatcher :: "managerFlags \<Rightarrow> certWatcher option" where
  "metricsWatcher fl =
     (if length (fl_metricsCertPath fl) > 0
      then Some (joinPath (fl_metricsCertPath fl) (fl_metricsCertName fl),
                 joinPath (fl_metricsCertPath fl) (fl_metricsCertKey fl))
      else None)"

definition tlsOptions :: "managerFlags \<Rightarrow> tlsOption list" where
  "tlsOptions fl = (if \<not> fl_enableHTTP2 fl then [DisableHTTP2] else [])"

definition withCertificates :: "tlsOption list \<Rightarrow> certWatcher option \<Rightarrow> tlsOption list" where
  "withCertificates opts w = (case w of None \<Rightarrow> opts | Some cw \<Rightarrow> opts @ [CertificatesOf cw])"

definition managerOptionsOf :: "managerFlags \<Rightarrow> managerOptions" where
  "managerOptionsOf fl =
     (let tlsOpts = tlsOptions fl;
          webhookTLSOpts = withCertificates tlsOpts (webhookWatcher fl);
          metricsServerOptions = \<lparr>mo_BindAddress = fl_metricsAddr fl, mo_SecureServing = fl_secureMetrics fl,
            mo_TLSOpts = tlsOpts, mo_AuthFilter = False\<rparr>;
          metricsServerOptions = (if fl_secureMetrics fl then metricsServerOptions\<lparr>mo_AuthFilter := True\<rparr>
            else metricsServerOptions);
          metricsServerOptions = metricsServerOptions\<lparr>mo_TLSOpts :=
            withCertificates (mo_TLSOpts metricsServerOptions) (metricsWatcher fl)\<rparr>
      in \<lparr>mg_Metrics = metricsServerOptions, mg_WebhookTLSOpts = webhookTLSOpts,
          mg_HealthProbeBindAddress = fl_probeAddr fl, mg_LeaderElection = fl_enableLeaderElection fl,
          mg_LeaderElectionID = ''dc63c944.litestream.io''\<rparr>)"

section \<open>Controllers and webhooks\<close>

text \<open>What a controller is registered with: its own kind, the kinds it owns and the kinds it watches.\<close>

record controllerSetup =
  cn_Named :: string
  cn_For :: string
  cn_Owns :: "string list"
  cn_Watches :: "string list"

definition replicaSetup :: controllerSetup where
  "replicaSetup = \<lparr>cn_Named = ''litestreamreplica'', cn_For = ''LitestreamReplica'',
     cn_Owns = [''ConfigMap''], cn_Watches = [''Pod'', ''Deployment'', ''StatefulSet'']\<rparr>"

definition restoreSetup :: controllerSetup where
  "restoreSetup = \<lparr>cn_Named = ''litestreamrestore'', cn_For = ''LitestreamRestore'',
     cn_Owns = [''Job'', ''Lease''], cn_Watches = []\<rparr>"

text \<open>An object that a watch delivers, and the requests of the mapping function of its kind.\<close>

datatype watched = WatchedPod pod | WatchedDeployment deployment | WatchedStatefulSet statefulSet

fun watchRequests :: "'w kube \<Rightarrow> watched \<Rightarrow> ('w, nsname list) handler" where
  "watchRequests K (WatchedPod p) = ret (podToLitestreamReplica p)"
| "watchRequests K (WatchedDeployment d) = deploymentToLitestreamReplica K d"
| "watchRequests K (WatchedStatefulSet s) = statefulSetToLitestreamReplica K s"

text \<open>
  What the components are built with. The manager hands out its client, which reads from caches, its
  scheme, a reader that asks the API server every time, and recorders for events; the clientset is
  made from the manager's configuration.
\<close>

datatype handle =
    ManagerClient | ManagerScheme | ManagerAPIReader | EventRecorderFor string | Clientset
  | DecoderFor handle

record replicaReconciler =
  rpr_Client :: handle
  rpr_Scheme :: handle
  rpr_Recorder :: handle

record restoreReconciler =
  rsr_Client :: handle
  rsr_Scheme :: handle
  rsr_Recorder :: handle
  rsr_KubeClient :: handle
  rsr_APIReader :: handle

record sidecarInjector =
  sij_Client :: handle
  sij_Decoder :: handle

record replicaValidator =
  rvl_Client :: "handle option"

datatype reconciler = ReplicaReconciler replicaReconciler | RestoreReconciler restoreReconciler

text \<open>The validator of restores has no fields. That of replicas is built empty and gets the manager's
  client when it is registered.\<close>

datatype validator = ReplicaValidator replicaValidator | RestoreValidator

definition newReplicaReconciler :: replicaReconciler where
  "newReplicaReconciler = \<lparr>rpr_Client = ManagerClient, rpr_Scheme = ManagerScheme,
     rpr_Recorder = EventRecorderFor ''litestreamreplica-controller''\<rparr>"

definition newRestoreReconciler :: restoreReconciler where
  "newRestoreReconciler = \<lparr>rsr_Client = ManagerClient, rsr_Scheme = ManagerScheme,
     rsr_Recorder = EventRecorderFor ''litestreamrestore-controller'', rsr_KubeClient = Clientset,
     rsr_APIReader = ManagerAPIReader\<rparr>"

definition newSidecarInjector :: sidecarInjector where
  "newSidecarInjector = \<lparr>sij_Client = ManagerAPIReader, sij_Decoder = DecoderFor ManagerScheme\<rparr>"

definition withManagerClient :: "replicaValidator \<Rightarrow> replicaValidator" where
  "withManagerClient v = v\<lparr>rvl_Client := Some ManagerClient\<rparr>"

section \<open>The scheme\<close>

record groupVersion =
  gv_Group :: string
  gv_Version :: string

definition GroupVersion :: groupVersion where
  "GroupVersion = \<lparr>gv_Group = ''litestream.io'', gv_Version = ''v1''\<rparr>"

text \<open>The types that are registered, by the names of their Go types, which become their kinds.\<close>

definition knownTypes :: "string list" where
  "knownTypes = [''LitestreamReplica'', ''LitestreamReplicaList'', ''LitestreamRestore'', ''LitestreamRestoreList'']"

definition podWebhookPath :: string where "podWebhookPath = ''/mutate-core-v1-pod''"

section \<open>main\<close>

datatype setupCall =
    AddToScheme string "goerr option"
  | AddKnownTypes groupVersion "string list"
  | AddToGroupVersion groupVersion
  | NewCertWatcher certWatcher "goerr option"
  | GetConfig "goerr option"
  | NewManager managerOptions "goerr option"
  | AddController reconciler controllerSetup "goerr option"
  | NewClientset "goerr option"
  | AddValidator validator string "goerr option"
  | RegisterHandler string sidecarInjector
  | AddRunnable certWatcher "goerr option"
  | AddHealthzCheck string "goerr option"
  | AddReadyzCheck string "goerr option"
  | StartManager "goerr option"

record 'w runtime =
  rn_AddToScheme :: "string \<Rightarrow> 'w \<Rightarrow> goerr option \<times> 'w"
  rn_AddKnownTypes :: "groupVersion \<Rightarrow> string list \<Rightarrow> 'w \<Rightarrow> unit \<times> 'w"
  rn_AddToGroupVersion :: "groupVersion \<Rightarrow> 'w \<Rightarrow> unit \<times> 'w"
  rn_NewCertWatcher :: "certWatcher \<Rightarrow> 'w \<Rightarrow> goerr option \<times> 'w"
  rn_GetConfig :: "'w \<Rightarrow> goerr option \<times> 'w"
  rn_NewManager :: "managerOptions \<Rightarrow> 'w \<Rightarrow> goerr option \<times> 'w"
  rn_AddController :: "reconciler \<Rightarrow> controllerSetup \<Rightarrow> 'w \<Rightarrow> goerr option \<times> 'w"
  rn_NewClientset :: "'w \<Rightarrow> goerr option \<times> 'w"
  rn_AddValidator :: "validator \<Rightarrow> string \<Rightarrow> 'w \<Rightarrow> goerr option \<times> 'w"
  rn_RegisterHandler :: "string \<Rightarrow> sidecarInjector \<Rightarrow> 'w \<Rightarrow> unit \<times> 'w"
  rn_AddRunnable :: "certWatcher \<Rightarrow> 'w \<Rightarrow> goerr option \<times> 'w"
  rn_AddHealthzCheck :: "string \<Rightarrow> 'w \<Rightarrow> goerr option \<times> 'w"
  rn_AddReadyzCheck :: "string \<Rightarrow> 'w \<Rightarrow> goerr option \<times> 'w"
  rn_Start :: "'w \<Rightarrow> goerr option \<times> 'w"

type_synonym ('w, 'a) setupProg = "('w, setupCall, 'a) prog"

text \<open>A call whose error ends the process with the given exit code: \<open>os.Exit(1)\<close>, or 2 for a panic.\<close>

definition orExit :: "int \<Rightarrow> ('w, goerr option) setupProg \<Rightarrow> ('w, int) setupProg \<Rightarrow> ('w, int) setupProg" where
  "orExit code m k = do {
     e \<leftarrow> m;
     case e of Some err \<Rightarrow> ret code | None \<Rightarrow> k
   }"

text \<open>\<open>SchemeBuilder\<close> holds the functions that register types, and \<open>AddToScheme\<close> runs them in order
  until one fails.\<close>

definition addKnownTypes :: "'w runtime \<Rightarrow> ('w, goerr option) setupProg" where
  "addKnownTypes R = do {
     _ \<leftarrow> call (rn_AddKnownTypes R GroupVersion knownTypes) (\<lambda>_. AddKnownTypes GroupVersion knownTypes);
     _ \<leftarrow> call (rn_AddToGroupVersion R GroupVersion) (\<lambda>_. AddToGroupVersion GroupVersion);
     ret None
   }"

definition SchemeBuilder :: "'w runtime \<Rightarrow> ('w, goerr option) setupProg list" where
  "SchemeBuilder R = [addKnownTypes R]"

primrec runBuilder :: "('w, goerr option) setupProg list \<Rightarrow> ('w, goerr option) setupProg" where
  "runBuilder [] = ret None"
| "runBuilder (f # fs) = do {
     e \<leftarrow> f;
     case e of Some err \<Rightarrow> ret (Some err) | None \<Rightarrow> runBuilder fs
   }"

definition addToScheme :: "'w runtime \<Rightarrow> ('w, goerr option) setupProg" where
  "addToScheme R = runBuilder (SchemeBuilder R)"

definition initScheme :: "'w runtime \<Rightarrow> ('w, int) setupProg \<Rightarrow> ('w, int) setupProg" where
  "initScheme R k =
     orExit 2 (call (rn_AddToScheme R ''clientgo'') (AddToScheme ''clientgo''))
       (orExit 2 (addToScheme R) k)"

definition newWatcher :: "'w runtime \<Rightarrow> certWatcher option \<Rightarrow> ('w, int) setupProg \<Rightarrow> ('w, int) setupProg" where
  "newWatcher R w k = (case w of None \<Rightarrow> k
     | Some cw \<Rightarrow> orExit 1 (call (rn_NewCertWatcher R cw) (NewCertWatcher cw)) k)"

definition addWatcher :: "'w runtime \<Rightarrow> certWatcher option \<Rightarrow> ('w, int) setupProg \<Rightarrow> ('w, int) setupProg" where
  "addWatcher R w k = (case w of None \<Rightarrow> k
     | Some cw \<Rightarrow> orExit 1 (call (rn_AddRunnable R cw) (AddRunnable cw)) k)"

definition setupReplicaValidator :: "'w runtime \<Rightarrow> replicaValidator \<Rightarrow> ('w, goerr option) setupProg" where
  "setupReplicaValidator R v =
     (let v = ReplicaValidator (withManagerClient v)
      in call (rn_AddValidator R v ''LitestreamReplica'') (AddValidator v ''LitestreamReplica''))"

definition setupRestoreValidator :: "'w runtime \<Rightarrow> ('w, goerr option) setupProg" where
  "setupRestoreValidator R =
     call (rn_AddValidator R RestoreValidator ''LitestreamRestore'') (AddValidator RestoreValidator ''LitestreamRestore'')"

text \<open>\<open>SetupWithManager\<close> of the two reconcilers.\<close>

definition setupController :: "'w runtime \<Rightarrow> reconciler \<Rightarrow> controllerSetup \<Rightarrow> ('w, goerr option) setupProg" where
  "setupController R r c = call (rn_AddController R r c) (AddController r c)"

definition registerWebhooks :: "'w runtime \<Rightarrow> managerFlags \<Rightarrow> ('w, int) setupProg \<Rightarrow> ('w, int) setupProg" where
  "registerWebhooks R fl k =
     (let webhooksEnabled = length (fl_webhookCertPath fl) > 0 in
      if webhooksEnabled then
        orExit 1 (setupReplicaValidator R \<lparr>rvl_Client = None\<rparr>)
          (orExit 1 (setupRestoreValidator R)
            (do {
               _ \<leftarrow> call (rn_RegisterHandler R podWebhookPath newSidecarInjector)
                     (\<lambda>_. RegisterHandler podWebhookPath newSidecarInjector);
               k
             }))
      else k)"

definition startManager :: "'w runtime \<Rightarrow> ('w, int) setupProg" where
  "startManager R =
     orExit 1 (call (rn_AddHealthzCheck R ''healthz'') (AddHealthzCheck ''healthz''))
       (orExit 1 (call (rn_AddReadyzCheck R ''readyz'') (AddReadyzCheck ''readyz''))
         (orExit 1 (call (rn_Start R) StartManager) (ret 0)))"

definition mainProgram :: "'w runtime \<Rightarrow> managerFlags \<Rightarrow> ('w, int) setupProg" where
  "mainProgram R fl =
     initScheme R
      (newWatcher R (webhookWatcher fl)
        (newWatcher R (metricsWatcher fl)
          (orExit 1 (call (rn_GetConfig R) GetConfig)
            (orExit 1 (call (rn_NewManager R (managerOptionsOf fl)) (NewManager (managerOptionsOf fl)))
              (orExit 1 (setupController R (ReplicaReconciler newReplicaReconciler) replicaSetup)
                (orExit 1 (call (rn_NewClientset R) NewClientset)
                  (orExit 1 (setupController R (RestoreReconciler newRestoreReconciler) restoreSetup)
                    (registerWebhooks R fl
                      (addWatcher R (metricsWatcher fl)
                        (addWatcher R (webhookWatcher fl) (startManager R)))))))))))"

section \<open>What a start does\<close>

text \<open>
  What is asked of each call of a start, given the calls before it. The values are the literal ones
  an installation relies on; none is taken from the definitions above, the path functions apart.
\<close>

fun failed :: "setupCall \<Rightarrow> bool" where
  "failed (AddToScheme s e) \<longleftrightarrow> e \<noteq> None"
| "failed (NewCertWatcher w e) \<longleftrightarrow> e \<noteq> None"
| "failed (GetConfig e) \<longleftrightarrow> e \<noteq> None"
| "failed (NewManager opts e) \<longleftrightarrow> e \<noteq> None"
| "failed (AddController r c e) \<longleftrightarrow> e \<noteq> None"
| "failed (NewClientset e) \<longleftrightarrow> e \<noteq> None"
| "failed (AddValidator v s e) \<longleftrightarrow> e \<noteq> None"
| "failed (AddRunnable w e) \<longleftrightarrow> e \<noteq> None"
| "failed (AddHealthzCheck s e) \<longleftrightarrow> e \<noteq> None"
| "failed (AddReadyzCheck s e) \<longleftrightarrow> e \<noteq> None"
| "failed (StartManager e) \<longleftrightarrow> e \<noteq> None"
| "failed (AddKnownTypes gv ts) \<longleftrightarrow> False"
| "failed (AddToGroupVersion gv) \<longleftrightarrow> False"
| "failed (RegisterHandler s i) \<longleftrightarrow> False"

definition webhookFiles :: "managerFlags \<Rightarrow> certWatcher" where
  "webhookFiles fl = (joinPath (fl_webhookCertPath fl) (fl_webhookCertName fl),
     joinPath (fl_webhookCertPath fl) (fl_webhookCertKey fl))"

definition metricsFiles :: "managerFlags \<Rightarrow> certWatcher" where
  "metricsFiles fl = (joinPath (fl_metricsCertPath fl) (fl_metricsCertName fl),
     joinPath (fl_metricsCertPath fl) (fl_metricsCertKey fl))"

text \<open>A server without HTTP/2 unless asked for, and with certificates exactly from a started watcher of
  its own files when its path is given.\<close>

definition serverTLS :: "managerFlags \<Rightarrow> setupCall list \<Rightarrow> string \<Rightarrow> certWatcher \<Rightarrow> tlsOption list \<Rightarrow> bool" where
  "serverTLS fl h dir files opts \<longleftrightarrow>
     (DisableHTTP2 \<in> set opts \<longleftrightarrow> \<not> fl_enableHTTP2 fl) \<and>
     (\<forall>cw. CertificatesOf cw \<in> set opts \<longleftrightarrow> dir \<noteq> [] \<and> cw = files) \<and>
     (dir \<noteq> [] \<longrightarrow> NewCertWatcher files None \<in> set h)"

definition typesKnown :: "setupCall list \<Rightarrow> bool" where
  "typesKnown h \<longleftrightarrow>
     AddToScheme ''clientgo'' None \<in> set h \<and>
     AddKnownTypes \<lparr>gv_Group = ''litestream.io'', gv_Version = ''v1''\<rparr>
       [''LitestreamReplica'', ''LitestreamReplicaList'', ''LitestreamRestore'', ''LitestreamRestoreList'']
       \<in> set h \<and>
     AddToGroupVersion \<lparr>gv_Group = ''litestream.io'', gv_Version = ''v1''\<rparr> \<in> set h"

definition managerMade :: "setupCall list \<Rightarrow> bool" where
  "managerMade h \<longleftrightarrow> (\<exists>opts. NewManager opts None \<in> set h)"

definition webhooksServed :: "setupCall list \<Rightarrow> bool" where
  "webhooksServed h \<longleftrightarrow>
     (\<exists>v. AddValidator (ReplicaValidator v) ''LitestreamReplica'' None \<in> set h) \<and>
     AddValidator RestoreValidator ''LitestreamRestore'' None \<in> set h \<and>
     (\<exists>i. RegisterHandler ''/mutate-core-v1-pod'' i \<in> set h)"

fun wellStarted :: "managerFlags \<Rightarrow> setupCall list \<Rightarrow> setupCall \<Rightarrow> bool" where
  "wellStarted fl h (NewManager opts e) \<longleftrightarrow>
     typesKnown h \<and>
     serverTLS fl h (fl_webhookCertPath fl) (webhookFiles fl) (mg_WebhookTLSOpts opts) \<and>
     serverTLS fl h (fl_metricsCertPath fl) (metricsFiles fl) (mo_TLSOpts (mg_Metrics opts)) \<and>
     mo_BindAddress (mg_Metrics opts) = fl_metricsAddr fl \<and>
     mo_SecureServing (mg_Metrics opts) = fl_secureMetrics fl \<and>
     mo_AuthFilter (mg_Metrics opts) = fl_secureMetrics fl \<and>
     mg_HealthProbeBindAddress opts = fl_probeAddr fl \<and>
     mg_LeaderElection opts = fl_enableLeaderElection fl \<and>
     mg_LeaderElectionID opts = ''dc63c944.litestream.io''"
| "wellStarted fl h (AddController (ReplicaReconciler r) c e) \<longleftrightarrow>
     managerMade h \<and> rpr_Client r = ManagerClient \<and> rpr_Scheme r = ManagerScheme \<and>
     rpr_Recorder r = EventRecorderFor ''litestreamreplica-controller'' \<and>
     cn_For c = ''LitestreamReplica'' \<and> cn_Owns c = [''ConfigMap''] \<and>
     cn_Watches c = [''Pod'', ''Deployment'', ''StatefulSet'']"
| "wellStarted fl h (AddController (RestoreReconciler r) c e) \<longleftrightarrow>
     managerMade h \<and> NewClientset None \<in> set h \<and> rsr_Client r = ManagerClient \<and>
     rsr_Scheme r = ManagerScheme \<and> rsr_Recorder r = EventRecorderFor ''litestreamrestore-controller'' \<and>
     rsr_KubeClient r = Clientset \<and> rsr_APIReader r = ManagerAPIReader \<and>
     cn_For c = ''LitestreamRestore'' \<and> cn_Owns c = [''Job'', ''Lease''] \<and> cn_Watches c = []"
| "wellStarted fl h (AddValidator (ReplicaValidator v) k e) \<longleftrightarrow>
     managerMade h \<and> fl_webhookCertPath fl \<noteq> [] \<and> rvl_Client v = Some ManagerClient \<and> k = ''LitestreamReplica''"
| "wellStarted fl h (AddValidator RestoreValidator k e) \<longleftrightarrow>
     managerMade h \<and> fl_webhookCertPath fl \<noteq> [] \<and> k = ''LitestreamRestore''"
| "wellStarted fl h (RegisterHandler path i) \<longleftrightarrow>
     managerMade h \<and> fl_webhookCertPath fl \<noteq> [] \<and> path = ''/mutate-core-v1-pod'' \<and>
     sij_Client i = ManagerAPIReader \<and> sij_Decoder i = DecoderFor ManagerScheme"
| "wellStarted fl h (AddRunnable w e) \<longleftrightarrow> managerMade h \<and> NewCertWatcher w None \<in> set h"
| "wellStarted fl h (StartManager e) \<longleftrightarrow>
     (\<exists>r c. AddController (ReplicaReconciler r) c None \<in> set h) \<and>
     (\<exists>r c. AddController (RestoreReconciler r) c None \<in> set h) \<and>
     AddHealthzCheck ''healthz'' None \<in> set h \<and> AddReadyzCheck ''readyz'' None \<in> set h \<and>
     (fl_webhookCertPath fl \<noteq> [] \<longrightarrow> webhooksServed h \<and> AddRunnable (webhookFiles fl) None \<in> set h) \<and>
     (fl_metricsCertPath fl \<noteq> [] \<longrightarrow> AddRunnable (metricsFiles fl) None \<in> set h)"
| "wellStarted fl h _ \<longleftrightarrow> True"

definition startGuard :: "managerFlags \<Rightarrow> setupCall list \<Rightarrow> setupCall \<Rightarrow> bool" where
  "startGuard fl h a \<longleftrightarrow> \<not> list_ex failed h \<and> (\<forall>e. StartManager e \<notin> set h) \<and> wellStarted fl h a"

text \<open>The options of the two servers.\<close>

lemma managerOptions_tls:
  "DisableHTTP2 \<in> set (mg_WebhookTLSOpts (managerOptionsOf fl)) \<longleftrightarrow> \<not> fl_enableHTTP2 fl"
  "DisableHTTP2 \<in> set (mo_TLSOpts (mg_Metrics (managerOptionsOf fl))) \<longleftrightarrow> \<not> fl_enableHTTP2 fl"
  "CertificatesOf cw \<in> set (mg_WebhookTLSOpts (managerOptionsOf fl)) \<longleftrightarrow>
     fl_webhookCertPath fl \<noteq> [] \<and> cw = webhookFiles fl"
  "CertificatesOf cw \<in> set (mo_TLSOpts (mg_Metrics (managerOptionsOf fl))) \<longleftrightarrow>
     fl_metricsCertPath fl \<noteq> [] \<and> cw = metricsFiles fl"
  by (auto simp: managerOptionsOf_def tlsOptions_def withCertificates_def webhookWatcher_def
      metricsWatcher_def webhookFiles_def metricsFiles_def Let_def)

lemma managerOptions_plain:
  "mo_BindAddress (mg_Metrics (managerOptionsOf fl)) = fl_metricsAddr fl"
  "mo_SecureServing (mg_Metrics (managerOptionsOf fl)) = fl_secureMetrics fl"
  "mo_AuthFilter (mg_Metrics (managerOptionsOf fl)) = fl_secureMetrics fl"
  "mg_HealthProbeBindAddress (managerOptionsOf fl) = fl_probeAddr fl"
  "mg_LeaderElection (managerOptionsOf fl) = fl_enableLeaderElection fl"
  "mg_LeaderElectionID (managerOptionsOf fl) = ''dc63c944.litestream.io''"
  by (simp_all add: managerOptionsOf_def Let_def)

text \<open>One call after the other, each followed by the rest only when it succeeds.\<close>

lemma guards_orExit:
  "(\<And>e. G h (ev e)) \<Longrightarrow> guards G (h @ [ev None]) k \<Longrightarrow> guards G h (orExit code (call f ev) k)"
  unfolding orExit_def by (intro guards_intros; simp)

lemma guards_register: "G h p \<Longrightarrow> guards G (h @ [p]) k \<Longrightarrow>
  guards G h (State_Monad.bind (call f (\<lambda>_. p)) (\<lambda>_. k))"
  by (intro guards_intros; simp)

lemma addToScheme_calls:
  "orExit code (addToScheme R) k = do {
     _ \<leftarrow> call (rn_AddKnownTypes R GroupVersion knownTypes) (\<lambda>_. AddKnownTypes GroupVersion knownTypes);
     _ \<leftarrow> call (rn_AddToGroupVersion R GroupVersion) (\<lambda>_. AddToGroupVersion GroupVersion);
     k }"
  by (simp add: orExit_def addToScheme_def SchemeBuilder_def addKnownTypes_def)

lemmas start_calls = mainProgram_def initScheme_def startManager_def setupController_def registerWebhooks_def
  setupReplicaValidator_def setupRestoreValidator_def addToScheme_calls newWatcher_def addWatcher_def
  webhookWatcher_def metricsWatcher_def webhookFiles_def [symmetric] metricsFiles_def [symmetric]

lemmas start_values = startGuard_def serverTLS_def typesKnown_def managerMade_def webhooksServed_def
  managerOptions_tls managerOptions_plain GroupVersion_def knownTypes_def newReplicaReconciler_def
  newRestoreReconciler_def newSidecarInjector_def withManagerClient_def replicaSetup_def restoreSetup_def
  podWebhookPath_def

lemma start_guarded: "guards (startGuard fl) [] (mainProgram R fl)"
  by (cases "fl_webhookCertPath fl = []"; cases "fl_metricsCertPath fl = []";
      simp add: start_calls Let_def;
      intro guards_orExit guards_register guards_ret; simp add: start_values)

text \<open>The exit code.\<close>

definition exitsWith :: "setupCall list \<Rightarrow> int \<Rightarrow> setupCall list \<Rightarrow> bool" where
  "exitsWith h code tr \<longleftrightarrow> (code = 0 \<longleftrightarrow> StartManager None \<in> set (h @ tr))"

lemma exits_orExit:
  assumes "code \<noteq> 0" "yields (exitsWith (h @ [ev None])) k"
    and "\<And>e. StartManager None \<notin> set (h @ [ev (Some e)])"
  shows "yields (exitsWith h) (orExit code (call f ev) k)"
  unfolding orExit_def
  using assms(1,3)
  by (intro yields_call_bind yields_case_option yields_ret)
     (auto intro: yields_weaken [OF assms(2)] simp: exitsWith_def)

lemma exits_register: "yields (exitsWith (h @ [p])) k \<Longrightarrow>
  yields (exitsWith h) (State_Monad.bind (call f (\<lambda>_. p)) (\<lambda>_. k))"
  by (intro yields_call_bind) (erule yields_weaken, simp add: exitsWith_def)

lemma exits_done: "StartManager None \<in> set h \<Longrightarrow> yields (exitsWith h) (ret 0)"
  by (simp add: yields_ret exitsWith_def)

lemma start_exits: "yields (exitsWith []) (mainProgram R fl)"
  by (cases "fl_webhookCertPath fl = []"; cases "fl_metricsCertPath fl = []";
      simp add: start_calls Let_def;
      intro exits_orExit exits_register exits_done; simp)

text \<open>C30. Nothing is called after a failed call or after the manager has run, and the process exits with 0
  exactly when the manager ended without an error. The manager is made once the types are in the
  scheme, under the leader election name and the addresses of the flags; each of its two servers
  speaks HTTP/2 only when the flag asks for it and takes its certificates from a watcher of its own
  files. The webhook for pods and the restore controller read without a cache. The webhooks are
  registered only with a certificate path, and before the manager starts both controllers, both
  checks, and with a certificate path all three webhooks and the watchers are in place.\<close>

theorem main_starts_well:
  "guards (\<lambda>h a. \<not> list_ex failed h \<and> (\<forall>e. StartManager e \<notin> set h) \<and> wellStarted fl h a) []
     (mainProgram R fl) \<and>
   yields (\<lambda>code tr. code = 0 \<longleftrightarrow> StartManager None \<in> set tr) (mainProgram R fl)"
  using start_guarded [of fl R] start_exits [of R fl]
  by (simp add: startGuard_def [abs_def] exitsWith_def [abs_def])

end
