(* ===== verification/Go_Memory.thy ===== *)
theory Go_Memory
  imports Prelude
begin

text \<open>
  Go's memory, as far as the generated deep copies need it: cells behind addresses, allocation of
  fresh cells, pointers and slices that share them, and what it means for a function to make a deep
  copy. A program over memory is a state-monad program over \<open>'c heap\<close>; \<open>'c\<close> is the type of the cells,
  a datatype with one constructor per Go type. Every address below \<open>lim\<close> is allocated. A nil pointer
  or a nil slice is \<open>None\<close>.

  A type of values in memory comes with two functions of the heap: \<open>val h v\<close>, the value that \<open>v\<close>
  denotes there, and \<open>adr h v\<close>, the addresses it reaches. \<open>local_value\<close> says that the value depends on
  those cells only, \<open>deep_copies\<close> that a function returns something of the same value in fresh cells
  and changes no cell that was there before. The interface of a deep copy is the locale
  \<open>deep_copier\<close>.
\<close>

named_theorems copy_intros "rules that show that a function makes a deep copy"
named_theorems local_intros "rules that show that a value depends on the cells it reaches"

section \<open>Cells\<close>

type_synonym addr = nat

record 'c heap =
  cells :: "addr \<Rightarrow> 'c"
  lim :: addr

type_synonym ('c, 'a) mem = "('c heap, 'a) state"

definition newCell :: "'c \<Rightarrow> ('c, addr) mem" where
  "newCell c = State (\<lambda>h. (lim h, \<lparr>cells = (cells h)(lim h := c), lim = Suc (lim h)\<rparr>))"

definition loadCell :: "('c \<Rightarrow> 'a) \<Rightarrow> addr \<Rightarrow> ('c, 'a) mem" where
  "loadCell un a = State (\<lambda>h. (un (cells h a), h))"

definition poke :: "addr \<Rightarrow> 'c \<Rightarrow> 'c heap \<Rightarrow> 'c heap" where
  "poke a c h = h\<lparr>cells := (cells h)(a := c)\<rparr>"

definition storeCell :: "addr \<Rightarrow> 'c \<Rightarrow> ('c, unit) mem" where
  "storeCell a c = State (\<lambda>h. ((), poke a c h))"

lemma run_state_newCell [simp]:
  "run_state (newCell c) h = (lim h, \<lparr>cells = (cells h)(lim h := c), lim = Suc (lim h)\<rparr>)"
  by (simp add: newCell_def)

lemma run_state_loadCell [simp]: "run_state (loadCell un a) h = (un (cells h a), h)"
  by (simp add: loadCell_def)

lemma run_state_storeCell [simp]: "run_state (storeCell a c) h = ((), poke a c h)"
  by (simp add: storeCell_def)

lemma poke_simps [simp]: "lim (poke a c h) = lim h" "cells (poke a c h) = (cells h)(a := c)"
  by (simp_all add: poke_def)

section \<open>Pointers\<close>

text \<open>
  The copy behind a pointer: \<open>*out = new(T)\<close>, a zero value in a fresh cell, then the copy of the
  pointed value stored there. A nil pointer stays nil.
\<close>

definition copyPointer :: "('a \<Rightarrow> 'c) \<Rightarrow> ('c \<Rightarrow> 'a) \<Rightarrow> 'a \<Rightarrow> ('a \<Rightarrow> ('c, 'a) mem) \<Rightarrow> addr option \<Rightarrow>
    ('c, addr option) mem" where
  "copyPointer mk un zero into p = (case p of
     None \<Rightarrow> ret None
   | Some a \<Rightarrow> do {
       b \<leftarrow> newCell (mk zero);
       v \<leftarrow> loadCell un a;
       v' \<leftarrow> into v;
       _ \<leftarrow> storeCell b (mk v');
       ret (Some b)
     })"

section \<open>Slices\<close>

text \<open>A slice is a window of an array: the cell of the array, the first index and the length.\<close>

record slice =
  sl_Array :: addr
  sl_Offset :: nat
  sl_Len :: nat

primrec forEach :: "nat list \<Rightarrow> (nat \<Rightarrow> ('c, unit) mem) \<Rightarrow> ('c, unit) mem" where
  "forEach [] body = ret ()"
| "forEach (i # is) body = do { _ \<leftarrow> body i; forEach is body }"

definition loadElem :: "('c \<Rightarrow> 'a list) \<Rightarrow> slice \<Rightarrow> nat \<Rightarrow> ('c, 'a) mem" where
  "loadElem un s i = State (\<lambda>h. (un (cells h (sl_Array s)) ! (sl_Offset s + i), h))"

definition storeElem :: "('a list \<Rightarrow> 'c) \<Rightarrow> ('c \<Rightarrow> 'a list) \<Rightarrow> slice \<Rightarrow> nat \<Rightarrow> 'a \<Rightarrow> ('c, unit) mem" where
  "storeElem mk un s i v = State (\<lambda>h. ((), poke (sl_Array s)
     (mk ((un (cells h (sl_Array s)))[sl_Offset s + i := v])) h))"

text \<open>\<open>make([]T, n)\<close>: a slice over a fresh array of zero values.\<close>

definition makeSlice :: "('a list \<Rightarrow> 'c) \<Rightarrow> 'a \<Rightarrow> nat \<Rightarrow> ('c, slice) mem" where
  "makeSlice mk zero n = do {
     a \<leftarrow> newCell (mk (replicate n zero));
     ret \<lparr>sl_Array = a, sl_Offset = 0, sl_Len = n\<rparr>
   }"

text \<open>
  \<open>*out = make([]T, len(*in))\<close> followed by \<open>for i := range *in\<close> with a deep copy of each element. A
  nil slice stays nil, an empty one becomes a new empty one.
\<close>

definition copySlice :: "('a list \<Rightarrow> 'c) \<Rightarrow> ('c \<Rightarrow> 'a list) \<Rightarrow> 'a \<Rightarrow> ('a \<Rightarrow> ('c, 'a) mem) \<Rightarrow>
    slice option \<Rightarrow> ('c, slice option) mem" where
  "copySlice mk un zero into s = (case s of
     None \<Rightarrow> ret None
   | Some src \<Rightarrow> do {
       dst \<leftarrow> makeSlice mk zero (sl_Len src);
       _ \<leftarrow> forEach [0..<sl_Len src] (\<lambda>i. do {
              v \<leftarrow> loadElem un src i;
              v' \<leftarrow> into v;
              storeElem mk un dst i v'
            });
       ret (Some dst)
     })"

lemma run_state_loadElem [simp]:
  "run_state (loadElem un s i) h = (un (cells h (sl_Array s)) ! (sl_Offset s + i), h)"
  by (simp add: loadElem_def)

lemma run_state_storeElem [simp]:
  "run_state (storeElem mk un s i v) h = ((), poke (sl_Array s)
     (mk ((un (cells h (sl_Array s)))[sl_Offset s + i := v])) h)"
  by (simp add: storeElem_def)

lemma forEach_snoc:
  "run_state (forEach (is @ [i]) body) h = run_state (body i) (snd (run_state (forEach is body) h))"
  by (induction "is" arbitrary: h) (auto split: prod.splits)

section \<open>Later heaps\<close>

text \<open>\<open>extends h h'\<close>: \<open>h'\<close> has allocated more, and every cell of \<open>h\<close> is as it was.\<close>

definition extends :: "'c heap \<Rightarrow> 'c heap \<Rightarrow> bool" where
  "extends h h' \<longleftrightarrow> lim h \<le> lim h' \<and> (\<forall>a < lim h. cells h' a = cells h a)"

lemma extends_refl [simp]: "extends h h"
  by (simp add: extends_def)

lemma extends_trans: "extends h h' \<Longrightarrow> extends h' h'' \<Longrightarrow> extends h h''"
  by (auto simp: extends_def)

lemma extendsD: "extends h h' \<Longrightarrow> a < lim h \<Longrightarrow> cells h' a = cells h a"
  by (simp add: extends_def)

lemma extends_lim: "extends h h' \<Longrightarrow> lim h \<le> lim h'"
  by (simp add: extends_def)

lemma extends_new: "extends h \<lparr>cells = (cells h)(lim h := c), lim = Suc (lim h)\<rparr>"
  by (simp add: extends_def)

lemma extends_poke: "extends h h' \<Longrightarrow> lim h \<le> a \<Longrightarrow> extends h (poke a c h')"
  by (simp add: extends_def)

section \<open>Values and deep copies\<close>

definition agree :: "addr set \<Rightarrow> 'c heap \<Rightarrow> 'c heap \<Rightarrow> bool" where
  "agree A h h' \<longleftrightarrow> (\<forall>a \<in> A. cells h' a = cells h a)"

definition local_value :: "('c heap \<Rightarrow> 'a \<Rightarrow> 'b) \<Rightarrow> ('c heap \<Rightarrow> 'a \<Rightarrow> addr set) \<Rightarrow> bool" where
  "local_value val adr \<longleftrightarrow>
     (\<forall>h h' v. agree (adr h v) h h' \<longrightarrow> val h' v = val h v \<and> adr h' v = adr h v)"

definition allocated :: "('c heap \<Rightarrow> 'a \<Rightarrow> addr set) \<Rightarrow> 'c heap \<Rightarrow> 'a \<Rightarrow> bool" where
  "allocated adr h v \<longleftrightarrow> adr h v \<subseteq> {..<lim h}"

definition copied :: "('c heap \<Rightarrow> 'a \<Rightarrow> 'b) \<Rightarrow> ('c heap \<Rightarrow> 'a \<Rightarrow> addr set) \<Rightarrow>
    'c heap \<Rightarrow> 'a \<Rightarrow> 'c heap \<Rightarrow> 'a \<Rightarrow> bool" where
  "copied val adr h v h' v' \<longleftrightarrow> val h' v' = val h v \<and> adr h' v' \<subseteq> {lim h..<lim h'}"

definition deep_copies :: "('c heap \<Rightarrow> 'a \<Rightarrow> 'b) \<Rightarrow> ('c heap \<Rightarrow> 'a \<Rightarrow> addr set) \<Rightarrow>
    ('a \<Rightarrow> ('c, 'a) mem) \<Rightarrow> bool" where
  "deep_copies val adr f \<longleftrightarrow> (\<forall>h v v' h'. allocated adr h v \<longrightarrow> run_state (f v) h = (v', h') \<longrightarrow>
     extends h h' \<and> copied val adr h v h' v')"

lemma agree_mono: "agree A h h' \<Longrightarrow> B \<subseteq> A \<Longrightarrow> agree B h h'"
  by (auto simp: agree_def)

lemma agree_Un [simp]: "agree (A \<union> B) h h' \<longleftrightarrow> agree A h h' \<and> agree B h h'"
  by (auto simp: agree_def)

lemma agree_insert [simp]: "agree (insert a A) h h' \<longleftrightarrow> cells h' a = cells h a \<and> agree A h h'"
  by (auto simp: agree_def)

lemma agree_empty [simp]: "agree {} h h'"
  by (simp add: agree_def)

lemma agree_UN: "agree (\<Union>i \<in> I. A i) h h' \<longleftrightarrow> (\<forall>i \<in> I. agree (A i) h h')"
  by (auto simp: agree_def)

lemma agree_extends: "extends h h' \<Longrightarrow> A \<subseteq> {..<lim h} \<Longrightarrow> agree A h h'"
  by (auto simp: agree_def extends_def)

lemma agree_poke: "a \<notin> A \<Longrightarrow> agree A h (poke a c h)"
  by (auto simp: agree_def)

lemma local_valueD:
  assumes "local_value val adr" "agree (adr h v) h h'"
  shows "val h' v = val h v" "adr h' v = adr h v"
  using assms by (auto simp: local_value_def)

lemma local_value_extends:
  assumes "local_value val adr" "allocated adr h v" "extends h h'"
  shows "val h' v = val h v" "adr h' v = adr h v" "allocated adr h' v"
proof -
  have a: "agree (adr h v) h h'"
    using assms agree_extends by (auto simp: allocated_def)
  show "val h' v = val h v" "adr h' v = adr h v"
    using local_valueD [OF assms(1) a] by auto
  then show "allocated adr h' v"
    using assms extends_lim by (fastforce simp: allocated_def)
qed

lemma deep_copiesD:
  assumes "deep_copies val adr f" "allocated adr h v" "run_state (f v) h = (v', h')"
  shows "extends h h'" "copied val adr h v h' v'"
  using assms by (auto simp: deep_copies_def)

lemma deep_copiesI:
  "(\<And>h v v' h'. allocated adr h v \<Longrightarrow> run_state (f v) h = (v', h') \<Longrightarrow>
     extends h h' \<and> copied val adr h v h' v') \<Longrightarrow> deep_copies val adr f"
  by (auto simp: deep_copies_def)

text \<open>A copy stays one while more is allocated.\<close>

lemma copied_later:
  assumes "local_value val adr" "copied val adr h v h' v'" "extends h' h''"
  shows "copied val adr h v h'' v'"
proof -
  have "allocated adr h' v'"
    using assms(2) by (auto simp: copied_def allocated_def)
  then show ?thesis
    using assms local_value_extends [OF assms(1) _ assms(3), of v'] extends_lim [OF assms(3)]
    by (force simp: copied_def)
qed

text \<open>A copy made after other allocations is one of the value before them.\<close>

lemma copied_earlier:
  assumes "local_value val adr" "allocated adr h v" "extends h h0" "copied val adr h0 v h' v'"
  shows "copied val adr h v h' v'"
  using assms local_value_extends [OF assms(1-3)] extends_lim [OF assms(3)]
  by (force simp: copied_def)

section \<open>Values without pointers\<close>

definition flatVal :: "'c heap \<Rightarrow> 'a \<Rightarrow> 'a" where "flatVal h v = v"
definition noAdr :: "'c heap \<Rightarrow> 'a \<Rightarrow> addr set" where "noAdr h v = {}"

lemma local_flat [local_intros]: "local_value flatVal noAdr"
  by (simp add: local_value_def flatVal_def noAdr_def)

lemma deep_copies_flat [copy_intros]: "deep_copies flatVal noAdr ret"
  by (simp add: deep_copies_def copied_def flatVal_def noAdr_def)

section \<open>Values behind pointers\<close>

definition ptrVal :: "('c \<Rightarrow> 'a) \<Rightarrow> ('c heap \<Rightarrow> 'a \<Rightarrow> 'b) \<Rightarrow> 'c heap \<Rightarrow> addr option \<Rightarrow> 'b option" where
  "ptrVal un val h p = map_option (\<lambda>a. val h (un (cells h a))) p"

definition ptrAdr :: "('c \<Rightarrow> 'a) \<Rightarrow> ('c heap \<Rightarrow> 'a \<Rightarrow> addr set) \<Rightarrow> 'c heap \<Rightarrow> addr option \<Rightarrow> addr set" where
  "ptrAdr un adr h p = (case p of None \<Rightarrow> {} | Some a \<Rightarrow> insert a (adr h (un (cells h a))))"

lemma local_ptr [local_intros]: "local_value val adr \<Longrightarrow> local_value (ptrVal un val) (ptrAdr un adr)"
  unfolding local_value_def ptrVal_def ptrAdr_def by (auto split: option.splits)

lemma deep_copies_pointer [copy_intros]:
  assumes un: "\<And>v. un (mk v) = v" and loc: "local_value val adr" and f: "deep_copies val adr into"
  shows "deep_copies (ptrVal un val) (ptrAdr un adr) (copyPointer mk un zero into)"
proof (rule deep_copiesI)
  fix h p q h'
  assume al: "allocated (ptrAdr un adr) h p" and run: "run_state (copyPointer mk un zero into p) h = (q, h')"
  show "extends h h' \<and> copied (ptrVal un val) (ptrAdr un adr) h p h' q"
  proof (cases p)
    case None
    then show ?thesis
      using run by (simp add: copyPointer_def copied_def ptrVal_def ptrAdr_def)
  next
    case (Some a)
    define h0 where "h0 = \<lparr>cells = (cells h)(lim h := mk zero), lim = Suc (lim h)\<rparr>"
    have h0: "extends h h0" "lim h0 = Suc (lim h)"
      using extends_new by (auto simp: h0_def)
    have a: "a < lim h" "allocated adr h (un (cells h a))"
      using al Some by (auto simp: allocated_def ptrAdr_def)
    define v where "v = un (cells h a)"
    have v: "un (cells h0 a) = v"
      using a(1) by (simp add: h0_def v_def)
    obtain v' h1 where 1: "run_state (into v) h0 = (v', h1)" by fastforce
    then have out: "q = Some (lim h)" "h' = poke (lim h) (mk v') h1"
      using run Some v by (auto simp: copyPointer_def h0_def)
    have va: "allocated adr h v" "allocated adr h0 v"
      using a local_value_extends(3) [OF loc _ h0(1)] by (auto simp: v_def)
    note c = deep_copiesD [OF f va(2) 1]
    note c1 = copied_earlier [OF loc va(1) h0(1) c(2)]
    have fresh: "adr h1 v' \<subseteq> {Suc (lim h)..<lim h1}"
      using c(2) h0(2) by (simp add: copied_def)
    then have "agree (adr h1 v') h1 h'"
      unfolding out by (intro agree_poke) auto
    from local_valueD [OF loc this] have same: "val h' v' = val h v" "adr h' v' = adr h1 v'"
      using c1 by (simp_all add: copied_def)
    have ex: "extends h h'"
      unfolding out by (rule extends_poke [OF extends_trans [OF h0(1) c(1)]]) simp
    have "Suc (lim h) \<le> lim h1"
      using extends_lim [OF c(1)] h0(2) by simp
    then show ?thesis
      using ex same fresh Some out un
      by (auto simp: copied_def ptrVal_def ptrAdr_def v_def)
  qed
qed

section \<open>Values in slices\<close>

definition elemAt :: "('c \<Rightarrow> 'a list) \<Rightarrow> 'c heap \<Rightarrow> slice \<Rightarrow> nat \<Rightarrow> 'a" where
  "elemAt un h s i = un (cells h (sl_Array s)) ! (sl_Offset s + i)"

definition sliceVal :: "('c \<Rightarrow> 'a list) \<Rightarrow> ('c heap \<Rightarrow> 'a \<Rightarrow> 'b) \<Rightarrow> 'c heap \<Rightarrow> slice option \<Rightarrow> 'b list option" where
  "sliceVal un val h s = map_option (\<lambda>s. map (\<lambda>i. val h (elemAt un h s i)) [0..<sl_Len s]) s"

definition sliceAdr :: "('c \<Rightarrow> 'a list) \<Rightarrow> ('c heap \<Rightarrow> 'a \<Rightarrow> addr set) \<Rightarrow> 'c heap \<Rightarrow> slice option \<Rightarrow> addr set" where
  "sliceAdr un adr h s = (case s of None \<Rightarrow> {}
   | Some s \<Rightarrow> insert (sl_Array s) (\<Union>i \<in> {..<sl_Len s}. adr h (elemAt un h s i)))"

lemma local_slice [local_intros]:
  assumes "local_value val adr"
  shows "local_value (sliceVal un val) (sliceAdr un adr)"
  unfolding local_value_def
proof (intro allI impI)
  fix h h' :: "'a heap" and s
  assume ag: "agree (sliceAdr un adr h s) h h'"
  show "sliceVal un val h' s = sliceVal un val h s \<and> sliceAdr un adr h' s = sliceAdr un adr h s"
  proof (cases s)
    case (Some s)
    then have e: "elemAt un h' s i = elemAt un h s i" for i
      using ag by (simp add: sliceAdr_def elemAt_def)
    have "val h' (elemAt un h s i) = val h (elemAt un h s i) \<and> adr h' (elemAt un h s i) = adr h (elemAt un h s i)"
      if "i < sl_Len s" for i
      using local_valueD [OF assms, of h "elemAt un h s i" h'] ag that Some
      by (auto simp: sliceAdr_def agree_UN)
    then show ?thesis
      using Some e by (simp add: sliceVal_def sliceAdr_def)
  qed (simp_all add: sliceVal_def sliceAdr_def)
qed

text \<open>
  The loop after \<open>k\<close> elements: the array \<open>b\<close> of the result keeps its length, and its first \<open>k\<close>
  elements are copies of the source's, reaching cells above \<open>b\<close> only.
\<close>

definition loopInv :: "('c \<Rightarrow> 'a list) \<Rightarrow> ('c heap \<Rightarrow> 'a \<Rightarrow> 'b) \<Rightarrow> ('c heap \<Rightarrow> 'a \<Rightarrow> addr set) \<Rightarrow>
    'c heap \<Rightarrow> slice \<Rightarrow> nat \<Rightarrow> 'c heap \<Rightarrow> bool" where
  "loopInv un val adr h src k h1 \<longleftrightarrow> (let out = un (cells h1 (lim h)) in
     extends h h1 \<and> lim h < lim h1 \<and> length out = sl_Len src \<and>
     (\<forall>i < k. val h1 (out ! i) = val h (elemAt un h src i) \<and> adr h1 (out ! i) \<subseteq> {lim h<..<lim h1}))"

lemma loopInv_start:
  assumes "\<And>v. un (mk v) = v"
  shows "loopInv un val adr h src 0
     \<lparr>cells = (cells h)(lim h := mk (replicate (sl_Len src) zero)), lim = Suc (lim h)\<rparr>"
  using assms extends_new [of h] by (simp add: loopInv_def)

lemma loopInv_step:
  assumes un: "\<And>v. un (mk v) = v" and loc: "local_value val adr" and f: "deep_copies val adr into"
    and al: "allocated (sliceAdr un adr) h (Some src)" and k: "k < sl_Len src"
    and inv: "loopInv un val adr h src k h1" and 1: "run_state (into (elemAt un h1 src k)) h1 = (v', h2)"
  shows "loopInv un val adr h src (Suc k) (poke (lim h) (mk ((un (cells h2 (lim h)))[k := v'])) h2)"
proof -
  let ?h3 = "poke (lim h) (mk ((un (cells h2 (lim h)))[k := v'])) h2"
  have ex1: "extends h h1" and b: "lim h < lim h1" and len: "length (un (cells h1 (lim h))) = sl_Len src"
    using inv by (auto simp: loopInv_def Let_def)
  have src: "sl_Array src < lim h" and va: "allocated adr h (elemAt un h src k)"
    using al k by (auto simp: allocated_def sliceAdr_def)
  then have e: "elemAt un h1 src k = elemAt un h src k"
    using extendsD [OF ex1] by (simp add: elemAt_def)
  note va1 = local_value_extends(3) [OF loc va ex1]
  note c = deep_copiesD [OF f va1 1 [unfolded e]]
  note c1 = copied_earlier [OF loc va ex1 c(2)]
  have out2: "un (cells h2 (lim h)) = un (cells h1 (lim h))"
    using extendsD [OF c(1) b] by simp
  have later: "val ?h3 w = val h2 w \<and> adr ?h3 w = adr h2 w" if "adr h2 w \<subseteq> {lim h<..<lim h2}" for w
  proof -
    have "agree (adr h2 w) h2 ?h3"
      by (rule agree_poke) (use that in auto)
    from local_valueD [OF loc this] show ?thesis by simp
  qed
  have old: "val h2 w = val h1 w \<and> adr h2 w = adr h1 w" if "adr h1 w \<subseteq> {lim h<..<lim h1}" for w
    using local_value_extends [OF loc _ c(1), of w] that by (force simp: allocated_def)
  have new: "val h2 v' = val h (elemAt un h src k)" "adr h2 v' \<subseteq> {lim h<..<lim h2}"
    using c1 c(2) b by (auto simp: copied_def subset_iff intro: less_le_trans)
  have elems: "val ?h3 ((un (cells h1 (lim h)))[k := v'] ! i) = val h (elemAt un h src i) \<and>
      adr ?h3 ((un (cells h1 (lim h)))[k := v'] ! i) \<subseteq> {lim h<..<lim h2}" if "i < Suc k" for i
  proof (cases "i = k")
    case True
    then show ?thesis using later [OF new(2)] new k len by simp
  next
    case False
    let ?w = "un (cells h1 (lim h)) ! i"
    from False have w: "val h1 ?w = val h (elemAt un h src i)" "adr h1 ?w \<subseteq> {lim h<..<lim h1}"
      using inv that by (auto simp: loopInv_def Let_def)
    have "adr h2 ?w \<subseteq> {lim h<..<lim h2}"
      using old [OF w(2)] w(2) extends_lim [OF c(1)] by fastforce
    then show ?thesis using later old [OF w(2)] w(1) False by simp
  qed
  moreover have "extends h ?h3"
    by (rule extends_poke [OF extends_trans [OF ex1 c(1)]]) simp
  ultimately show ?thesis
    using b extends_lim [OF c(1)] len by (simp add: loopInv_def un out2)
qed

lemma loopInv_run:
  assumes un: "\<And>v. un (mk v) = v" and loc: "local_value val adr" and f: "deep_copies val adr into"
    and al: "allocated (sliceAdr un adr) h (Some src)" and k: "k \<le> sl_Len src"
    and inv: "loopInv un val adr h src 0 h1" and dst: "sl_Array dst = lim h" "sl_Offset dst = 0"
  shows "loopInv un val adr h src k (snd (run_state (forEach [0..<k] (\<lambda>i. do {
            v \<leftarrow> loadElem un src i; v' \<leftarrow> into v; storeElem mk un dst i v' })) h1))"
  using k
proof (induction k)
  case 0
  then show ?case using inv by simp
next
  case (Suc k)
  define body where "body = (\<lambda>i. do {
            v \<leftarrow> loadElem un src i; v' \<leftarrow> into v; storeElem mk un dst i v' })"
  define hk where "hk = snd (run_state (forEach [0..<k] body) h1)"
  have ih: "loopInv un val adr h src k hk"
    using Suc by (simp add: hk_def body_def)
  obtain v' h2 where 1: "run_state (into (elemAt un hk src k)) hk = (v', h2)" by fastforce
  have step: "snd (run_state (body k) hk) = poke (lim h) (mk ((un (cells h2 (lim h)))[k := v'])) h2"
    using 1 dst by (simp add: body_def elemAt_def)
  have "loopInv un val adr h src (Suc k) (snd (run_state (body k) hk))"
    unfolding step by (rule loopInv_step [OF un loc f al _ ih 1]) (use Suc in simp)
  then show ?case
    unfolding body_def [symmetric] by (simp add: forEach_snoc hk_def)
qed

lemma deep_copies_slice [copy_intros]:
  assumes un: "\<And>v. un (mk v) = v" and loc: "local_value val adr" and f: "deep_copies val adr into"
  shows "deep_copies (sliceVal un val) (sliceAdr un adr) (copySlice mk un zero into)"
proof (rule deep_copiesI)
  fix h s t h'
  assume al: "allocated (sliceAdr un adr) h s" and run: "run_state (copySlice mk un zero into s) h = (t, h')"
  show "extends h h' \<and> copied (sliceVal un val) (sliceAdr un adr) h s h' t"
  proof (cases s)
    case None
    then show ?thesis
      using run by (simp add: copySlice_def copied_def sliceVal_def sliceAdr_def)
  next
    case (Some src)
    define h1 where "h1 = \<lparr>cells = (cells h)(lim h := mk (replicate (sl_Len src) zero)), lim = Suc (lim h)\<rparr>"
    define dst where "dst = \<lparr>sl_Array = lim h, sl_Offset = 0, sl_Len = sl_Len src\<rparr>"
    have out: "t = Some dst" "h' = snd (run_state (forEach [0..<sl_Len src] (\<lambda>i. do {
            v \<leftarrow> loadElem un src i; v' \<leftarrow> into v; storeElem mk un dst i v' })) h1)"
      using run Some by (auto simp: copySlice_def makeSlice_def h1_def dst_def split: prod.splits)
    have "loopInv un val adr h src (sl_Len src) h'"
      unfolding out
      by (rule loopInv_run [OF un loc f]) (use al Some loopInv_start [where un = un and mk = mk] un in \<open>simp_all add: h1_def dst_def\<close>)
    then show ?thesis
      using Some out(1)
      by (force simp: loopInv_def Let_def copied_def sliceVal_def sliceAdr_def elemAt_def dst_def)
  qed
qed

section \<open>Structs\<close>

text \<open>
  The fields of a struct are copied one after the other. \<open>copyPair\<close> does two of them; a struct is
  copied like the tuple of its pointer fields, with \<open>sp\<close> and \<open>jn\<close> to take that tuple out of the
  struct and put the copy back.
\<close>

definition copyPair :: "('a \<Rightarrow> ('c, 'a) mem) \<Rightarrow> ('b \<Rightarrow> ('c, 'b) mem) \<Rightarrow> 'a \<times> 'b \<Rightarrow> ('c, 'a \<times> 'b) mem" where
  "copyPair f g p = do { x \<leftarrow> f (fst p); y \<leftarrow> g (snd p); ret (x, y) }"

definition pairVal where "pairVal V W h p = (V h (fst p), W h (snd p))"
definition pairAdr where "pairAdr A B h p = A h (fst p) \<union> B h (snd p)"

lemma local_pair [local_intros]:
  assumes "local_value V A" "local_value W B"
  shows "local_value (pairVal V W) (pairAdr A B)"
  unfolding local_value_def pairVal_def pairAdr_def agree_Un
  using local_valueD [OF assms(1)] local_valueD [OF assms(2)] by (intro allI impI) (simp, blast)

lemma deep_copies_pair [copy_intros]:
  assumes locV: "local_value V A" and f: "deep_copies V A f" and locW: "local_value W B" and g: "deep_copies W B g"
  shows "deep_copies (pairVal V W) (pairAdr A B) (copyPair f g)"
proof (rule deep_copiesI)
  fix h p p' h'
  assume al: "allocated (pairAdr A B) h p" and run: "run_state (copyPair f g p) h = (p', h')"
  obtain x h1 where 1: "run_state (f (fst p)) h = (x, h1)" by fastforce
  obtain y h2 where 2: "run_state (g (snd p)) h1 = (y, h2)" by fastforce
  have out: "p' = (x, y)" "h' = h2"
    using run 1 2 by (simp_all add: copyPair_def)
  have a: "allocated A h (fst p)" "allocated B h (snd p)"
    using al by (auto simp: allocated_def pairAdr_def)
  note c1 = deep_copiesD [OF f a(1) 1]
  note c2 = deep_copiesD [OF g local_value_extends(3) [OF locW a(2) c1(1)] 2]
  show "extends h h' \<and> copied (pairVal V W) (pairAdr A B) h p h' p'"
    using copied_later [OF locV c1(2) c2(1)] copied_earlier [OF locW a(2) c1(1) c2(2)]
      extends_trans [OF c1(1) c2(1)]
    by (simp add: out copied_def pairVal_def pairAdr_def)
qed

lemma local_via:
  assumes "local_value V' A'" and "\<And>h v. A h v = A' h (sp v)"
    and "\<And>h h' v. V' h' (sp v) = V' h (sp v) \<Longrightarrow> V h' v = V h v"
  shows "local_value V A"
  unfolding local_value_def
proof (intro allI impI)
  fix h h' v
  assume "agree (A h v) h h'"
  then have "agree (A' h (sp v)) h h'"
    by (simp only: assms(2))
  note same = local_valueD [OF assms(1) this]
  show "V h' v = V h v \<and> A h' v = A h v"
    by (rule conjI, rule assms(3), rule same(1)) (simp only: assms(2) same(2))
qed

lemma deep_copies_via:
  assumes F: "deep_copies V' A' F"
    and f: "\<And>v h. run_state (f v) h = (case run_state (F (sp v)) h of (t, h') \<Rightarrow> (jn v t, h'))"
    and A: "\<And>h v. A h v = A' h (sp v)" and sp: "\<And>v t. sp (jn v t) = t"
    and V: "\<And>h h' v t. V' h' t = V' h (sp v) \<Longrightarrow> V h' (jn v t) = V h v"
  shows "deep_copies V A f"
proof (rule deep_copiesI)
  fix h v v' h'
  assume al: "allocated A h v" and run: "run_state (f v) h = (v', h')"
  obtain t where t: "run_state (F (sp v)) h = (t, h')" "v' = jn v t"
    using run f [of v h] by (auto split: prod.splits)
  have "allocated A' h (sp v)"
    using al A by (simp add: allocated_def)
  from deep_copiesD [OF F this t(1)] show "extends h h' \<and> copied V A h v h' v'"
    unfolding copied_def t(2) A sp by (blast intro: V)
qed

section \<open>The interface of a deep copy\<close>

text \<open>
  What a client may rely on, proved once for every type with a deep copy: the original keeps its
  value and shares no cell with the copy, and afterwards neither sees what is written to the other,
  whatever is allocated in between.
\<close>

locale deep_copier =
  fixes val :: "'c heap \<Rightarrow> 'a \<Rightarrow> 'b" and adr :: "'c heap \<Rightarrow> 'a \<Rightarrow> addr set"
    and into :: "'a \<Rightarrow> ('c, 'a) mem"
  assumes loc: "local_value val adr" and copies: "deep_copies val adr into"
begin

lemma same_value:
  assumes "allocated adr h v" "run_state (into v) h = (v', h')"
  shows "val h' v' = val h v"
  using deep_copiesD [OF copies assms] by (simp add: copied_def)

lemma fresh:
  assumes "allocated adr h v" "run_state (into v) h = (v', h')"
  shows "adr h' v' \<subseteq> {lim h..<lim h'}"
  using deep_copiesD [OF copies assms] by (simp add: copied_def)

lemma unchanged:
  assumes "allocated adr h v" "run_state (into v) h = (v', h')"
  shows "extends h h'" "agree {..<lim h} h h'"
  using deep_copiesD [OF copies assms] agree_extends by auto

lemma original_kept:
  assumes "allocated adr h v" "run_state (into v) h = (v', h')"
  shows "val h' v = val h v" "adr h' v = adr h v"
  using local_value_extends [OF loc assms(1) deep_copiesD(1) [OF copies assms]] by auto

lemma nothing_shared:
  assumes "allocated adr h v" "run_state (into v) h = (v', h')"
  shows "adr h' v \<inter> adr h' v' = {}"
  using deep_copiesD [OF copies assms] original_kept [OF assms] assms(1)
  by (force simp: copied_def allocated_def)

lemma copy_isolated:
  assumes "allocated adr h v" "run_state (into v) h = (v', h')" "agree {lim h..<lim h'} h' h''"
  shows "val h'' v' = val h v"
proof -
  have "agree (adr h' v') h' h''"
    using deep_copiesD(2) [OF copies assms(1,2)] assms(3) by (auto simp: copied_def intro: agree_mono)
  from local_valueD [OF loc this] show ?thesis
    using same_value [OF assms(1,2)] by simp
qed

lemma original_isolated:
  assumes "allocated adr h v" "run_state (into v) h = (v', h')" "agree {..<lim h} h' h''"
  shows "val h'' v = val h v"
proof -
  have "agree (adr h' v) h' h''"
    using original_kept [OF assms(1,2)] assms(1,3) by (auto simp: allocated_def intro: agree_mono)
  from local_valueD [OF loc this] show ?thesis
    using original_kept [OF assms(1,2)] by simp
qed

end

text \<open>A deep copy of what a pointer points to, and of what a slice holds, is a deep copy again.\<close>

lemma deep_copier_pointer:
  assumes "deep_copier val adr into" "\<And>v. un (mk v) = v"
  shows "deep_copier (ptrVal un val) (ptrAdr un adr) (copyPointer mk un zero into)"
  using assms by (auto simp: deep_copier_def intro: local_intros deep_copies_pointer)

lemma deep_copier_slice:
  assumes "deep_copier val adr into" "\<And>v. un (mk v) = v"
  shows "deep_copier (sliceVal un val) (sliceAdr un adr) (copySlice mk un zero into)"
  using assms by (auto simp: deep_copier_def intro: local_intros deep_copies_slice)

lemma deep_copier_flat: "deep_copier flatVal noAdr ret"
  by (simp add: deep_copier_def local_flat deep_copies_flat)

lemma deep_copier_pair:
  assumes "deep_copier V A f" "deep_copier W B g"
  shows "deep_copier (pairVal V W) (pairAdr A B) (copyPair f g)"
  using assms by (auto simp: deep_copier_def intro: local_intros deep_copies_pair)

lemma deep_copier_via:
  assumes "deep_copier V' A' F"
    and "\<And>v h. run_state (f v) h = (case run_state (F (sp v)) h of (t, h') \<Rightarrow> (jn v t, h'))"
    and "\<And>h v. A h v = A' h (sp v)" and "\<And>v t. sp (jn v t) = t"
    and "\<And>h h' v t. V' h' t = V' h (sp v) \<Longrightarrow> V h' (jn v t) = V h v"
    and "\<And>v. jn v (sp v) = v"
  shows "deep_copier V A f"
  unfolding deep_copier_def
proof
  have F: "local_value V' A'" "deep_copies V' A' F"
    using assms(1) by (auto simp: deep_copier_def)
  show "local_value V A"
    by (rule local_via [OF F(1) assms(3)], drule assms(5)) (simp only: assms(6))
  show "deep_copies V A f"
    by (rule deep_copies_via [OF F(2) assms(2-5)])
qed

lemmas copier_rules = deep_copier_flat deep_copier_pair deep_copier_pointer deep_copier_slice

end
