(* ===== verification/Deep_Copies.thy ===== *)
theory Deep_Copies
  imports Go_Memory Api_Types
begin

text \<open>
  \<open>api/v1/zz_generated.deepcopy.go\<close> over Go's memory: the structs of \<open>api/v1\<close> as they lie in memory,
  with addresses for pointers, maps and slices, and the generated functions \<open>DeepCopyInto\<close>,
  \<open>DeepCopy\<close> and \<open>DeepCopyObject\<close> of each. A struct without pointers in memory is the record of
  \<open>Api_Types\<close>; the others have a record of their own, with the suffix \<open>M\<close>, and a function \<open>...Val\<close>
  that reads the record of \<open>Api_Types\<close> out of memory and a function \<open>...Adr\<close> for the addresses it
  reaches.

  \<open>X_DeepCopyInto v\<close> takes the struct behind \<open>in\<close> and returns the struct it leaves behind \<open>out\<close>: the
  shallow copy \<open>*out = *in\<close>, with the fields that point into memory replaced one by one. The callers
  pass a fresh \<open>out\<close>. The copies of the structs of \<open>apimachinery\<close> are library functions, the fields of
  the record \<open>library\<close>; \<open>library_copies\<close> states that they make deep copies, as documented.
\<close>

section \<open>The structs in memory\<close>

record typeMeta =
  tm_Kind :: string
  tm_APIVersion :: string

record objectMetaM =
  omm_Name :: string
  omm_Namespace :: string
  omm_Labels :: "addr option"
  omm_Annotations :: "addr option"
  omm_Finalizers :: "slice option"
  omm_DeletionTimestamp :: "addr option"
  omm_Generation :: int
  omm_OwnerReferences :: "slice option"

record listMetaM =
  lmm_ResourceVersion :: string
  lmm_Continue :: string
  lmm_RemainingItemCount :: "addr option"

record resourcesM =
  rrm_Limits :: "addr option"
  rrm_Requests :: "addr option"

record backupDestinationM =
  bdm_S3 :: "addr option"

record backupSpecM =
  bkm_Enabled :: bool
  bkm_Destination :: backupDestinationM
  bkm_Retention :: retentionPolicy
  bkm_SyncInterval :: string
  bkm_LogLevel :: string
  bkm_Resources :: "addr option"
  bkm_AutoRecover :: bool

record litestreamReplicaSpecM =
  spm_DatabaseName :: string
  spm_DatabasePath :: string
  spm_TargetDeployment :: string
  spm_TargetStatefulSet :: string
  spm_Container :: string
  spm_Image :: string
  spm_Backup :: backupSpecM
  spm_Recovery :: recoverySpec
  spm_Health :: healthSpec
  spm_Bootstrap :: bootstrapSpec
  spm_RunAsUser :: "addr option"
  spm_RunAsGroup :: "addr option"

record litestreamReplicaStatusM =
  rsm_Phase :: string
  rsm_Ready :: bool
  rsm_BackupHealthy :: bool
  rsm_LastSuccessfulReplicationTime :: "addr option"
  rsm_ReplicationLag :: string
  rsm_InjectedSpecHash :: string
  rsm_ObservedGeneration :: int
  rsm_Conditions :: "slice option"

record litestreamReplicaM =
  dbm_TypeMeta :: typeMeta
  dbm_ObjectMeta :: objectMetaM
  dbm_Spec :: litestreamReplicaSpecM
  dbm_Status :: litestreamReplicaStatusM

record litestreamReplicaListM =
  dblm_TypeMeta :: typeMeta
  dblm_ListMeta :: listMetaM
  dblm_Items :: "slice option"

record litestreamRestoreSpecM =
  rspm_SourceRef :: restoreSourceRef
  rspm_Mode :: string
  rspm_Target :: "addr option"
  rspm_Timestamp :: string
  rspm_Image :: string
  rspm_Force :: bool
  rspm_RunAsUser :: "addr option"
  rspm_RunAsGroup :: "addr option"

record litestreamRestoreStatusM =
  stm_Phase :: string
  stm_JobName :: string
  stm_OriginalReplicas :: "addr option"
  stm_StartTime :: "addr option"
  stm_CompletionTime :: "addr option"
  stm_Message :: string
  stm_ResolvedPVC :: string
  stm_ResolvedPath :: string
  stm_ResolvedSubPath :: string
  stm_Conditions :: "slice option"

record litestreamRestoreM =
  lrm_TypeMeta :: typeMeta
  lrm_ObjectMeta :: objectMetaM
  lrm_Spec :: litestreamRestoreSpecM
  lrm_Status :: litestreamRestoreStatusM

record litestreamRestoreListM =
  lrlm_TypeMeta :: typeMeta
  lrlm_ListMeta :: listMetaM
  lrlm_Items :: "slice option"

text \<open>The cells: one constructor per type that the code allocates, arrays of slices included.\<close>

datatype cell =
    S3Cell (theS3: s3Destination)
  | BackupDestinationCell (theBackupDestination: backupDestinationM)
  | RetentionCell (theRetention: retentionPolicy)
  | ResourcesCell (theResources: resourcesM)
  | BackupSpecCell (theBackupSpec: backupSpecM)
  | RecoveryCell (theRecovery: recoverySpec)
  | BootstrapCell (theBootstrap: bootstrapSpec)
  | HealthCell (theHealth: healthSpec)
  | ReplicaSpecCell (theReplicaSpec: litestreamReplicaSpecM)
  | ReplicaStatusCell (theReplicaStatus: litestreamReplicaStatusM)
  | ReplicaCell (theReplica: litestreamReplicaM)
  | ReplicaListCell (theReplicaList: litestreamReplicaListM)
  | SourceRefCell (theSourceRef: restoreSourceRef)
  | TargetCell (theTarget: restoreTarget)
  | RestoreSpecCell (theRestoreSpec: litestreamRestoreSpecM)
  | RestoreStatusCell (theRestoreStatus: litestreamRestoreStatusM)
  | RestoreCell (theRestore: litestreamRestoreM)
  | RestoreListCell (theRestoreList: litestreamRestoreListM)
  | Int32Cell (theInt32: int)
  | Int64Cell (theInt64: int)
  | TimeCell (theTime: instant)
  | MapCell (theMap: strmap)
  | StringsCell (theStrings: "string list")
  | ConditionsCell (theConditions: "condition list")
  | ReplicasCell (theReplicas: "litestreamReplicaM list")
  | RestoresCell (theRestores: "litestreamRestoreM list")

type_synonym memory = "cell heap"

text \<open>The zero values that \<open>new\<close> and \<open>make\<close> leave in a fresh cell.\<close>

definition zeroTypeMeta :: typeMeta where "zeroTypeMeta = \<lparr>tm_Kind = [], tm_APIVersion = []\<rparr>"

definition zeroObjectMeta :: objectMetaM where
  "zeroObjectMeta = \<lparr>omm_Name = [], omm_Namespace = [], omm_Labels = None, omm_Annotations = None,
     omm_Finalizers = None, omm_DeletionTimestamp = None, omm_Generation = 0, omm_OwnerReferences = None\<rparr>"

definition zeroListMeta :: listMetaM where
  "zeroListMeta = \<lparr>lmm_ResourceVersion = [], lmm_Continue = [], lmm_RemainingItemCount = None\<rparr>"

definition zeroResources :: resourcesM where
  "zeroResources = \<lparr>rrm_Limits = None, rrm_Requests = None\<rparr>"

definition zeroS3 :: s3Destination where
  "zeroS3 = \<lparr>s3_Endpoint = [], s3_Bucket = [], s3_Path = [], s3_Region = [], s3_SecretRef = []\<rparr>"

definition zeroBackupDestination :: backupDestinationM where
  "zeroBackupDestination = \<lparr>bdm_S3 = None\<rparr>"

definition zeroRetention :: retentionPolicy where "zeroRetention = \<lparr>rp_Duration = []\<rparr>"
definition zeroRecovery :: recoverySpec where "zeroRecovery = \<lparr>rc_Mode = []\<rparr>"
definition zeroBootstrap :: bootstrapSpec where "zeroBootstrap = \<lparr>bs_SQL = [], bs_Image = []\<rparr>"
definition zeroHealth :: healthSpec where "zeroHealth = \<lparr>hs_MaxReplicationLag = []\<rparr>"

definition zeroBackupSpec :: backupSpecM where
  "zeroBackupSpec = \<lparr>bkm_Enabled = False, bkm_Destination = zeroBackupDestination,
     bkm_Retention = zeroRetention, bkm_SyncInterval = [], bkm_LogLevel = [], bkm_Resources = None,
     bkm_AutoRecover = False\<rparr>"

definition zeroReplicaSpec :: litestreamReplicaSpecM where
  "zeroReplicaSpec = \<lparr>spm_DatabaseName = [], spm_DatabasePath = [], spm_TargetDeployment = [],
     spm_TargetStatefulSet = [], spm_Container = [], spm_Image = [], spm_Backup = zeroBackupSpec,
     spm_Recovery = zeroRecovery, spm_Health = zeroHealth, spm_Bootstrap = zeroBootstrap,
     spm_RunAsUser = None, spm_RunAsGroup = None\<rparr>"

definition zeroReplicaStatus :: litestreamReplicaStatusM where
  "zeroReplicaStatus = \<lparr>rsm_Phase = [], rsm_Ready = False, rsm_BackupHealthy = False,
     rsm_LastSuccessfulReplicationTime = None, rsm_ReplicationLag = [], rsm_InjectedSpecHash = [],
     rsm_ObservedGeneration = 0, rsm_Conditions = None\<rparr>"

definition zeroReplica :: litestreamReplicaM where
  "zeroReplica = \<lparr>dbm_TypeMeta = zeroTypeMeta, dbm_ObjectMeta = zeroObjectMeta,
     dbm_Spec = zeroReplicaSpec, dbm_Status = zeroReplicaStatus\<rparr>"

definition zeroReplicaList :: litestreamReplicaListM where
  "zeroReplicaList = \<lparr>dblm_TypeMeta = zeroTypeMeta, dblm_ListMeta = zeroListMeta, dblm_Items = None\<rparr>"

definition zeroSourceRef :: restoreSourceRef where "zeroSourceRef = \<lparr>sr_Name = []\<rparr>"
definition zeroTarget :: restoreTarget where "zeroTarget = \<lparr>rt_PVC = [], rt_Path = []\<rparr>"

definition zeroRestoreSpec :: litestreamRestoreSpecM where
  "zeroRestoreSpec = \<lparr>rspm_SourceRef = zeroSourceRef, rspm_Mode = [], rspm_Target = None,
     rspm_Timestamp = [], rspm_Image = [], rspm_Force = False, rspm_RunAsUser = None,
     rspm_RunAsGroup = None\<rparr>"

definition zeroRestoreStatus :: litestreamRestoreStatusM where
  "zeroRestoreStatus = \<lparr>stm_Phase = [], stm_JobName = [], stm_OriginalReplicas = None,
     stm_StartTime = None, stm_CompletionTime = None, stm_Message = [], stm_ResolvedPVC = [],
     stm_ResolvedPath = [], stm_ResolvedSubPath = [], stm_Conditions = None\<rparr>"

definition zeroRestore :: litestreamRestoreM where
  "zeroRestore = \<lparr>lrm_TypeMeta = zeroTypeMeta, lrm_ObjectMeta = zeroObjectMeta,
     lrm_Spec = zeroRestoreSpec, lrm_Status = zeroRestoreStatus\<rparr>"

definition zeroRestoreList :: litestreamRestoreListM where
  "zeroRestoreList = \<lparr>lrlm_TypeMeta = zeroTypeMeta, lrlm_ListMeta = zeroListMeta, lrlm_Items = None\<rparr>"

definition zeroCondition :: condition where
  "zeroCondition = \<lparr>cd_Type = [], cd_Status = [], cd_ObservedGeneration = 0, cd_LastTransitionTime = 0,
     cd_Reason = [], cd_Message = []\<rparr>"

section \<open>The copies of the library\<close>

record library =
  lib_ObjectMeta :: "objectMetaM \<Rightarrow> (cell, objectMetaM) mem"
  lib_ListMeta :: "listMetaM \<Rightarrow> (cell, listMetaM) mem"
  lib_Resources :: "resourcesM \<Rightarrow> (cell, resourcesM) mem"
  lib_Time :: "addr option \<Rightarrow> (cell, addr option) mem"
  lib_Condition :: "condition \<Rightarrow> (cell, condition) mem"

section \<open>The generated functions\<close>

definition BackupDestination_DeepCopyInto :: "backupDestinationM \<Rightarrow> (cell, backupDestinationM) mem" where
  "BackupDestination_DeepCopyInto this = do {
     let out = this;
     s3 \<leftarrow> copyPointer S3Cell theS3 zeroS3 ret (bdm_S3 this);
     ret (out\<lparr>bdm_S3 := s3\<rparr>)
   }"

definition BackupDestination_DeepCopy :: "addr option \<Rightarrow> (cell, addr option) mem" where
  "BackupDestination_DeepCopy =
     copyPointer BackupDestinationCell theBackupDestination zeroBackupDestination BackupDestination_DeepCopyInto"

definition BackupSpec_DeepCopyInto :: "library \<Rightarrow> backupSpecM \<Rightarrow> (cell, backupSpecM) mem" where
  "BackupSpec_DeepCopyInto L this = do {
     let out = this;
     destination \<leftarrow> BackupDestination_DeepCopyInto (bkm_Destination this);
     let out = out\<lparr>bkm_Destination := destination\<rparr>;
     let out = out\<lparr>bkm_Retention := bkm_Retention this\<rparr>;
     resources \<leftarrow> copyPointer ResourcesCell theResources zeroResources (lib_Resources L) (bkm_Resources this);
     ret (out\<lparr>bkm_Resources := resources\<rparr>)
   }"

definition BackupSpec_DeepCopy :: "library \<Rightarrow> addr option \<Rightarrow> (cell, addr option) mem" where
  "BackupSpec_DeepCopy L = copyPointer BackupSpecCell theBackupSpec zeroBackupSpec (BackupSpec_DeepCopyInto L)"

definition BootstrapSpec_DeepCopyInto :: "bootstrapSpec \<Rightarrow> (cell, bootstrapSpec) mem" where
  "BootstrapSpec_DeepCopyInto this = ret this"

definition BootstrapSpec_DeepCopy :: "addr option \<Rightarrow> (cell, addr option) mem" where
  "BootstrapSpec_DeepCopy = copyPointer BootstrapCell theBootstrap zeroBootstrap BootstrapSpec_DeepCopyInto"

definition HealthSpec_DeepCopyInto :: "healthSpec \<Rightarrow> (cell, healthSpec) mem" where
  "HealthSpec_DeepCopyInto this = ret this"

definition HealthSpec_DeepCopy :: "addr option \<Rightarrow> (cell, addr option) mem" where
  "HealthSpec_DeepCopy = copyPointer HealthCell theHealth zeroHealth HealthSpec_DeepCopyInto"

definition LitestreamReplicaSpec_DeepCopyInto ::
    "library \<Rightarrow> litestreamReplicaSpecM \<Rightarrow> (cell, litestreamReplicaSpecM) mem" where
  "LitestreamReplicaSpec_DeepCopyInto L this = do {
     let out = this;
     backup \<leftarrow> BackupSpec_DeepCopyInto L (spm_Backup this);
     let out = out\<lparr>spm_Backup := backup\<rparr>;
     let out = out\<lparr>spm_Recovery := spm_Recovery this\<rparr>;
     let out = out\<lparr>spm_Health := spm_Health this\<rparr>;
     let out = out\<lparr>spm_Bootstrap := spm_Bootstrap this\<rparr>;
     runAsUser \<leftarrow> copyPointer Int64Cell theInt64 0 ret (spm_RunAsUser this);
     let out = out\<lparr>spm_RunAsUser := runAsUser\<rparr>;
     runAsGroup \<leftarrow> copyPointer Int64Cell theInt64 0 ret (spm_RunAsGroup this);
     ret (out\<lparr>spm_RunAsGroup := runAsGroup\<rparr>)
   }"

definition LitestreamReplicaSpec_DeepCopy :: "library \<Rightarrow> addr option \<Rightarrow> (cell, addr option) mem" where
  "LitestreamReplicaSpec_DeepCopy L =
     copyPointer ReplicaSpecCell theReplicaSpec zeroReplicaSpec (LitestreamReplicaSpec_DeepCopyInto L)"

definition LitestreamReplicaStatus_DeepCopyInto ::
    "library \<Rightarrow> litestreamReplicaStatusM \<Rightarrow> (cell, litestreamReplicaStatusM) mem" where
  "LitestreamReplicaStatus_DeepCopyInto L this = do {
     let out = this;
     last \<leftarrow> lib_Time L (rsm_LastSuccessfulReplicationTime this);
     let out = out\<lparr>rsm_LastSuccessfulReplicationTime := last\<rparr>;
     conditions \<leftarrow> copySlice ConditionsCell theConditions zeroCondition (lib_Condition L) (rsm_Conditions this);
     ret (out\<lparr>rsm_Conditions := conditions\<rparr>)
   }"

definition LitestreamReplicaStatus_DeepCopy :: "library \<Rightarrow> addr option \<Rightarrow> (cell, addr option) mem" where
  "LitestreamReplicaStatus_DeepCopy L =
     copyPointer ReplicaStatusCell theReplicaStatus zeroReplicaStatus (LitestreamReplicaStatus_DeepCopyInto L)"

definition LitestreamReplica_DeepCopyInto :: "library \<Rightarrow> litestreamReplicaM \<Rightarrow> (cell, litestreamReplicaM) mem" where
  "LitestreamReplica_DeepCopyInto L this = do {
     let out = this;
     let out = out\<lparr>dbm_TypeMeta := dbm_TypeMeta this\<rparr>;
     objectMeta \<leftarrow> lib_ObjectMeta L (dbm_ObjectMeta this);
     let out = out\<lparr>dbm_ObjectMeta := objectMeta\<rparr>;
     spec \<leftarrow> LitestreamReplicaSpec_DeepCopyInto L (dbm_Spec this);
     let out = out\<lparr>dbm_Spec := spec\<rparr>;
     status \<leftarrow> LitestreamReplicaStatus_DeepCopyInto L (dbm_Status this);
     ret (out\<lparr>dbm_Status := status\<rparr>)
   }"

definition LitestreamReplica_DeepCopy :: "library \<Rightarrow> addr option \<Rightarrow> (cell, addr option) mem" where
  "LitestreamReplica_DeepCopy L =
     copyPointer ReplicaCell theReplica zeroReplica (LitestreamReplica_DeepCopyInto L)"

definition LitestreamReplicaList_DeepCopyInto ::
    "library \<Rightarrow> litestreamReplicaListM \<Rightarrow> (cell, litestreamReplicaListM) mem" where
  "LitestreamReplicaList_DeepCopyInto L this = do {
     let out = this;
     let out = out\<lparr>dblm_TypeMeta := dblm_TypeMeta this\<rparr>;
     listMeta \<leftarrow> lib_ListMeta L (dblm_ListMeta this);
     let out = out\<lparr>dblm_ListMeta := listMeta\<rparr>;
     items \<leftarrow> copySlice ReplicasCell theReplicas zeroReplica (LitestreamReplica_DeepCopyInto L) (dblm_Items this);
     ret (out\<lparr>dblm_Items := items\<rparr>)
   }"

definition LitestreamReplicaList_DeepCopy :: "library \<Rightarrow> addr option \<Rightarrow> (cell, addr option) mem" where
  "LitestreamReplicaList_DeepCopy L =
     copyPointer ReplicaListCell theReplicaList zeroReplicaList (LitestreamReplicaList_DeepCopyInto L)"

definition LitestreamRestoreSpec_DeepCopyInto ::
    "litestreamRestoreSpecM \<Rightarrow> (cell, litestreamRestoreSpecM) mem" where
  "LitestreamRestoreSpec_DeepCopyInto this = do {
     let out = this;
     let out = out\<lparr>rspm_SourceRef := rspm_SourceRef this\<rparr>;
     target \<leftarrow> copyPointer TargetCell theTarget zeroTarget ret (rspm_Target this);
     let out = out\<lparr>rspm_Target := target\<rparr>;
     runAsUser \<leftarrow> copyPointer Int64Cell theInt64 0 ret (rspm_RunAsUser this);
     let out = out\<lparr>rspm_RunAsUser := runAsUser\<rparr>;
     runAsGroup \<leftarrow> copyPointer Int64Cell theInt64 0 ret (rspm_RunAsGroup this);
     ret (out\<lparr>rspm_RunAsGroup := runAsGroup\<rparr>)
   }"

definition LitestreamRestoreSpec_DeepCopy :: "addr option \<Rightarrow> (cell, addr option) mem" where
  "LitestreamRestoreSpec_DeepCopy =
     copyPointer RestoreSpecCell theRestoreSpec zeroRestoreSpec LitestreamRestoreSpec_DeepCopyInto"

definition LitestreamRestoreStatus_DeepCopyInto ::
    "library \<Rightarrow> litestreamRestoreStatusM \<Rightarrow> (cell, litestreamRestoreStatusM) mem" where
  "LitestreamRestoreStatus_DeepCopyInto L this = do {
     let out = this;
     originalReplicas \<leftarrow> copyPointer Int32Cell theInt32 0 ret (stm_OriginalReplicas this);
     let out = out\<lparr>stm_OriginalReplicas := originalReplicas\<rparr>;
     startTime \<leftarrow> lib_Time L (stm_StartTime this);
     let out = out\<lparr>stm_StartTime := startTime\<rparr>;
     completionTime \<leftarrow> lib_Time L (stm_CompletionTime this);
     let out = out\<lparr>stm_CompletionTime := completionTime\<rparr>;
     conditions \<leftarrow> copySlice ConditionsCell theConditions zeroCondition (lib_Condition L) (stm_Conditions this);
     ret (out\<lparr>stm_Conditions := conditions\<rparr>)
   }"

definition LitestreamRestoreStatus_DeepCopy :: "library \<Rightarrow> addr option \<Rightarrow> (cell, addr option) mem" where
  "LitestreamRestoreStatus_DeepCopy L =
     copyPointer RestoreStatusCell theRestoreStatus zeroRestoreStatus (LitestreamRestoreStatus_DeepCopyInto L)"

definition LitestreamRestore_DeepCopyInto :: "library \<Rightarrow> litestreamRestoreM \<Rightarrow> (cell, litestreamRestoreM) mem" where
  "LitestreamRestore_DeepCopyInto L this = do {
     let out = this;
     let out = out\<lparr>lrm_TypeMeta := lrm_TypeMeta this\<rparr>;
     objectMeta \<leftarrow> lib_ObjectMeta L (lrm_ObjectMeta this);
     let out = out\<lparr>lrm_ObjectMeta := objectMeta\<rparr>;
     spec \<leftarrow> LitestreamRestoreSpec_DeepCopyInto (lrm_Spec this);
     let out = out\<lparr>lrm_Spec := spec\<rparr>;
     status \<leftarrow> LitestreamRestoreStatus_DeepCopyInto L (lrm_Status this);
     ret (out\<lparr>lrm_Status := status\<rparr>)
   }"

definition LitestreamRestore_DeepCopy :: "library \<Rightarrow> addr option \<Rightarrow> (cell, addr option) mem" where
  "LitestreamRestore_DeepCopy L =
     copyPointer RestoreCell theRestore zeroRestore (LitestreamRestore_DeepCopyInto L)"

definition LitestreamRestoreList_DeepCopyInto ::
    "library \<Rightarrow> litestreamRestoreListM \<Rightarrow> (cell, litestreamRestoreListM) mem" where
  "LitestreamRestoreList_DeepCopyInto L this = do {
     let out = this;
     let out = out\<lparr>lrlm_TypeMeta := lrlm_TypeMeta this\<rparr>;
     listMeta \<leftarrow> lib_ListMeta L (lrlm_ListMeta this);
     let out = out\<lparr>lrlm_ListMeta := listMeta\<rparr>;
     items \<leftarrow> copySlice RestoresCell theRestores zeroRestore (LitestreamRestore_DeepCopyInto L) (lrlm_Items this);
     ret (out\<lparr>lrlm_Items := items\<rparr>)
   }"

definition LitestreamRestoreList_DeepCopy :: "library \<Rightarrow> addr option \<Rightarrow> (cell, addr option) mem" where
  "LitestreamRestoreList_DeepCopy L =
     copyPointer RestoreListCell theRestoreList zeroRestoreList (LitestreamRestoreList_DeepCopyInto L)"

definition RecoverySpec_DeepCopyInto :: "recoverySpec \<Rightarrow> (cell, recoverySpec) mem" where
  "RecoverySpec_DeepCopyInto this = ret this"

definition RecoverySpec_DeepCopy :: "addr option \<Rightarrow> (cell, addr option) mem" where
  "RecoverySpec_DeepCopy = copyPointer RecoveryCell theRecovery zeroRecovery RecoverySpec_DeepCopyInto"

definition RestoreSourceRef_DeepCopyInto :: "restoreSourceRef \<Rightarrow> (cell, restoreSourceRef) mem" where
  "RestoreSourceRef_DeepCopyInto this = ret this"

definition RestoreSourceRef_DeepCopy :: "addr option \<Rightarrow> (cell, addr option) mem" where
  "RestoreSourceRef_DeepCopy = copyPointer SourceRefCell theSourceRef zeroSourceRef RestoreSourceRef_DeepCopyInto"

definition RestoreTarget_DeepCopyInto :: "restoreTarget \<Rightarrow> (cell, restoreTarget) mem" where
  "RestoreTarget_DeepCopyInto this = ret this"

definition RestoreTarget_DeepCopy :: "addr option \<Rightarrow> (cell, addr option) mem" where
  "RestoreTarget_DeepCopy = copyPointer TargetCell theTarget zeroTarget RestoreTarget_DeepCopyInto"

definition RetentionPolicy_DeepCopyInto :: "retentionPolicy \<Rightarrow> (cell, retentionPolicy) mem" where
  "RetentionPolicy_DeepCopyInto this = ret this"

definition RetentionPolicy_DeepCopy :: "addr option \<Rightarrow> (cell, addr option) mem" where
  "RetentionPolicy_DeepCopy = copyPointer RetentionCell theRetention zeroRetention RetentionPolicy_DeepCopyInto"

definition S3Destination_DeepCopyInto :: "s3Destination \<Rightarrow> (cell, s3Destination) mem" where
  "S3Destination_DeepCopyInto this = ret this"

definition S3Destination_DeepCopy :: "addr option \<Rightarrow> (cell, addr option) mem" where
  "S3Destination_DeepCopy = copyPointer S3Cell theS3 zeroS3 S3Destination_DeepCopyInto"

text \<open>
  \<open>DeepCopyObject\<close> returns an interface value, which is nil (\<open>None\<close>) or a pointer with its type; a
  nil pointer with a type is not a nil interface, hence the test in the code.
\<close>

datatype runtimeObject =
    ReplicaPtr "addr option" | ReplicaListPtr "addr option"
  | RestorePtr "addr option" | RestoreListPtr "addr option"

definition LitestreamReplica_DeepCopyObject :: "library \<Rightarrow> addr option \<Rightarrow> (cell, runtimeObject option) mem" where
  "LitestreamReplica_DeepCopyObject L this = do {
     c \<leftarrow> LitestreamReplica_DeepCopy L this;
     if c \<noteq> None then ret (Some (ReplicaPtr c)) else ret None
   }"

definition LitestreamReplicaList_DeepCopyObject :: "library \<Rightarrow> addr option \<Rightarrow> (cell, runtimeObject option) mem" where
  "LitestreamReplicaList_DeepCopyObject L this = do {
     c \<leftarrow> LitestreamReplicaList_DeepCopy L this;
     if c \<noteq> None then ret (Some (ReplicaListPtr c)) else ret None
   }"

definition LitestreamRestore_DeepCopyObject :: "library \<Rightarrow> addr option \<Rightarrow> (cell, runtimeObject option) mem" where
  "LitestreamRestore_DeepCopyObject L this = do {
     c \<leftarrow> LitestreamRestore_DeepCopy L this;
     if c \<noteq> None then ret (Some (RestorePtr c)) else ret None
   }"

definition LitestreamRestoreList_DeepCopyObject :: "library \<Rightarrow> addr option \<Rightarrow> (cell, runtimeObject option) mem" where
  "LitestreamRestoreList_DeepCopyObject L this = do {
     c \<leftarrow> LitestreamRestoreList_DeepCopy L this;
     if c \<noteq> None then ret (Some (RestoreListPtr c)) else ret None
   }"

end
