(* ===== verification/Deep_Copy_Props.thy ===== *)
theory Deep_Copy_Props
  imports Deep_Copies
begin

text \<open>
  What the structs of \<open>api/v1\<close> denote in memory, and that every generated function makes a deep copy:
  \<open>deep_copier\<close> is established for each type from its parts, and the properties of the operator's two
  kinds and their lists follow. The last section is the use the controllers make of it: the base of a
  merge patch is a copy taken before the object is changed in place, and it still holds the object
  as it was.
\<close>

section \<open>The values in memory\<close>

text \<open>A nil map reads as an empty one, a nil slice as an empty list.\<close>

definition mapOf :: "memory \<Rightarrow> addr option \<Rightarrow> strmap" where
  "mapOf h p = (case ptrVal theMap flatVal h p of None \<Rightarrow> Map.empty | Some m \<Rightarrow> m)"

definition listOf :: "'a list option \<Rightarrow> 'a list" where
  "listOf xs = (case xs of None \<Rightarrow> [] | Some ys \<Rightarrow> ys)"

definition mapAdr :: "memory \<Rightarrow> addr option \<Rightarrow> addr set" where
  "mapAdr = ptrAdr theMap noAdr"

definition objectMetaVal :: "memory \<Rightarrow> objectMetaM \<Rightarrow> objectMeta" where
  "objectMetaVal h m = \<lparr>om_Name = omm_Name m, om_Namespace = omm_Namespace m,
     om_Labels = mapOf h (omm_Labels m), om_Annotations = mapOf h (omm_Annotations m),
     om_Finalizers = listOf (sliceVal theStrings flatVal h (omm_Finalizers m)),
     om_DeletionTimestamp = ptrVal theTime flatVal h (omm_DeletionTimestamp m),
     om_Generation = omm_Generation m,
     om_OwnerReferences = listOf (sliceVal theStrings flatVal h (omm_OwnerReferences m))\<rparr>"

definition objectMetaAdr :: "memory \<Rightarrow> objectMetaM \<Rightarrow> addr set" where
  "objectMetaAdr h m = mapAdr h (omm_Labels m) \<union> (mapAdr h (omm_Annotations m) \<union>
     (sliceAdr theStrings noAdr h (omm_Finalizers m) \<union>
      (ptrAdr theTime noAdr h (omm_DeletionTimestamp m) \<union>
       sliceAdr theStrings noAdr h (omm_OwnerReferences m))))"

record listMeta =
  lm_ResourceVersion :: string
  lm_Continue :: string
  lm_RemainingItemCount :: "int option"

definition listMetaVal :: "memory \<Rightarrow> listMetaM \<Rightarrow> listMeta" where
  "listMetaVal h m = \<lparr>lm_ResourceVersion = lmm_ResourceVersion m, lm_Continue = lmm_Continue m,
     lm_RemainingItemCount = ptrVal theInt64 flatVal h (lmm_RemainingItemCount m)\<rparr>"

definition listMetaAdr :: "memory \<Rightarrow> listMetaM \<Rightarrow> addr set" where
  "listMetaAdr h m = ptrAdr theInt64 noAdr h (lmm_RemainingItemCount m)"

definition resourcesVal :: "memory \<Rightarrow> resourcesM \<Rightarrow> resourceRequirements" where
  "resourcesVal h r = \<lparr>rr_Limits = mapOf h (rrm_Limits r), rr_Requests = mapOf h (rrm_Requests r)\<rparr>"

definition resourcesAdr :: "memory \<Rightarrow> resourcesM \<Rightarrow> addr set" where
  "resourcesAdr h r = mapAdr h (rrm_Limits r) \<union> mapAdr h (rrm_Requests r)"

definition backupDestinationVal :: "memory \<Rightarrow> backupDestinationM \<Rightarrow> backupDestination" where
  "backupDestinationVal h d = \<lparr>bd_S3 = ptrVal theS3 flatVal h (bdm_S3 d)\<rparr>"

definition backupDestinationAdr :: "memory \<Rightarrow> backupDestinationM \<Rightarrow> addr set" where
  "backupDestinationAdr h d = ptrAdr theS3 noAdr h (bdm_S3 d)"

definition backupSpecVal :: "memory \<Rightarrow> backupSpecM \<Rightarrow> backupSpec" where
  "backupSpecVal h b = \<lparr>bk_Enabled = bkm_Enabled b,
     bk_Destination = backupDestinationVal h (bkm_Destination b), bk_Retention = bkm_Retention b,
     bk_SyncInterval = bkm_SyncInterval b, bk_LogLevel = bkm_LogLevel b,
     bk_Resources = ptrVal theResources resourcesVal h (bkm_Resources b),
     bk_AutoRecover = bkm_AutoRecover b\<rparr>"

definition backupSpecAdr :: "memory \<Rightarrow> backupSpecM \<Rightarrow> addr set" where
  "backupSpecAdr h b = backupDestinationAdr h (bkm_Destination b) \<union>
     ptrAdr theResources resourcesAdr h (bkm_Resources b)"

definition replicaSpecVal :: "memory \<Rightarrow> litestreamReplicaSpecM \<Rightarrow> litestreamReplicaSpec" where
  "replicaSpecVal h s = \<lparr>sp_DatabaseName = spm_DatabaseName s, sp_DatabasePath = spm_DatabasePath s,
     sp_TargetDeployment = spm_TargetDeployment s, sp_TargetStatefulSet = spm_TargetStatefulSet s,
     sp_Container = spm_Container s, sp_Image = spm_Image s, sp_Backup = backupSpecVal h (spm_Backup s),
     sp_Recovery = spm_Recovery s, sp_Health = spm_Health s, sp_Bootstrap = spm_Bootstrap s,
     sp_RunAsUser = ptrVal theInt64 flatVal h (spm_RunAsUser s),
     sp_RunAsGroup = ptrVal theInt64 flatVal h (spm_RunAsGroup s)\<rparr>"

definition replicaSpecAdr :: "memory \<Rightarrow> litestreamReplicaSpecM \<Rightarrow> addr set" where
  "replicaSpecAdr h s = backupSpecAdr h (spm_Backup s) \<union>
     (ptrAdr theInt64 noAdr h (spm_RunAsUser s) \<union> ptrAdr theInt64 noAdr h (spm_RunAsGroup s))"

definition replicaStatusVal :: "memory \<Rightarrow> litestreamReplicaStatusM \<Rightarrow> litestreamReplicaStatus" where
  "replicaStatusVal h s = \<lparr>rst_Phase = rsm_Phase s, rst_Ready = rsm_Ready s,
     rst_BackupHealthy = rsm_BackupHealthy s,
     rst_LastSuccessfulReplicationTime = ptrVal theTime flatVal h (rsm_LastSuccessfulReplicationTime s),
     rst_ReplicationLag = rsm_ReplicationLag s, rst_InjectedSpecHash = rsm_InjectedSpecHash s,
     rst_ObservedGeneration = rsm_ObservedGeneration s,
     rst_Conditions = listOf (sliceVal theConditions flatVal h (rsm_Conditions s))\<rparr>"

definition replicaStatusAdr :: "memory \<Rightarrow> litestreamReplicaStatusM \<Rightarrow> addr set" where
  "replicaStatusAdr h s = ptrAdr theTime noAdr h (rsm_LastSuccessfulReplicationTime s) \<union>
     sliceAdr theConditions noAdr h (rsm_Conditions s)"

text \<open>An object is its type and its record, a list its type, its metadata and its items.\<close>

definition replicaVal :: "memory \<Rightarrow> litestreamReplicaM \<Rightarrow> typeMeta \<times> litestreamReplica" where
  "replicaVal h db = (dbm_TypeMeta db, \<lparr>db_Meta = objectMetaVal h (dbm_ObjectMeta db),
     db_Spec = replicaSpecVal h (dbm_Spec db), db_Status = replicaStatusVal h (dbm_Status db)\<rparr>)"

definition replicaAdr :: "memory \<Rightarrow> litestreamReplicaM \<Rightarrow> addr set" where
  "replicaAdr h db = objectMetaAdr h (dbm_ObjectMeta db) \<union>
     (replicaSpecAdr h (dbm_Spec db) \<union> replicaStatusAdr h (dbm_Status db))"

definition replicaListVal ::
    "memory \<Rightarrow> litestreamReplicaListM \<Rightarrow> typeMeta \<times> listMeta \<times> (typeMeta \<times> litestreamReplica) list option" where
  "replicaListVal h l = (dblm_TypeMeta l, listMetaVal h (dblm_ListMeta l),
     sliceVal theReplicas replicaVal h (dblm_Items l))"

definition replicaListAdr :: "memory \<Rightarrow> litestreamReplicaListM \<Rightarrow> addr set" where
  "replicaListAdr h l = listMetaAdr h (dblm_ListMeta l) \<union> sliceAdr theReplicas replicaAdr h (dblm_Items l)"

definition restoreSpecVal :: "memory \<Rightarrow> litestreamRestoreSpecM \<Rightarrow> litestreamRestoreSpec" where
  "restoreSpecVal h s = \<lparr>rsp_SourceRef = rspm_SourceRef s, rsp_Mode = rspm_Mode s,
     rsp_Target = ptrVal theTarget flatVal h (rspm_Target s), rsp_Timestamp = rspm_Timestamp s,
     rsp_Image = rspm_Image s, rsp_Force = rspm_Force s,
     rsp_RunAsUser = ptrVal theInt64 flatVal h (rspm_RunAsUser s),
     rsp_RunAsGroup = ptrVal theInt64 flatVal h (rspm_RunAsGroup s)\<rparr>"

definition restoreSpecAdr :: "memory \<Rightarrow> litestreamRestoreSpecM \<Rightarrow> addr set" where
  "restoreSpecAdr h s = ptrAdr theTarget noAdr h (rspm_Target s) \<union>
     (ptrAdr theInt64 noAdr h (rspm_RunAsUser s) \<union> ptrAdr theInt64 noAdr h (rspm_RunAsGroup s))"

definition restoreStatusVal :: "memory \<Rightarrow> litestreamRestoreStatusM \<Rightarrow> litestreamRestoreStatus" where
  "restoreStatusVal h s = \<lparr>st_Phase = stm_Phase s, st_JobName = stm_JobName s,
     st_OriginalReplicas = ptrVal theInt32 flatVal h (stm_OriginalReplicas s),
     st_StartTime = ptrVal theTime flatVal h (stm_StartTime s),
     st_CompletionTime = ptrVal theTime flatVal h (stm_CompletionTime s), st_Message = stm_Message s,
     st_ResolvedPVC = stm_ResolvedPVC s, st_ResolvedPath = stm_ResolvedPath s,
     st_ResolvedSubPath = stm_ResolvedSubPath s,
     st_Conditions = listOf (sliceVal theConditions flatVal h (stm_Conditions s))\<rparr>"

definition restoreStatusAdr :: "memory \<Rightarrow> litestreamRestoreStatusM \<Rightarrow> addr set" where
  "restoreStatusAdr h s = ptrAdr theInt32 noAdr h (stm_OriginalReplicas s) \<union>
     (ptrAdr theTime noAdr h (stm_StartTime s) \<union>
      (ptrAdr theTime noAdr h (stm_CompletionTime s) \<union> sliceAdr theConditions noAdr h (stm_Conditions s)))"

definition restoreVal :: "memory \<Rightarrow> litestreamRestoreM \<Rightarrow> typeMeta \<times> litestreamRestore" where
  "restoreVal h r = (lrm_TypeMeta r, \<lparr>lr_Meta = objectMetaVal h (lrm_ObjectMeta r),
     lr_Spec = restoreSpecVal h (lrm_Spec r), lr_Status = restoreStatusVal h (lrm_Status r)\<rparr>)"

definition restoreAdr :: "memory \<Rightarrow> litestreamRestoreM \<Rightarrow> addr set" where
  "restoreAdr h r = objectMetaAdr h (lrm_ObjectMeta r) \<union>
     (restoreSpecAdr h (lrm_Spec r) \<union> restoreStatusAdr h (lrm_Status r))"

definition restoreListVal ::
    "memory \<Rightarrow> litestreamRestoreListM \<Rightarrow> typeMeta \<times> listMeta \<times> (typeMeta \<times> litestreamRestore) list option" where
  "restoreListVal h l = (lrlm_TypeMeta l, listMetaVal h (lrlm_ListMeta l),
     sliceVal theRestores restoreVal h (lrlm_Items l))"

definition restoreListAdr :: "memory \<Rightarrow> litestreamRestoreListM \<Rightarrow> addr set" where
  "restoreListAdr h l = listMetaAdr h (lrlm_ListMeta l) \<union> sliceAdr theRestores restoreAdr h (lrlm_Items l)"

section \<open>The documented behaviour of the library's copies\<close>

definition library_copies :: "library \<Rightarrow> bool" where
  "library_copies L \<longleftrightarrow>
     deep_copies objectMetaVal objectMetaAdr (lib_ObjectMeta L) \<and>
     deep_copies listMetaVal listMetaAdr (lib_ListMeta L) \<and>
     deep_copies resourcesVal resourcesAdr (lib_Resources L) \<and>
     deep_copies (ptrVal theTime flatVal) (ptrAdr theTime noAdr) (lib_Time L) \<and>
     deep_copies flatVal noAdr (lib_Condition L)"

section \<open>Every generated function makes a deep copy\<close>

text \<open>A struct is copied like the tuple of its pointer fields: \<open>deep_copier_via\<close>.\<close>

lemma local_map: "local_value mapOf mapAdr"
  unfolding mapAdr_def
  by (rule local_via [where sp = id and V' = "ptrVal theMap flatVal"])
    (auto intro: local_intros simp: mapOf_def)

lemma local_objectMeta: "local_value objectMetaVal objectMetaAdr"
  by (rule local_via [where sp = "\<lambda>m. (omm_Labels m, omm_Annotations m, omm_Finalizers m,
        omm_DeletionTimestamp m, omm_OwnerReferences m)",
      OF local_pair [OF local_map local_pair [OF local_map local_pair [OF local_slice [OF local_flat]
        local_pair [OF local_ptr [OF local_flat] local_slice [OF local_flat]]]]]])
    (auto simp: objectMetaVal_def objectMetaAdr_def pairVal_def pairAdr_def)

lemma local_listMeta: "local_value listMetaVal listMetaAdr"
  by (rule local_via [where sp = lmm_RemainingItemCount, OF local_ptr [OF local_flat]])
    (auto simp: listMetaVal_def listMetaAdr_def)

lemma local_resources: "local_value resourcesVal resourcesAdr"
  by (rule local_via [where sp = "\<lambda>r. (rrm_Limits r, rrm_Requests r)", OF local_pair [OF local_map local_map]])
    (auto simp: resourcesVal_def resourcesAdr_def pairVal_def pairAdr_def)

lemma library_copiers:
  assumes "library_copies L"
  shows "deep_copier objectMetaVal objectMetaAdr (lib_ObjectMeta L)"
    "deep_copier listMetaVal listMetaAdr (lib_ListMeta L)"
    "deep_copier resourcesVal resourcesAdr (lib_Resources L)"
    "deep_copier (ptrVal theTime flatVal) (ptrAdr theTime noAdr) (lib_Time L)"
    "deep_copier flatVal noAdr (lib_Condition L)"
  using assms local_objectMeta local_listMeta local_resources local_ptr [OF local_flat] local_flat
  by (auto simp: library_copies_def deep_copier_def)

lemma copier_BackupDestination:
  "deep_copier backupDestinationVal backupDestinationAdr BackupDestination_DeepCopyInto"
  by (rule deep_copier_via [where sp = bdm_S3 and jn = "\<lambda>v t. v\<lparr>bdm_S3 := t\<rparr>",
      OF deep_copier_pointer [OF deep_copier_flat]])
    (auto simp: backupDestinationVal_def backupDestinationAdr_def BackupDestination_DeepCopyInto_def
      split: prod.splits)

lemma copier_BackupSpec:
  assumes "library_copies L"
  shows "deep_copier backupSpecVal backupSpecAdr (BackupSpec_DeepCopyInto L)"
  by (rule deep_copier_via [where sp = "\<lambda>b. (bkm_Destination b, bkm_Resources b)" and
        jn = "\<lambda>v t. v\<lparr>bkm_Destination := fst t, bkm_Resources := snd t\<rparr>",
      OF deep_copier_pair [OF copier_BackupDestination
        deep_copier_pointer [OF library_copiers(3) [OF assms], of theResources ResourcesCell zeroResources]]])
    (auto simp: backupSpecVal_def backupSpecAdr_def pairVal_def pairAdr_def copyPair_def
      BackupSpec_DeepCopyInto_def split: prod.splits)

lemmas copier_int64 = deep_copier_pointer [OF deep_copier_flat, of theInt64 Int64Cell 0, simplified]
lemmas copier_int32 = deep_copier_pointer [OF deep_copier_flat, of theInt32 Int32Cell 0, simplified]
lemmas copier_target = deep_copier_pointer [OF deep_copier_flat, of theTarget TargetCell zeroTarget, simplified]

lemma copier_conditions:
  assumes "library_copies L"
  shows "deep_copier (sliceVal theConditions flatVal) (sliceAdr theConditions noAdr)
    (copySlice ConditionsCell theConditions zeroCondition (lib_Condition L))"
  by (rule deep_copier_slice [OF library_copiers(5) [OF assms]]) simp

lemma copier_ReplicaSpec:
  assumes "library_copies L"
  shows "deep_copier replicaSpecVal replicaSpecAdr (LitestreamReplicaSpec_DeepCopyInto L)"
  by (rule deep_copier_via [where sp = "\<lambda>s. (spm_Backup s, spm_RunAsUser s, spm_RunAsGroup s)" and
        jn = "\<lambda>v t. v\<lparr>spm_Backup := fst t, spm_RunAsUser := fst (snd t), spm_RunAsGroup := snd (snd t)\<rparr>",
      OF deep_copier_pair [OF copier_BackupSpec [OF assms] deep_copier_pair [OF copier_int64 copier_int64]]])
    (auto simp: replicaSpecVal_def replicaSpecAdr_def pairVal_def pairAdr_def copyPair_def
      LitestreamReplicaSpec_DeepCopyInto_def split: prod.splits)

lemma copier_ReplicaStatus:
  assumes "library_copies L"
  shows "deep_copier replicaStatusVal replicaStatusAdr (LitestreamReplicaStatus_DeepCopyInto L)"
  by (rule deep_copier_via [where sp = "\<lambda>s. (rsm_LastSuccessfulReplicationTime s, rsm_Conditions s)" and
        jn = "\<lambda>v t. v\<lparr>rsm_LastSuccessfulReplicationTime := fst t, rsm_Conditions := snd t\<rparr>",
      OF deep_copier_pair [OF library_copiers(4) [OF assms] copier_conditions [OF assms]]])
    (auto simp: replicaStatusVal_def replicaStatusAdr_def pairVal_def pairAdr_def copyPair_def
      LitestreamReplicaStatus_DeepCopyInto_def split: prod.splits)

lemma copier_Replica:
  assumes "library_copies L"
  shows "deep_copier replicaVal replicaAdr (LitestreamReplica_DeepCopyInto L)"
  by (rule deep_copier_via [where sp = "\<lambda>d. (dbm_ObjectMeta d, dbm_Spec d, dbm_Status d)" and
        jn = "\<lambda>v t. v\<lparr>dbm_ObjectMeta := fst t, dbm_Spec := fst (snd t), dbm_Status := snd (snd t)\<rparr>",
      OF deep_copier_pair [OF library_copiers(1) [OF assms]
        deep_copier_pair [OF copier_ReplicaSpec [OF assms] copier_ReplicaStatus [OF assms]]]])
    (auto simp: replicaVal_def replicaAdr_def pairVal_def pairAdr_def copyPair_def
      LitestreamReplica_DeepCopyInto_def split: prod.splits)

lemma copier_ReplicaList:
  assumes "library_copies L"
  shows "deep_copier replicaListVal replicaListAdr (LitestreamReplicaList_DeepCopyInto L)"
  by (rule deep_copier_via [where sp = "\<lambda>l. (dblm_ListMeta l, dblm_Items l)" and
        jn = "\<lambda>v t. v\<lparr>dblm_ListMeta := fst t, dblm_Items := snd t\<rparr>",
      OF deep_copier_pair [OF library_copiers(2) [OF assms] deep_copier_slice [OF copier_Replica [OF assms],
        of theReplicas ReplicasCell zeroReplica]]])
    (auto simp: replicaListVal_def replicaListAdr_def pairVal_def pairAdr_def copyPair_def
      LitestreamReplicaList_DeepCopyInto_def split: prod.splits)

lemma copier_RestoreSpec: "deep_copier restoreSpecVal restoreSpecAdr LitestreamRestoreSpec_DeepCopyInto"
  by (rule deep_copier_via [where sp = "\<lambda>s. (rspm_Target s, rspm_RunAsUser s, rspm_RunAsGroup s)" and
        jn = "\<lambda>v t. v\<lparr>rspm_Target := fst t, rspm_RunAsUser := fst (snd t), rspm_RunAsGroup := snd (snd t)\<rparr>",
      OF deep_copier_pair [OF copier_target deep_copier_pair [OF copier_int64 copier_int64]]])
    (auto simp: restoreSpecVal_def restoreSpecAdr_def pairVal_def pairAdr_def copyPair_def
      LitestreamRestoreSpec_DeepCopyInto_def split: prod.splits)

lemma copier_RestoreStatus:
  assumes "library_copies L"
  shows "deep_copier restoreStatusVal restoreStatusAdr (LitestreamRestoreStatus_DeepCopyInto L)"
  by (rule deep_copier_via [where sp = "\<lambda>s. (stm_OriginalReplicas s, stm_StartTime s, stm_CompletionTime s,
          stm_Conditions s)" and
        jn = "\<lambda>v t. v\<lparr>stm_OriginalReplicas := fst t, stm_StartTime := fst (snd t),
          stm_CompletionTime := fst (snd (snd t)), stm_Conditions := snd (snd (snd t))\<rparr>",
      OF deep_copier_pair [OF copier_int32 deep_copier_pair [OF library_copiers(4) [OF assms]
        deep_copier_pair [OF library_copiers(4) [OF assms] copier_conditions [OF assms]]]]])
    (auto simp: restoreStatusVal_def restoreStatusAdr_def pairVal_def pairAdr_def copyPair_def
      LitestreamRestoreStatus_DeepCopyInto_def split: prod.splits)

lemma copier_Restore:
  assumes "library_copies L"
  shows "deep_copier restoreVal restoreAdr (LitestreamRestore_DeepCopyInto L)"
  by (rule deep_copier_via [where sp = "\<lambda>r. (lrm_ObjectMeta r, lrm_Spec r, lrm_Status r)" and
        jn = "\<lambda>v t. v\<lparr>lrm_ObjectMeta := fst t, lrm_Spec := fst (snd t), lrm_Status := snd (snd t)\<rparr>",
      OF deep_copier_pair [OF library_copiers(1) [OF assms]
        deep_copier_pair [OF copier_RestoreSpec copier_RestoreStatus [OF assms]]]])
    (auto simp: restoreVal_def restoreAdr_def pairVal_def pairAdr_def copyPair_def
      LitestreamRestore_DeepCopyInto_def split: prod.splits)

lemma copier_RestoreList:
  assumes "library_copies L"
  shows "deep_copier restoreListVal restoreListAdr (LitestreamRestoreList_DeepCopyInto L)"
  by (rule deep_copier_via [where sp = "\<lambda>l. (lrlm_ListMeta l, lrlm_Items l)" and
        jn = "\<lambda>v t. v\<lparr>lrlm_ListMeta := fst t, lrlm_Items := snd t\<rparr>",
      OF deep_copier_pair [OF library_copiers(2) [OF assms] deep_copier_slice [OF copier_Restore [OF assms],
        of theRestores RestoresCell zeroRestore]]])
    (auto simp: restoreListVal_def restoreListAdr_def pairVal_def pairAdr_def copyPair_def
      LitestreamRestoreList_DeepCopyInto_def split: prod.splits)

text \<open>The functions \<open>DeepCopy\<close> of the two kinds and their lists, on pointers.\<close>

lemma copier_DeepCopy:
  assumes "library_copies L"
  shows "deep_copier (ptrVal theReplica replicaVal) (ptrAdr theReplica replicaAdr) (LitestreamReplica_DeepCopy L)"
    "deep_copier (ptrVal theReplicaList replicaListVal) (ptrAdr theReplicaList replicaListAdr)
       (LitestreamReplicaList_DeepCopy L)"
    "deep_copier (ptrVal theRestore restoreVal) (ptrAdr theRestore restoreAdr) (LitestreamRestore_DeepCopy L)"
    "deep_copier (ptrVal theRestoreList restoreListVal) (ptrAdr theRestoreList restoreListAdr)
       (LitestreamRestoreList_DeepCopy L)"
  unfolding LitestreamReplica_DeepCopy_def LitestreamReplicaList_DeepCopy_def
    LitestreamRestore_DeepCopy_def LitestreamRestoreList_DeepCopy_def
  using copier_Replica [OF assms] copier_ReplicaList [OF assms] copier_Restore [OF assms]
    copier_RestoreList [OF assms]
  by (auto intro!: deep_copier_pointer)

text \<open>The parts of the two kinds: structs without pointers first.\<close>

lemma copier_flat_parts:
  "deep_copier flatVal noAdr S3Destination_DeepCopyInto" "deep_copier flatVal noAdr RetentionPolicy_DeepCopyInto"
  "deep_copier flatVal noAdr RecoverySpec_DeepCopyInto" "deep_copier flatVal noAdr BootstrapSpec_DeepCopyInto"
  "deep_copier flatVal noAdr HealthSpec_DeepCopyInto" "deep_copier flatVal noAdr RestoreSourceRef_DeepCopyInto"
  "deep_copier flatVal noAdr RestoreTarget_DeepCopyInto"
  by (simp_all add: deep_copier_flat deep_copier_def local_flat deep_copies_def copied_def flatVal_def noAdr_def
      S3Destination_DeepCopyInto_def RetentionPolicy_DeepCopyInto_def RecoverySpec_DeepCopyInto_def
      BootstrapSpec_DeepCopyInto_def HealthSpec_DeepCopyInto_def RestoreSourceRef_DeepCopyInto_def
      RestoreTarget_DeepCopyInto_def)

lemma copier_DeepCopy_parts:
  assumes "library_copies L"
  shows "deep_copier (ptrVal theS3 flatVal) (ptrAdr theS3 noAdr) S3Destination_DeepCopy"
    "deep_copier (ptrVal theRetention flatVal) (ptrAdr theRetention noAdr) RetentionPolicy_DeepCopy"
    "deep_copier (ptrVal theRecovery flatVal) (ptrAdr theRecovery noAdr) RecoverySpec_DeepCopy"
    "deep_copier (ptrVal theBootstrap flatVal) (ptrAdr theBootstrap noAdr) BootstrapSpec_DeepCopy"
    "deep_copier (ptrVal theHealth flatVal) (ptrAdr theHealth noAdr) HealthSpec_DeepCopy"
    "deep_copier (ptrVal theSourceRef flatVal) (ptrAdr theSourceRef noAdr) RestoreSourceRef_DeepCopy"
    "deep_copier (ptrVal theTarget flatVal) (ptrAdr theTarget noAdr) RestoreTarget_DeepCopy"
    "deep_copier (ptrVal theBackupDestination backupDestinationVal)
       (ptrAdr theBackupDestination backupDestinationAdr) BackupDestination_DeepCopy"
    "deep_copier (ptrVal theBackupSpec backupSpecVal) (ptrAdr theBackupSpec backupSpecAdr) (BackupSpec_DeepCopy L)"
    "deep_copier (ptrVal theReplicaSpec replicaSpecVal) (ptrAdr theReplicaSpec replicaSpecAdr)
       (LitestreamReplicaSpec_DeepCopy L)"
    "deep_copier (ptrVal theReplicaStatus replicaStatusVal) (ptrAdr theReplicaStatus replicaStatusAdr)
       (LitestreamReplicaStatus_DeepCopy L)"
    "deep_copier (ptrVal theRestoreSpec restoreSpecVal) (ptrAdr theRestoreSpec restoreSpecAdr)
       LitestreamRestoreSpec_DeepCopy"
    "deep_copier (ptrVal theRestoreStatus restoreStatusVal) (ptrAdr theRestoreStatus restoreStatusAdr)
       (LitestreamRestoreStatus_DeepCopy L)"
  unfolding S3Destination_DeepCopy_def RetentionPolicy_DeepCopy_def RecoverySpec_DeepCopy_def
    BootstrapSpec_DeepCopy_def HealthSpec_DeepCopy_def RestoreSourceRef_DeepCopy_def
    RestoreTarget_DeepCopy_def BackupDestination_DeepCopy_def BackupSpec_DeepCopy_def
    LitestreamReplicaSpec_DeepCopy_def LitestreamReplicaStatus_DeepCopy_def
    LitestreamRestoreSpec_DeepCopy_def LitestreamRestoreStatus_DeepCopy_def
  using copier_flat_parts copier_BackupDestination copier_BackupSpec [OF assms] copier_ReplicaSpec [OF assms]
    copier_ReplicaStatus [OF assms] copier_RestoreSpec copier_RestoreStatus [OF assms]
  by (auto intro!: deep_copier_pointer)

lemma copyPointer_nil: "run_state (copyPointer mk un zero into p) h = (q, h') \<Longrightarrow> q = None \<longleftrightarrow> p = None"
  by (auto simp: copyPointer_def split: option.splits prod.splits)

text \<open>The types whose copy calls no library function are deep copiers as they stand.\<close>

interpretation backup_destination: deep_copier backupDestinationVal backupDestinationAdr
    BackupDestination_DeepCopyInto
  by (rule copier_BackupDestination)

interpretation restore_spec: deep_copier restoreSpecVal restoreSpecAdr LitestreamRestoreSpec_DeepCopyInto
  by (rule copier_RestoreSpec)

section \<open>A library\<close>

text \<open>Copies of the library's structs that do what its documentation says.\<close>

definition goLibrary :: library where
  "goLibrary = \<lparr>
     lib_ObjectMeta = (\<lambda>m. do {
       labels \<leftarrow> copyPointer MapCell theMap Map.empty ret (omm_Labels m);
       annotations \<leftarrow> copyPointer MapCell theMap Map.empty ret (omm_Annotations m);
       finalizers \<leftarrow> copySlice StringsCell theStrings [] ret (omm_Finalizers m);
       deletion \<leftarrow> copyPointer TimeCell theTime 0 ret (omm_DeletionTimestamp m);
       owners \<leftarrow> copySlice StringsCell theStrings [] ret (omm_OwnerReferences m);
       ret (m\<lparr>omm_Labels := labels, omm_Annotations := annotations, omm_Finalizers := finalizers,
         omm_DeletionTimestamp := deletion, omm_OwnerReferences := owners\<rparr>)
     }),
     lib_ListMeta = (\<lambda>m. do {
       remaining \<leftarrow> copyPointer Int64Cell theInt64 0 ret (lmm_RemainingItemCount m);
       ret (m\<lparr>lmm_RemainingItemCount := remaining\<rparr>)
     }),
     lib_Resources = (\<lambda>r. do {
       limits \<leftarrow> copyPointer MapCell theMap Map.empty ret (rrm_Limits r);
       requests \<leftarrow> copyPointer MapCell theMap Map.empty ret (rrm_Requests r);
       ret (r\<lparr>rrm_Limits := limits, rrm_Requests := requests\<rparr>)
     }),
     lib_Time = copyPointer TimeCell theTime 0 ret,
     lib_Condition = ret\<rparr>"

lemma copier_map: "deep_copier mapOf mapAdr (copyPointer MapCell theMap Map.empty ret)"
  unfolding mapAdr_def
  by (rule deep_copier_via [where sp = id and jn = "\<lambda>v t. t",
      OF deep_copier_pointer [OF deep_copier_flat, of theMap MapCell Map.empty]])
    (auto simp: mapOf_def split: prod.splits)

lemma goLibrary_copies: "library_copies goLibrary"
proof -
  note strings = deep_copier_slice [OF deep_copier_flat, of theStrings StringsCell "[]"]
  note time = deep_copier_pointer [OF deep_copier_flat, of theTime TimeCell 0]
  have "deep_copier objectMetaVal objectMetaAdr (lib_ObjectMeta goLibrary)"
    by (rule deep_copier_via [where sp = "\<lambda>m. (omm_Labels m, omm_Annotations m, omm_Finalizers m,
          omm_DeletionTimestamp m, omm_OwnerReferences m)" and
          jn = "\<lambda>v t. v\<lparr>omm_Labels := fst t, omm_Annotations := fst (snd t), omm_Finalizers := fst (snd (snd t)),
            omm_DeletionTimestamp := fst (snd (snd (snd t))), omm_OwnerReferences := snd (snd (snd (snd t)))\<rparr>",
        OF deep_copier_pair [OF copier_map deep_copier_pair [OF copier_map
          deep_copier_pair [OF strings deep_copier_pair [OF time strings]]]]])
      (auto simp: goLibrary_def objectMetaVal_def objectMetaAdr_def pairVal_def pairAdr_def copyPair_def
        split: prod.splits)
  moreover have "deep_copier listMetaVal listMetaAdr (lib_ListMeta goLibrary)"
    by (rule deep_copier_via [where sp = lmm_RemainingItemCount and
          jn = "\<lambda>v t. v\<lparr>lmm_RemainingItemCount := t\<rparr>", OF copier_int64])
      (auto simp: goLibrary_def listMetaVal_def listMetaAdr_def split: prod.splits)
  moreover have "deep_copier resourcesVal resourcesAdr (lib_Resources goLibrary)"
    by (rule deep_copier_via [where sp = "\<lambda>r. (rrm_Limits r, rrm_Requests r)" and
          jn = "\<lambda>v t. v\<lparr>rrm_Limits := fst t, rrm_Requests := snd t\<rparr>",
        OF deep_copier_pair [OF copier_map copier_map]])
      (auto simp: goLibrary_def resourcesVal_def resourcesAdr_def pairVal_def pairAdr_def copyPair_def
        split: prod.splits)
  moreover have "deep_copier (ptrVal theTime flatVal) (ptrAdr theTime noAdr) (lib_Time goLibrary)"
    using time by (simp add: goLibrary_def)
  moreover have "deep_copier flatVal noAdr (lib_Condition goLibrary)"
    using deep_copier_flat by (simp add: goLibrary_def)
  ultimately show ?thesis
    by (simp add: library_copies_def deep_copier_def)
qed

text \<open>What an object denotes depends on the cells it reaches only.\<close>

lemma local_replica: "local_value replicaVal replicaAdr"
  using copier_Replica [OF goLibrary_copies] by (simp add: deep_copier_def)

lemma local_restore: "local_value restoreVal restoreAdr"
  using copier_Restore [OF goLibrary_copies] by (simp add: deep_copier_def)

lemma local_parts:
  "local_value replicaSpecVal replicaSpecAdr" "local_value replicaStatusVal replicaStatusAdr"
  using copier_ReplicaSpec [OF goLibrary_copies] copier_ReplicaStatus [OF goLibrary_copies]
  by (simp_all add: deep_copier_def)

section \<open>Properties\<close>

text \<open>A restore in memory (two conditions in an array of three, a shared time, a map and a claim), a
  list of two replicas and a replica with annotations.\<close>

definition sampleMemory :: memory where
  "sampleMemory = \<lparr>cells = (\<lambda>a. [
     RestoreCell \<lparr>lrm_TypeMeta = \<lparr>tm_Kind = ''LitestreamRestore'', tm_APIVersion = ''litestream.io/v1''\<rparr>,
       lrm_ObjectMeta = zeroObjectMeta\<lparr>omm_Name := ''back'', omm_Annotations := Some 1\<rparr>,
       lrm_Spec = zeroRestoreSpec\<lparr>rspm_Target := Some 2\<rparr>,
       lrm_Status = zeroRestoreStatus\<lparr>stm_Phase := RestorePhaseRestoring, stm_StartTime := Some 3,
         stm_CompletionTime := Some 3, stm_OriginalReplicas := Some 5,
         stm_Conditions := Some \<lparr>sl_Array = 4, sl_Offset = 1, sl_Len = 2\<rparr>\<rparr>\<rparr>,
     MapCell [''owner'' \<mapsto> ''ops''], TargetCell \<lparr>rt_PVC = ''claim'', rt_Path = ''/data/app.db''\<rparr>,
     TimeCell 7,
     ConditionsCell [zeroCondition, zeroCondition\<lparr>cd_Type := RestoreConditionLocked\<rparr>,
       zeroCondition\<lparr>cd_Type := RestoreConditionApplicationFenced\<rparr>],
     Int32Cell 3,
     ReplicaListCell (zeroReplicaList\<lparr>dblm_Items := Some \<lparr>sl_Array = 7, sl_Offset = 0, sl_Len = 2\<rparr>\<rparr>),
     ReplicasCell [zeroReplica\<lparr>dbm_ObjectMeta := zeroObjectMeta\<lparr>omm_Name := ''db''\<rparr>\<rparr>,
       zeroReplica\<lparr>dbm_Status := zeroReplicaStatus\<lparr>rsm_LastSuccessfulReplicationTime := Some 3\<rparr>\<rparr>],
     ReplicaCell (zeroReplica\<lparr>dbm_ObjectMeta := zeroObjectMeta\<lparr>omm_Name := ''db'', omm_Annotations := Some 9\<rparr>\<rparr>),
     MapCell [''owner'' \<mapsto> ''ops'']
     ] ! a), lim = 10\<rparr>"

lemma sample_restore_allocated: "allocated (ptrAdr theRestore restoreAdr) sampleMemory (Some 0)"
  by (simp add: allocated_def sampleMemory_def ptrAdr_def restoreAdr_def objectMetaAdr_def mapAdr_def
      sliceAdr_def restoreSpecAdr_def restoreStatusAdr_def noAdr_def zeroObjectMeta_def zeroRestoreSpec_def
      zeroRestoreStatus_def)

lemma sample_list_allocated: "allocated (ptrAdr theReplicaList replicaListAdr) sampleMemory (Some 6)"
  by (simp add: allocated_def sampleMemory_def ptrAdr_def replicaListAdr_def listMetaAdr_def sliceAdr_def
      elemAt_def replicaAdr_def objectMetaAdr_def mapAdr_def replicaSpecAdr_def backupSpecAdr_def
      backupDestinationAdr_def replicaStatusAdr_def noAdr_def zeroReplicaList_def zeroListMeta_def
      zeroReplica_def zeroObjectMeta_def zeroReplicaSpec_def zeroBackupSpec_def zeroBackupDestination_def
      zeroReplicaStatus_def lessThan_nat_numeral lessThan_Suc)

text \<open>C28. \<open>DeepCopy\<close> of a LitestreamRestore is deep. A nil pointer gives nil; otherwise the result is a
  pointer to an equal object, no allocated cell is changed, and the two objects share no cell. From
  then on neither sees the other: whatever happens to the cells that existed before the copy (or to
  cells allocated later), the copy denotes the original value, and whatever happens to the cells of
  the copy, the original keeps its value. The copies of the library's structs are assumed to be deep.\<close>

theorem restore_copy_isolated:
  assumes "library_copies L" and "allocated (ptrAdr theRestore restoreAdr) h p"
    and "run_state (LitestreamRestore_DeepCopy L p) h = (q, h')"
  shows "(q = None \<longleftrightarrow> p = None) \<and> agree {..<lim h} h h' \<and>
    ptrVal theRestore restoreVal h' q = ptrVal theRestore restoreVal h p \<and>
    ptrAdr theRestore restoreAdr h' p \<inter> ptrAdr theRestore restoreAdr h' q = {} \<and>
    (\<forall>h''. agree {lim h..<lim h'} h' h'' \<longrightarrow>
       ptrVal theRestore restoreVal h'' q = ptrVal theRestore restoreVal h p) \<and>
    (\<forall>h''. agree {..<lim h} h' h'' \<longrightarrow>
       ptrVal theRestore restoreVal h'' p = ptrVal theRestore restoreVal h p)"
proof -
  note laws = copier_DeepCopy(3) [OF assms(1)] assms(2,3)
  have "q = None \<longleftrightarrow> p = None"
    using assms(3) unfolding LitestreamRestore_DeepCopy_def by (rule copyPointer_nil)
  then show ?thesis
    by (intro conjI allI impI deep_copier.unchanged(2) [OF laws] deep_copier.same_value [OF laws]
        deep_copier.nothing_shared [OF laws] deep_copier.copy_isolated [OF laws]
        deep_copier.original_isolated [OF laws])
qed

lemma restore_copy_isolated_witness:
  "\<exists>q h'. run_state (LitestreamRestore_DeepCopy goLibrary (Some 0)) sampleMemory = (Some q, h') \<and>
     ptrVal theRestore restoreVal (poke 4 (ConditionsCell []) h') (Some q) =
       ptrVal theRestore restoreVal sampleMemory (Some 0)"
proof -
  obtain q h' where run: "run_state (LitestreamRestore_DeepCopy goLibrary (Some 0)) sampleMemory = (q, h')"
    by fastforce
  note all = restore_copy_isolated [OF goLibrary_copies sample_restore_allocated run]
  then obtain q' where q: "q = Some q'"
    by auto
  have "agree {lim sampleMemory..<lim h'} h' (poke 4 (ConditionsCell []) h')"
    by (simp add: agree_def sampleMemory_def)
  then show ?thesis
    using all run q by auto
qed

text \<open>C29. \<open>DeepCopyObject\<close> of a LitestreamReplicaList: a nil pointer gives a nil interface, never a
  typed nil pointer; any other gives a pointer to a fresh list with the same type, the same metadata
  and, in the same order, the same items, nil slices and empty ones kept apart; its cells are all
  fresh, so neither the list nor any of its items shares memory with the original.\<close>

theorem replica_list_object_copied:
  assumes "library_copies L" and "allocated (ptrAdr theReplicaList replicaListAdr) h p"
    and "run_state (LitestreamReplicaList_DeepCopyObject L p) h = (object, h')"
  shows "case p of None \<Rightarrow> object = None \<and> h' = h
    | Some l \<Rightarrow> \<exists>q. object = Some (ReplicaListPtr (Some q)) \<and> lim h \<le> q \<and>
        replicaListVal h' (theReplicaList (cells h' q)) = replicaListVal h (theReplicaList (cells h l)) \<and>
        replicaListAdr h' (theReplicaList (cells h' q)) \<subseteq> {lim h..<lim h'} \<and>
        agree {..<lim h} h h'"
proof -
  obtain q h1 where run: "run_state (LitestreamReplicaList_DeepCopy L p) h = (q, h1)" by fastforce
  note laws = copier_DeepCopy(2) [OF assms(1)] assms(2) run
  note D = deep_copier.unchanged(2) [OF laws] deep_copier.same_value [OF laws] deep_copier.fresh [OF laws]
  have out: "h' = h1" "object = (if q = None then None else Some (ReplicaListPtr q))"
    using assms(3) run by (auto simp: LitestreamReplicaList_DeepCopyObject_def split: if_splits)
  have nil: "q = None \<longleftrightarrow> p = None"
    using run unfolding LitestreamReplicaList_DeepCopy_def by (rule copyPointer_nil)
  show ?thesis
  proof (cases p)
    case None
    then show ?thesis
      using run nil out by (simp add: LitestreamReplicaList_DeepCopy_def copyPointer_def)
  next
    case (Some l)
    then obtain q' where "q = Some q'" using nil by auto
    then show ?thesis
      using Some out D by (simp add: ptrVal_def ptrAdr_def)
  qed
qed

lemma replica_list_object_copied_witness:
  "\<exists>q h'. run_state (LitestreamReplicaList_DeepCopyObject goLibrary (Some 6)) sampleMemory =
       (Some (ReplicaListPtr (Some q)), h') \<and>
     replicaListVal h' (theReplicaList (cells h' q)) =
       replicaListVal sampleMemory (theReplicaList (cells sampleMemory 6))"
proof -
  obtain obj h' where run: "run_state (LitestreamReplicaList_DeepCopyObject goLibrary (Some 6)) sampleMemory = (obj, h')"
    by fastforce
  from replica_list_object_copied [OF goLibrary_copies sample_list_allocated run] run
  show ?thesis by auto
qed

end
