(* ===== verification/Patch_Bases.thy ===== *)
theory Patch_Bases
  imports Deep_Copy_Props Restore_Controller
begin

text \<open>
  The controllers send merge patches: \<open>client.MergeFrom(obj.DeepCopy())\<close> keeps a copy as the base,
  then the code changes \<open>obj\<close> in place, through pointers and in its maps, and \<open>Patch\<close> sends the
  difference. The models of the handlers compute with values: the base is the old record, the object
  the updated one. Here the in-place code of \<open>setStatus\<close>, \<open>pauseReplication\<close> and
  \<open>resumeReplication\<close> is run on memory, and the records of the models are shown to be what base and
  object denote when the patch is sent.
\<close>

section \<open>The in-place code\<close>

definition replicaAt :: "memory \<Rightarrow> addr \<Rightarrow> litestreamReplica" where
  "replicaAt h a = snd (replicaVal h (theReplica (cells h a)))"

definition restoreAt :: "memory \<Rightarrow> addr \<Rightarrow> litestreamRestore" where
  "restoreAt h a = snd (restoreVal h (theRestore (cells h a)))"

definition changeStatus ::
    "addr \<Rightarrow> (litestreamRestoreStatusM \<Rightarrow> litestreamRestoreStatusM) \<Rightarrow> (cell, unit) mem" where
  "changeStatus a f = do {
     v \<leftarrow> loadCell theRestore a;
     storeCell a (RestoreCell (v\<lparr>lrm_Status := f (lrm_Status v)\<rparr>))
   }"

text \<open>\<open>setStatus\<close> up to the call of \<open>Patch\<close>; the result is the base.\<close>

definition setStatusInPlace :: "library \<Rightarrow> addr \<Rightarrow> string \<Rightarrow> string \<Rightarrow> string \<Rightarrow> addr option \<Rightarrow> addr option \<Rightarrow>
    addr option \<Rightarrow> (cell, addr option) mem" where
  "setStatusInPlace L restore phase jobName message originalReplicas startTime completionTime = do {
     base \<leftarrow> LitestreamRestore_DeepCopy L (Some restore);
     _ \<leftarrow> changeStatus restore (\<lambda>st. st\<lparr>stm_Phase := phase\<rparr>);
     _ \<leftarrow> (if jobName \<noteq> [] then changeStatus restore (\<lambda>st. st\<lparr>stm_JobName := jobName\<rparr>) else ret ());
     _ \<leftarrow> changeStatus restore (\<lambda>st. st\<lparr>stm_Message := message\<rparr>);
     v \<leftarrow> loadCell theRestore restore;
     _ \<leftarrow> (if originalReplicas \<noteq> None \<and> stm_OriginalReplicas (lrm_Status v) = None
           then changeStatus restore (\<lambda>st. st\<lparr>stm_OriginalReplicas := originalReplicas\<rparr>) else ret ());
     v \<leftarrow> loadCell theRestore restore;
     _ \<leftarrow> (if startTime \<noteq> None \<and> stm_StartTime (lrm_Status v) = None
           then changeStatus restore (\<lambda>st. st\<lparr>stm_StartTime := startTime\<rparr>) else ret ());
     _ \<leftarrow> (if completionTime \<noteq> None
           then changeStatus restore (\<lambda>st. st\<lparr>stm_CompletionTime := completionTime\<rparr>) else ret ());
     ret base
   }"

text \<open>\<open>pauseReplication\<close> and \<open>resumeReplication\<close> between their tests and \<open>Patch\<close>: the entry is
  written to the map that the object points to, a nil map is made first; \<open>delete\<close> on a nil map does
  nothing.\<close>

definition pauseInPlace :: "library \<Rightarrow> addr \<Rightarrow> (cell, addr option) mem" where
  "pauseInPlace L db = do {
     base \<leftarrow> LitestreamReplica_DeepCopy L (Some db);
     v \<leftarrow> loadCell theReplica db;
     annotations \<leftarrow> (case omm_Annotations (dbm_ObjectMeta v) of
         Some m \<Rightarrow> ret m
       | None \<Rightarrow> do {
           m \<leftarrow> newCell (MapCell Map.empty);
           _ \<leftarrow> storeCell db (ReplicaCell (v\<lparr>dbm_ObjectMeta := (dbm_ObjectMeta v)\<lparr>omm_Annotations := Some m\<rparr>\<rparr>));
           ret m
         });
     entries \<leftarrow> loadCell theMap annotations;
     _ \<leftarrow> storeCell annotations (MapCell (entries(pauseAnnotation \<mapsto> injectEnabled)));
     ret base
   }"

definition resumeInPlace :: "library \<Rightarrow> addr \<Rightarrow> (cell, addr option) mem" where
  "resumeInPlace L latest = do {
     base \<leftarrow> LitestreamReplica_DeepCopy L (Some latest);
     v \<leftarrow> loadCell theReplica latest;
     _ \<leftarrow> (case omm_Annotations (dbm_ObjectMeta v) of
         None \<Rightarrow> ret ()
       | Some m \<Rightarrow> do {
           entries \<leftarrow> loadCell theMap m;
           storeCell m (MapCell (entries(pauseAnnotation := None)))
         });
     ret base
   }"

section \<open>Objects in memory\<close>

text \<open>An object at an address: allocated with all it reaches, and its own struct is none of that.\<close>

definition holdsRestore :: "memory \<Rightarrow> addr \<Rightarrow> bool" where
  "holdsRestore h a \<longleftrightarrow> allocated (ptrAdr theRestore restoreAdr) h (Some a) \<and>
     a \<notin> restoreAdr h (theRestore (cells h a))"

text \<open>For a replica whose annotations are written: no other field uses their map.\<close>

definition holdsReplica :: "memory \<Rightarrow> addr \<Rightarrow> bool" where
  "holdsReplica h a \<longleftrightarrow> (let v = theReplica (cells h a); m = dbm_ObjectMeta v in
     allocated (ptrAdr theReplica replicaAdr) h (Some a) \<and> a \<notin> replicaAdr h v \<and>
     mapAdr h (omm_Annotations m) \<inter>
       (objectMetaAdr h (m\<lparr>omm_Annotations := None\<rparr>) \<union> replicaSpecAdr h (dbm_Spec v) \<union>
        replicaStatusAdr h (dbm_Status v)) = {})"

definition pointsElsewhere :: "memory \<Rightarrow> addr \<Rightarrow> addr option \<Rightarrow> bool" where
  "pointsElsewhere h a p \<longleftrightarrow> (case p of None \<Rightarrow> True | Some b \<Rightarrow> b < lim h \<and> b \<noteq> a)"

lemma poke_poke [simp]: "poke a c (poke a c' h) = poke a c h"
  by (simp add: poke_def)

lemma run_changeStatus [simp]:
  "run_state (changeStatus a f) h =
     ((), poke a (RestoreCell ((theRestore (cells h a))\<lparr>lrm_Status := f (lrm_Status (theRestore (cells h a)))\<rparr>)) h)"
  by (simp add: changeStatus_def)

text \<open>Taking the base changes nothing, and writes to old or later cells leave it alone.\<close>

lemma restore_base:
  assumes "library_copies L" "holdsRestore h a" "run_state (LitestreamRestore_DeepCopy L (Some a)) h = (base, h1)"
  obtains b where "base = Some b" "extends h h1" "agree (insert a (restoreAdr h (theRestore (cells h a)))) h h1"
    "\<And>h'. agree {lim h..<lim h1} h1 h' \<Longrightarrow> restoreAt h' b = restoreAt h a"
proof -
  have al: "allocated (ptrAdr theRestore restoreAdr) h (Some a)"
    using assms(2) by (simp add: holdsRestore_def)
  note laws = copier_DeepCopy(3) [OF assms(1)] al assms(3)
  obtain b where b: "base = Some b"
    using copyPointer_nil [OF assms(3) [unfolded LitestreamRestore_DeepCopy_def]] by auto
  show ?thesis
  proof (rule that [OF b deep_copier.unchanged(1) [OF laws]])
    show "agree (insert a (restoreAdr h (theRestore (cells h a)))) h h1"
      by (rule agree_extends [OF deep_copier.unchanged(1) [OF laws]]) (use al in \<open>simp add: allocated_def ptrAdr_def\<close>)
    show "restoreAt h' b = restoreAt h a" if "agree {lim h..<lim h1} h1 h'" for h'
      using deep_copier.copy_isolated [OF laws that] b by (simp add: ptrVal_def restoreAt_def)
  qed
qed

lemma replica_base:
  assumes "library_copies L" "holdsReplica h a" "run_state (LitestreamReplica_DeepCopy L (Some a)) h = (base, h1)"
  obtains b where "base = Some b" "extends h h1" "agree (insert a (replicaAdr h (theReplica (cells h a)))) h h1"
    "\<And>h'. agree {lim h..<lim h1} h1 h' \<Longrightarrow> replicaAt h' b = replicaAt h a"
proof -
  have al: "allocated (ptrAdr theReplica replicaAdr) h (Some a)"
    using assms(2) by (simp add: holdsReplica_def Let_def)
  note laws = copier_DeepCopy(1) [OF assms(1)] al assms(3)
  obtain b where b: "base = Some b"
    using copyPointer_nil [OF assms(3) [unfolded LitestreamReplica_DeepCopy_def]] by auto
  show ?thesis
  proof (rule that [OF b deep_copier.unchanged(1) [OF laws]])
    show "agree (insert a (replicaAdr h (theReplica (cells h a)))) h h1"
      by (rule agree_extends [OF deep_copier.unchanged(1) [OF laws]]) (use al in \<open>simp add: allocated_def ptrAdr_def\<close>)
    show "replicaAt h' b = replicaAt h a" if "agree {lim h..<lim h1} h1 h'" for h'
      using deep_copier.copy_isolated [OF laws that] b by (simp add: ptrVal_def replicaAt_def)
  qed
qed

section \<open>Refinement of the models of the handlers\<close>

lemma ptrVal_None [simp]: "ptrVal un val h p = None \<longleftrightarrow> p = None"
  by (simp add: ptrVal_def)

text \<open>Changing the struct behind the pointer changes the status of the value and nothing else.\<close>

lemma restoreAt_poke:
  assumes "agree (restoreAdr h v) h h'" "cells h' a = RestoreCell (v\<lparr>lrm_Status := st\<rparr>)"
  shows "restoreAt h' a = (snd (restoreVal h v))\<lparr>lr_Status := restoreStatusVal h' st\<rparr>"
proof -
  have "restoreVal h' v = restoreVal h v"
    by (rule local_valueD(1) [OF local_restore assms(1)])
  then show ?thesis
    using assms(2) by (simp add: restoreAt_def restoreVal_def)
qed

text \<open>The status that \<open>setStatus\<close> leaves in memory.\<close>

definition newStatusM :: "string \<Rightarrow> string \<Rightarrow> string \<Rightarrow> addr option \<Rightarrow> addr option \<Rightarrow> addr option \<Rightarrow>
    litestreamRestoreStatusM \<Rightarrow> litestreamRestoreStatusM" where
  "newStatusM phase jobName message originalReplicas startTime completionTime st =
     st\<lparr>stm_Phase := phase, stm_JobName := (if jobName \<noteq> [] then jobName else stm_JobName st),
        stm_Message := message,
        stm_OriginalReplicas := (if stm_OriginalReplicas st = None then originalReplicas else stm_OriginalReplicas st),
        stm_StartTime := (if stm_StartTime st = None then startTime else stm_StartTime st),
        stm_CompletionTime := (if completionTime \<noteq> None then completionTime else stm_CompletionTime st)\<rparr>"

lemma run_guarded:
  assumes "cells h a = RestoreCell v"
  shows "run_state (if c then changeStatus a f else ret ()) h =
    ((), poke a (RestoreCell (v\<lparr>lrm_Status := if c then f (lrm_Status v) else lrm_Status v\<rparr>)) h)"
  using assms by (cases h) (auto simp: poke_def fun_upd_idem)

lemma newStatusM_steps:
  "(let st = st\<lparr>stm_Phase := phase\<rparr>;
        st = (if job \<noteq> [] then st\<lparr>stm_JobName := job\<rparr> else st);
        st = st\<lparr>stm_Message := msg\<rparr>;
        st = (if orig \<noteq> None \<and> stm_OriginalReplicas st = None then st\<lparr>stm_OriginalReplicas := orig\<rparr> else st);
        st = (if begun \<noteq> None \<and> stm_StartTime st = None then st\<lparr>stm_StartTime := begun\<rparr> else st)
    in (if ended \<noteq> None then st\<lparr>stm_CompletionTime := ended\<rparr> else st)) =
   newStatusM phase job msg orig begun ended st"
  by (cases st) (auto simp: newStatusM_def Let_def)

lemma setStatusInPlace_run:
  assumes "run_state (LitestreamRestore_DeepCopy L (Some a)) h = (base, h1)"
  shows "run_state (setStatusInPlace L a phase job msg orig begun ended) h =
    (base, poke a (RestoreCell ((theRestore (cells h1 a))\<lparr>lrm_Status :=
       newStatusM phase job msg orig begun ended (lrm_Status (theRestore (cells h1 a)))\<rparr>)) h1)"
  unfolding newStatusM_steps [symmetric]
  by (simp add: setStatusInPlace_def assms run_guarded Let_def split del: if_split cong: if_cong)

lemma withStatus_fields:
  "lr_Status (withStatus phase job msg orig begun ended restore) = (let st = lr_Status restore in
     st\<lparr>st_Phase := phase, st_JobName := (if job \<noteq> [] then job else st_JobName st), st_Message := msg,
        st_OriginalReplicas := (if st_OriginalReplicas st = None then orig else st_OriginalReplicas st),
        st_StartTime := (if st_StartTime st = None then begun else st_StartTime st),
        st_CompletionTime := (if ended \<noteq> None then ended else st_CompletionTime st)\<rparr>)"
  by (cases "lr_Status restore") (auto simp: withStatus_def Let_def)

lemma newStatus_value:
  "restoreStatusVal h (newStatusM phase job msg orig begun ended (lrm_Status v)) =
    lr_Status (withStatus phase job msg (ptrVal theInt32 flatVal h orig) (ptrVal theTime flatVal h begun)
      (ptrVal theTime flatVal h ended) (snd (restoreVal h v)))"
  by (simp add: withStatus_fields newStatusM_def Let_def restoreStatusVal_def restoreVal_def)

text \<open>C27. The in-place code of \<open>setStatus\<close> refines its model: after \<open>MergeFrom(restore.DeepCopy())\<close> and
  the assignments through the pointer, the base denotes the restore as it was and the object denotes
  \<open>withStatus\<close> of it, with the values behind the three pointers that the caller passes. These
  pointers may be fields of the same restore, as in \<open>failRestoreWithCleanup\<close>, or one shared cell, as
  in \<open>failRestore\<close>.\<close>

theorem setStatus_in_place:
  assumes "library_copies L" and "holdsRestore h a"
    and "pointsElsewhere h a orig" and "pointsElsewhere h a begun" and "pointsElsewhere h a ended"
    and "run_state (setStatusInPlace L a phase job msg orig begun ended) h = (base, h')"
  shows "\<exists>b. base = Some b \<and> restoreAt h' b = restoreAt h a \<and>
    restoreAt h' a = withStatus phase job msg (ptrVal theInt32 flatVal h orig)
      (ptrVal theTime flatVal h begun) (ptrVal theTime flatVal h ended) (restoreAt h a)"
proof -
  obtain base' h1 where copy: "run_state (LitestreamRestore_DeepCopy L (Some a)) h = (base', h1)" by fastforce
  then obtain b where b: "base' = Some b" and ex: "extends h h1"
    and ag: "agree (insert a (restoreAdr h (theRestore (cells h a)))) h h1"
    and old: "\<And>h'. agree {lim h..<lim h1} h1 h' \<Longrightarrow> restoreAt h' b = restoreAt h a"
    using restore_base [OF assms(1,2)] by metis
  let ?v = "theRestore (cells h a)"
  let ?st = "newStatusM phase job msg orig begun ended (lrm_Status ?v)"
  have out: "base = Some b" "h' = poke a (RestoreCell (?v\<lparr>lrm_Status := ?st\<rparr>)) h1"
    using setStatusInPlace_run [OF copy] assms(6) b ag by auto
  have a: "a < lim h" "a \<notin> restoreAdr h ?v"
    using assms(2) by (auto simp: holdsRestore_def allocated_def ptrAdr_def)
  have ag': "agree (restoreAdr h ?v) h h'"
    using ag a(2) out(2) by (auto simp: agree_def)
  have ptr: "ptrVal un flatVal h' p = ptrVal un flatVal h p" if "pointsElsewhere h a p" for un :: "cell \<Rightarrow> 'x" and p
    using that extendsD [OF ex] out(2)
    by (auto simp: pointsElsewhere_def ptrVal_def flatVal_def split: option.splits)
  have val: "snd (restoreVal h' ?v) = restoreAt h a"
    using local_valueD(1) [OF local_restore ag'] by (simp add: restoreAt_def)
  have "restoreAt h' b = restoreAt h a"
    by (rule old) (use a out(2) in \<open>auto simp: agree_def\<close>)
  moreover have "restoreAt h' a = (restoreAt h a)\<lparr>lr_Status := restoreStatusVal h' ?st\<rparr>"
    using restoreAt_poke [OF ag', of a ?st] out(2) by (simp add: restoreAt_def)
  moreover have "restoreStatusVal h' ?st = lr_Status (withStatus phase job msg (ptrVal theInt32 flatVal h orig)
      (ptrVal theTime flatVal h begun) (ptrVal theTime flatVal h ended) (restoreAt h a))"
    unfolding newStatus_value val by (simp only: ptr assms(3-5))
  ultimately show ?thesis
    using out(1) by (simp add: withStatus_def Let_def)
qed

text \<open>An object whose annotations are replaced by the map behind \<open>p\<close>.\<close>

lemma replicaAt_annotations:
  assumes v: "theReplica (cells h' a) = v\<lparr>dbm_ObjectMeta := (dbm_ObjectMeta v)\<lparr>omm_Annotations := p\<rparr>\<rparr>"
    and ag: "agree (objectMetaAdr h ((dbm_ObjectMeta v)\<lparr>omm_Annotations := None\<rparr>) \<union>
      replicaSpecAdr h (dbm_Spec v) \<union> replicaStatusAdr h (dbm_Status v)) h h'"
  shows "replicaAt h' a = (let db = snd (replicaVal h v) in
    db\<lparr>db_Meta := (db_Meta db)\<lparr>om_Annotations := mapOf h' p\<rparr>\<rparr>)"
proof -
  let ?m = "(dbm_ObjectMeta v)\<lparr>omm_Annotations := None\<rparr>"
  have "objectMetaVal h' ?m = objectMetaVal h ?m"
    "replicaSpecVal h' (dbm_Spec v) = replicaSpecVal h (dbm_Spec v)"
    "replicaStatusVal h' (dbm_Status v) = replicaStatusVal h (dbm_Status v)"
    using ag by (auto intro: local_valueD(1) [OF local_objectMeta] local_valueD(1) [OF local_parts(1)]
        local_valueD(1) [OF local_parts(2)])
  then show ?thesis
    by (simp add: replicaAt_def replicaVal_def v Let_def objectMetaVal_def)
qed

text \<open>What a changed object looks like after a base was taken: its cells apart from its own struct and
  the map of its annotations, and the cells of the base, are as they were.\<close>

lemma annotations_changed:
  assumes "holdsReplica h a" "extends h h1" "agree (insert a (replicaAdr h (theReplica (cells h a)))) h h1"
    and v: "theReplica (cells h' a) = (theReplica (cells h a))\<lparr>dbm_ObjectMeta :=
        (dbm_ObjectMeta (theReplica (cells h a)))\<lparr>omm_Annotations := p\<rparr>\<rparr>"
    and same: "\<And>c. c < lim h1 \<Longrightarrow> c \<noteq> a \<Longrightarrow>
      c \<notin> mapAdr h (omm_Annotations (dbm_ObjectMeta (theReplica (cells h a)))) \<Longrightarrow> cells h' c = cells h1 c"
  shows "replicaAt h' a = (let db = replicaAt h a in
      db\<lparr>db_Meta := (db_Meta db)\<lparr>om_Annotations := mapOf h' p\<rparr>\<rparr>)"
    and "agree {lim h..<lim h1} h1 h'"
proof -
  let ?v = "theReplica (cells h a)"
  let ?A = "objectMetaAdr h ((dbm_ObjectMeta ?v)\<lparr>omm_Annotations := None\<rparr>) \<union>
      replicaSpecAdr h (dbm_Spec ?v) \<union> replicaStatusAdr h (dbm_Status ?v)"
  have al: "a < lim h" "replicaAdr h ?v \<subseteq> {..<lim h}" "a \<notin> replicaAdr h ?v"
    and sep: "mapAdr h (omm_Annotations (dbm_ObjectMeta ?v)) \<inter> ?A = {}"
    using assms(1) by (auto simp: holdsReplica_def Let_def allocated_def ptrAdr_def)
  have sub: "?A \<subseteq> replicaAdr h ?v" "mapAdr h (omm_Annotations (dbm_ObjectMeta ?v)) \<subseteq> replicaAdr h ?v"
    by (auto simp: replicaAdr_def objectMetaAdr_def mapAdr_def ptrAdr_def)
  have old: "c < lim h1" if "c \<in> replicaAdr h ?v" for c
    using that al(2) extends_lim [OF assms(2)] by force
  have "agree ?A h h'"
    unfolding agree_def
  proof
    fix c
    assume c: "c \<in> ?A"
    then have "c \<in> replicaAdr h ?v" using sub by blast
    then have "cells h' c = cells h1 c"
      using same old al(3) c sep by blast
    then show "cells h' c = cells h c"
      using \<open>c \<in> replicaAdr h ?v\<close> assms(3) by (simp add: agree_def)
  qed
  from replicaAt_annotations [OF v this]
  show "replicaAt h' a = (let db = replicaAt h a in
      db\<lparr>db_Meta := (db_Meta db)\<lparr>om_Annotations := mapOf h' p\<rparr>\<rparr>)"
    by (simp add: replicaAt_def)
  show "agree {lim h..<lim h1} h1 h'"
    unfolding agree_def using same al sub(2) by fastforce
qed

lemma replicaAt_map: "om_Annotations (db_Meta (replicaAt h a)) =
    mapOf h (omm_Annotations (dbm_ObjectMeta (theReplica (cells h a))))"
  by (simp add: replicaAt_def replicaVal_def objectMetaVal_def)

text \<open>Writing through the map of the object, after its base \<open>b\<close> was taken.\<close>

lemma map_rewritten:
  assumes "holdsReplica h a" "extends h h1" "agree (insert a (replicaAdr h (theReplica (cells h a)))) h h1"
    and p: "omm_Annotations (dbm_ObjectMeta (theReplica (cells h a))) = Some m"
  shows "theMap (cells h1 m) = db_Annotations (replicaAt h a)"
    and "agree {lim h..<lim h1} h1 (poke m (MapCell entries) h1)"
    and "replicaAt (poke m (MapCell entries) h1) a = (replicaAt h a)\<lparr>db_Meta :=
      (db_Meta (replicaAt h a))\<lparr>om_Annotations := entries\<rparr>\<rparr>"
proof -
  let ?v = "theReplica (cells h a)" and ?h' = "poke m (MapCell entries) h1"
  have m: "m \<in> replicaAdr h ?v" "m \<in> mapAdr h (Some m)" "a \<notin> replicaAdr h ?v" "cells h1 a = cells h a"
    using assms by (auto simp: replicaAdr_def objectMetaAdr_def mapAdr_def ptrAdr_def holdsReplica_def Let_def)
  then show "theMap (cells h1 m) = db_Annotations (replicaAt h a)"
    using assms(3) p by (simp add: replicaAt_map agree_def mapOf_def ptrVal_def flatVal_def)
  have v: "theReplica (cells ?h' a) = ?v\<lparr>dbm_ObjectMeta := (dbm_ObjectMeta ?v)\<lparr>omm_Annotations := Some m\<rparr>\<rparr>"
    using m p by auto
  have same: "cells ?h' c = cells h1 c"
    if "c < lim h1" "c \<noteq> a" "c \<notin> mapAdr h (omm_Annotations (dbm_ObjectMeta ?v))" for c
    using that m p by auto
  note new = annotations_changed [OF assms(1-3) v same]
  show "agree {lim h..<lim h1} h1 ?h'" by (rule new(2))
  show "replicaAt ?h' a = (replicaAt h a)\<lparr>db_Meta :=
      (db_Meta (replicaAt h a))\<lparr>om_Annotations := entries\<rparr>\<rparr>"
    using new(1) by (simp add: Let_def mapOf_def ptrVal_def flatVal_def)
qed

text \<open>The annotation is written through the map of the object, or into a new map when there is none.\<close>

lemma pause_in_place:
  assumes "library_copies L" and "holdsReplica h a" and "run_state (pauseInPlace L a) h = (base, h')"
  shows "\<exists>b. base = Some b \<and> replicaAt h' b = replicaAt h a \<and> replicaAt h' a = setPause (replicaAt h a)"
proof -
  obtain base' h1 where copy: "run_state (LitestreamReplica_DeepCopy L (Some a)) h = (base', h1)" by fastforce
  then obtain b where b: "base' = Some b" and ex: "extends h h1"
    and ag: "agree (insert a (replicaAdr h (theReplica (cells h a)))) h h1"
    and old: "\<And>h'. agree {lim h..<lim h1} h1 h' \<Longrightarrow> replicaAt h' b = replicaAt h a"
    using replica_base [OF assms(1,2)] by metis
  let ?v = "theReplica (cells h a)"
  let ?p = "omm_Annotations (dbm_ObjectMeta ?v)"
  have a: "a < lim h" "a \<notin> replicaAdr h ?v" "cells h1 a = cells h a"
    using assms(2) ag by (auto simp: holdsReplica_def Let_def allocated_def ptrAdr_def)
  have al1: "a < lim h1" using a(1) extends_lim [OF ex] by simp
  show ?thesis
  proof (cases ?p)
    case None
    let ?m = "lim h1"
    have out: "base = Some b" "h' = poke ?m (MapCell [pauseAnnotation \<mapsto> injectEnabled])
        (poke a (ReplicaCell (?v\<lparr>dbm_ObjectMeta := (dbm_ObjectMeta ?v)\<lparr>omm_Annotations := Some ?m\<rparr>\<rparr>))
          \<lparr>cells = (cells h1)(?m := MapCell Map.empty), lim = Suc ?m\<rparr>)"
      using assms(3) copy b None a(3) al1 by (auto simp: pauseInPlace_def)
    note new = annotations_changed [OF assms(2) ex ag, of h' "Some ?m"]
    have "agree {lim h..<lim h1} h1 h'" "replicaAt h' a = setPause (replicaAt h a)"
      using new al1 replicaAt_map [of h a] None out(2)
      by (auto simp: setPause_def Let_def mapOf_def ptrVal_def flatVal_def)
    then show ?thesis using out old by simp
  next
    case (Some m)
    note new = map_rewritten [OF assms(2) ex ag Some]
    have out: "base = Some b"
      "h' = poke m (MapCell ((db_Annotations (replicaAt h a))(pauseAnnotation \<mapsto> injectEnabled))) h1"
      using assms(3) copy b Some a(3) new(1) by (auto simp: pauseInPlace_def)
    then show ?thesis
      using old [OF new(2)] new(3) by (simp add: setPause_def)
  qed
qed

text \<open>The key is deleted from the map of the object; there is nothing to do when there is no map.\<close>

lemma resume_in_place:
  assumes "library_copies L" and "holdsReplica h a" and "run_state (resumeInPlace L a) h = (base, h')"
  shows "\<exists>b. base = Some b \<and> replicaAt h' b = replicaAt h a \<and> replicaAt h' a = clearPause (replicaAt h a)"
proof -
  obtain base' h1 where copy: "run_state (LitestreamReplica_DeepCopy L (Some a)) h = (base', h1)" by fastforce
  then obtain b where b: "base' = Some b" and ex: "extends h h1"
    and ag: "agree (insert a (replicaAdr h (theReplica (cells h a)))) h h1"
    and old: "\<And>h'. agree {lim h..<lim h1} h1 h' \<Longrightarrow> replicaAt h' b = replicaAt h a"
    using replica_base [OF assms(1,2)] by metis
  let ?v = "theReplica (cells h a)"
  have same: "cells h1 a = cells h a" "replicaAt h1 a = replicaAt h a"
    using ag local_valueD(1) [OF local_replica, of h ?v h1] by (auto simp: replicaAt_def)
  show ?thesis
  proof (cases "omm_Annotations (dbm_ObjectMeta ?v)")
    case None
    then have "base = Some b" "h' = h1"
      using assms(3) copy b same(1) by (auto simp: resumeInPlace_def)
    then show ?thesis
      using old [of h1] same(2) replicaAt_map [of h a] None
      by (simp add: clearPause_def agree_def mapOf_def ptrVal_def)
  next
    case (Some m)
    note new = map_rewritten [OF assms(2) ex ag Some]
    have out: "base = Some b"
      "h' = poke m (MapCell ((db_Annotations (replicaAt h a))(pauseAnnotation := None))) h1"
      using assms(3) copy b Some same(1) new(1) by (auto simp: resumeInPlace_def)
    then show ?thesis
      using old [OF new(2)] new(3) by (simp add: clearPause_def)
  qed
qed

text \<open>C26. The in-place code of \<open>pauseReplication\<close> and of \<open>resumeReplication\<close> refines their models,
  although it writes through the object's map of annotations: the base that was copied before still
  denotes the replica as it was, and the object denotes \<open>setPause\<close>, respectively \<open>clearPause\<close>, of it,
  whether it had a map or not. A base that shared the map would make both patches empty.\<close>

theorem annotation_in_place:
  assumes "library_copies L" and "holdsReplica h a"
  shows "(\<exists>b h'. run_state (pauseInPlace L a) h = (Some b, h') \<and>
       replicaAt h' b = replicaAt h a \<and> replicaAt h' a = setPause (replicaAt h a)) \<and>
    (\<exists>b h'. run_state (resumeInPlace L a) h = (Some b, h') \<and>
       replicaAt h' b = replicaAt h a \<and> replicaAt h' a = clearPause (replicaAt h a))"
  using pause_in_place [OF assms] resume_in_place [OF assms] by (metis surj_pair)

lemma sample_holdsReplica: "holdsReplica sampleMemory 8"
  by (simp add: holdsReplica_def Let_def allocated_def sampleMemory_def ptrAdr_def replicaAdr_def
      objectMetaAdr_def mapAdr_def sliceAdr_def replicaSpecAdr_def backupSpecAdr_def backupDestinationAdr_def
      replicaStatusAdr_def noAdr_def zeroReplica_def zeroObjectMeta_def zeroReplicaSpec_def zeroBackupSpec_def
      zeroBackupDestination_def zeroReplicaStatus_def)

lemma annotation_in_place_witness:
  "\<exists>b h'. run_state (pauseInPlace goLibrary 8) sampleMemory = (Some b, h') \<and>
     db_Annotations (replicaAt h' b) = [''owner'' \<mapsto> ''ops''] \<and>
     db_Annotations (replicaAt h' 8) = [''owner'' \<mapsto> ''ops'', pauseAnnotation \<mapsto> injectEnabled]"
proof -
  have "db_Annotations (replicaAt sampleMemory 8) = [''owner'' \<mapsto> ''ops'']"
    by (simp add: replicaAt_map sampleMemory_def zeroReplica_def zeroObjectMeta_def mapOf_def ptrVal_def flatVal_def)
  then show ?thesis
    using annotation_in_place [OF goLibrary_copies sample_holdsReplica] by (auto simp: setPause_def)
qed

lemma sample_holdsRestore: "holdsRestore sampleMemory 0"
  using sample_restore_allocated
  by (simp add: holdsRestore_def sampleMemory_def restoreAdr_def objectMetaAdr_def mapAdr_def ptrAdr_def
      sliceAdr_def restoreSpecAdr_def restoreStatusAdr_def noAdr_def zeroObjectMeta_def zeroRestoreSpec_def
      zeroRestoreStatus_def)

lemma setStatus_in_place_witness:
  "\<exists>b h'. run_state (setStatusInPlace goLibrary 0 RestorePhaseFailed [] ''no job'' None (Some 3) (Some 3))
       sampleMemory = (Some b, h') \<and> restoreAt h' b = restoreAt sampleMemory 0 \<and>
     lr_Phase (restoreAt h' 0) = RestorePhaseFailed \<and> st_CompletionTime (lr_Status (restoreAt h' 0)) = Some 7"
proof -
  obtain base h' where run: "run_state (setStatusInPlace goLibrary 0 RestorePhaseFailed [] ''no job'' None
      (Some 3) (Some 3)) sampleMemory = (base, h')"
    by fastforce
  have "\<exists>b. base = Some b \<and> restoreAt h' b = restoreAt sampleMemory 0 \<and>
    restoreAt h' 0 = withStatus RestorePhaseFailed [] ''no job'' (ptrVal theInt32 flatVal sampleMemory None)
      (ptrVal theTime flatVal sampleMemory (Some 3)) (ptrVal theTime flatVal sampleMemory (Some 3))
      (restoreAt sampleMemory 0)"
    by (rule setStatus_in_place [OF goLibrary_copies sample_holdsRestore _ _ _ run])
      (simp_all add: pointsElsewhere_def sampleMemory_def)
  moreover have "ptrVal theTime flatVal sampleMemory (Some 3) = Some 7"
    by (simp add: ptrVal_def flatVal_def sampleMemory_def)
  ultimately show ?thesis
    using run by (auto simp: withStatus_def Let_def)
qed

end
